(* ===== verification/Prelude.thy ===== *)
theory Prelude
  imports Main "HOL-Library.Word"
begin

section \<open>Shared vocabulary of the development\<close>

text \<open>
  Types and generic lemmas used by every component theory: bytes and byte strings, Rust's
  \<open>Result\<close> as a sum (\<open>Inl\<close> is \<open>Err\<close>, \<open>Inr\<close> is \<open>Ok\<close>) with the operators \<open>?\<close> and
  \<open>map_err\<close>, a few \<open>std\<close> functions on ASCII strings, big-endian numbers, and the collection
  \<open>result_simps\<close> that unfolds a chain of \<open>?\<close> steps.
\<close>

unbundle bit_operations_syntax

named_theorems result_simps \<open>inversion of Result chains\<close>

type_synonym u8 = "8 word"
type_synonym u64 = "64 word"
type_synonym bytes = "8 word list"

text \<open>A Rust string is represented by its UTF-8 bytes.\<close>
type_synonym rstr = "8 word list"

type_synonym ('e, 'a) result = "'e + 'a"

text \<open>An object identifier is the list of its arcs: \<open>2.5.29.19\<close> is \<open>[2, 5, 29, 19]\<close>.\<close>
type_synonym oid = "nat list"

text \<open>Instants (\<open>DateTime<Utc>\<close>, \<open>der::DateTime\<close>) are seconds since the Unix epoch.\<close>
type_synonym datetime = int

subsection \<open>Result\<close>

text \<open>Rust's \<open>?\<close> followed by the rest of the block.\<close>

fun and_then :: "('e, 'a) result \<Rightarrow> ('a \<Rightarrow> ('e, 'b) result) \<Rightarrow> ('e, 'b) result" where
  "and_then (Inl e) f = Inl e"
| "and_then (Inr x) f = f x"

fun map_err :: "('e \<Rightarrow> 'f) \<Rightarrow> ('e, 'a) result \<Rightarrow> ('f, 'a) result" where
  "map_err g (Inl e) = Inl (g e)"
| "map_err g (Inr x) = Inr x"

fun ok_or :: "'e \<Rightarrow> 'a option \<Rightarrow> ('e, 'a) result" where
  "ok_or e None = Inl e"
| "ok_or e (Some x) = Inr x"

fun is_ok :: "('e, 'a) result \<Rightarrow> bool" where
  "is_ok (Inl e) = False"
| "is_ok (Inr x) = True"

text \<open>A loop whose body may return early with an error.\<close>

fun try_for :: "('a \<Rightarrow> ('e, unit) result) \<Rightarrow> 'a list \<Rightarrow> ('e, unit) result" where
  "try_for f [] = Inr ()"
| "try_for f (x # xs) = and_then (f x) (\<lambda>_. try_for f xs)"

lemma and_then_cong [fundef_cong]:
  "r = r' \<Longrightarrow> (\<And>x. r' = Inr x \<Longrightarrow> f x = f' x) \<Longrightarrow> and_then r f = and_then r' f'"
  by (cases r') auto

lemma and_then_Inr_iff [result_simps]:
  "and_then r f = Inr y \<longleftrightarrow> (\<exists>x. r = Inr x \<and> f x = Inr y)"
  by (cases r) auto

lemma and_then_Inl_iff [result_simps]:
  "and_then r f = Inl e \<longleftrightarrow> r = Inl e \<or> (\<exists>x. r = Inr x \<and> f x = Inl e)"
  by (cases r) auto

lemma map_err_Inr_iff [result_simps]: "map_err g r = Inr y \<longleftrightarrow> r = Inr y"
  by (cases r) auto

lemma map_err_Inl_iff [result_simps]: "map_err g r = Inl e \<longleftrightarrow> (\<exists>d. r = Inl d \<and> e = g d)"
  by (cases r) auto

lemma ok_or_Inr_iff [result_simps]: "ok_or e r = Inr y \<longleftrightarrow> r = Some y"
  by (cases r) auto

lemma ok_or_Inl_iff [result_simps]: "ok_or e r = Inl e' \<longleftrightarrow> r = None \<and> e' = e"
  by (cases r) auto

lemma if_err_Inr_iff [result_simps]: "(if b then Inl e else r) = Inr y \<longleftrightarrow> \<not> b \<and> r = Inr y"
  by auto

lemma is_ok_iff: "is_ok r \<longleftrightarrow> (\<exists>x. r = Inr x)"
  by (cases r) auto

lemma is_ok_and_then [simp]: "is_ok (and_then r f) \<longleftrightarrow> (\<exists>x. r = Inr x \<and> is_ok (f x))"
  by (cases r) auto

lemma is_ok_map_err [simp]: "is_ok (map_err g r) = is_ok r"
  by (cases r) auto

lemma try_for_Inr_iff [result_simps]: "try_for f xs = Inr u \<longleftrightarrow> (\<forall>x\<in>set xs. f x = Inr ())"
  by (induction xs) (auto simp: and_then_Inr_iff)

lemma try_for_append: "try_for f (xs @ ys) = and_then (try_for f xs) (\<lambda>_. try_for f ys)"
  by (induction xs) (auto split: sum.splits, metis and_then.simps sum.exhaust)

lemma try_for_Inl_D: "try_for f xs = Inl e \<Longrightarrow> \<exists>x\<in>set xs. f x = Inl e"
  by (induction xs) (auto simp: and_then_Inl_iff)

lemma result_exhaust_unit: "(\<And>e. r = Inl e \<Longrightarrow> P) \<Longrightarrow> (r = Inr () \<Longrightarrow> P) \<Longrightarrow> P"
  for r :: "'e + unit"
  by (cases r) auto

subsection \<open>Byte strings and ASCII strings of \<open>std\<close>\<close>

definition is_ascii :: "bytes \<Rightarrow> bool" where
  "is_ascii bs \<longleftrightarrow> list_all (\<lambda>b. b < 0x80) bs"

definition to_ascii_lower :: "u8 \<Rightarrow> u8" where
  "to_ascii_lower b = (if 0x41 \<le> b \<and> b \<le> 0x5A then b + 0x20 else b)"

definition to_ascii_lowercase :: "rstr \<Rightarrow> rstr" where
  "to_ascii_lowercase s = map to_ascii_lower s"

definition ends_with :: "'a list \<Rightarrow> 'a list \<Rightarrow> bool" where
  "ends_with s suf \<longleftrightarrow> length suf \<le> length s \<and> drop (length s - length suf) s = suf"

text \<open>\<open>str::strip_prefix\<close> and \<open>str::strip_suffix\<close> with a one-character pattern.\<close>

fun strip_prefix_char :: "'a \<Rightarrow> 'a list \<Rightarrow> 'a list option" where
  "strip_prefix_char c [] = None"
| "strip_prefix_char c (x # xs) = (if x = c then Some xs else None)"

definition strip_suffix_char :: "'a \<Rightarrow> 'a list \<Rightarrow> 'a list option" where
  "strip_suffix_char c s = (if s \<noteq> [] \<and> last s = c then Some (butlast s) else None)"

text \<open>\<open>str::rsplit_once\<close> with a one-character pattern: split at the last occurrence.\<close>

fun rsplit_once :: "'a \<Rightarrow> 'a list \<Rightarrow> ('a list \<times> 'a list) option" where
  "rsplit_once c [] = None"
| "rsplit_once c (x # xs) =
     (case rsplit_once c xs of
        Some (l, r) \<Rightarrow> Some (x # l, r)
      | None \<Rightarrow> (if x = c then Some ([], xs) else None))"

lemma ends_with_iff: "ends_with s suf \<longleftrightarrow> (\<exists>pre. s = pre @ suf)"
proof
  assume "ends_with s suf"
  then have "s = take (length s - length suf) s @ suf"
    unfolding ends_with_def by (metis append_take_drop_id)
  then show "\<exists>pre. s = pre @ suf" ..
qed (auto simp: ends_with_def)

lemma strip_prefix_char_Some_iff: "strip_prefix_char c s = Some t \<longleftrightarrow> s = c # t"
  by (cases s) auto

lemma strip_prefix_char_None_iff: "strip_prefix_char c s = None \<longleftrightarrow> (\<forall>t. s \<noteq> c # t)"
  by (cases s) auto

lemma rsplit_once_None_iff: "rsplit_once c s = None \<longleftrightarrow> c \<notin> set s"
  by (induction s) (auto split: option.splits)

lemma rsplit_once_Some_iff: "rsplit_once c s = Some (l, r) \<longleftrightarrow> s = l @ c # r \<and> c \<notin> set r"
proof (induction s arbitrary: l)
  case Nil
  then show ?case by simp
next
  case (Cons x s)
  show ?case
  proof (cases "rsplit_once c s")
    case None
    then have "c \<notin> set s" by (simp add: rsplit_once_None_iff)
    with None show ?thesis by (cases l) auto
  next
    case (Some p)
    then obtain l' r' where p: "rsplit_once c s = Some (l', r')" by (cases p) auto
    then have "c \<in> set s" by (metis option.distinct(1) rsplit_once_None_iff)
    with p show ?thesis using Cons.IH by (cases l) auto
  qed
qed

text \<open>A suffix preceded by a given element, as the host matchers test it.\<close>

lemma suffix_after_iff:
  "length suf < length s \<and> ends_with s suf \<and> s ! (length s - length suf - 1) = c
    \<longleftrightarrow> (\<exists>pre. s = pre @ c # suf)"
proof
  assume h: "length suf < length s \<and> ends_with s suf \<and> s ! (length s - length suf - 1) = c"
  then obtain pre where pre: "s = pre @ suf" by (auto simp: ends_with_iff)
  with h have ne: "pre \<noteq> []" by auto
  with h pre have "last pre = c" by (simp add: nth_append last_conv_nth)
  with ne have "pre = butlast pre @ [c]" by (metis append_butlast_last_id)
  with pre show "\<exists>pre. s = pre @ c # suf" by (metis append.assoc append_Cons append_Nil)
qed (auto simp: ends_with_iff nth_append)

subsection \<open>Big-endian numbers\<close>

text \<open>The loop \<open>val = (val << 8) | b\<close> on 64-bit integers and its reference value.\<close>

primrec be_loop :: "u64 \<Rightarrow> bytes \<Rightarrow> u64" where
  "be_loop v [] = v"
| "be_loop v (b # bs) = be_loop (push_bit 8 v OR ucast b) bs"

primrec be_nat :: "bytes \<Rightarrow> nat" where
  "be_nat [] = 0"
| "be_nat (b # bs) = unat b * 256 ^ length bs + be_nat bs"

lemma unat_u8_less [simp]: "unat (b :: u8) < 256"
  using unsigned_less [of b, where 'a = nat] by simp

lemma be_nat_less: "be_nat bs < 256 ^ length bs"
proof (induction bs)
  case Nil
  then show ?case by simp
next
  case (Cons b bs)
  have "unat b * 256 ^ length bs + be_nat bs < unat b * 256 ^ length bs + 256 ^ length bs"
    using Cons by simp
  also have "\<dots> = Suc (unat b) * 256 ^ length bs" by simp
  also have "\<dots> \<le> 256 * 256 ^ length bs"
    by (rule mult_le_mono1) (use unat_u8_less [of b] in linarith)
  finally show ?case by simp
qed

lemma be_nat_append: "be_nat (xs @ ys) = be_nat xs * 256 ^ length ys + be_nat ys"
  by (induction xs) (simp_all add: algebra_simps power_add)

lemma or_disjoint_nat: "push_bit 8 n OR m = n * 256 + m" if "m < 256" for n m :: nat
proof -
  have z: "push_bit 8 n AND m = 0"
  proof (rule bit_eqI)
    fix k
    show "bit (push_bit 8 n AND m) k = bit (0::nat) k"
    proof (cases "k < 8")
      case True
      then show ?thesis by (simp add: bit_and_iff bit_push_bit_iff_nat)
    next
      case False
      have "m < 2 ^ 8" using that by simp
      also have "(2::nat) ^ 8 \<le> 2 ^ k" using False by (intro power_increasing) auto
      finally have "\<not> bit m k" by (simp add: bit_iff_odd div_less)
      then show ?thesis by (simp add: bit_and_iff)
    qed
  qed
  have "push_bit 8 n + m = push_bit 8 n OR m"
    using z by (rule disjunctive_add_eq_or)
  then show ?thesis by (simp add: push_bit_eq_mult)
qed

lemma be_step_unat:
  assumes "unat v * 256 + unat b < 2 ^ 64"
  shows "unat (push_bit 8 v OR ucast b :: u64) = unat v * 256 + unat (b :: u8)"
proof -
  have "unat v * 256 < 2 ^ 64" using assms by simp
  then have p: "unat (push_bit 8 v) = push_bit 8 (unat v)"
    by (simp add: push_bit_eq_mult unat_word_ariths)
  have "unat b < 2 ^ 64" by (rule less_trans [OF unat_u8_less]) simp
  then have "unat (ucast b :: u64) = unat b" by (simp add: unsigned_ucast_eq take_bit_nat_eq_self)
  then show ?thesis by (simp add: unsigned_or_eq p or_disjoint_nat)
qed

lemma be_loop_unat:
  "unat v * 256 ^ length bs + be_nat bs < 2 ^ 64 \<Longrightarrow>
    unat (be_loop v bs) = unat v * 256 ^ length bs + be_nat bs"
proof (induction bs arbitrary: v)
  case Nil
  then show ?case by simp
next
  case (Cons b bs)
  let ?v = "push_bit 8 v OR ucast b :: u64"
  have pos: "(1::nat) \<le> 256 ^ length bs" by simp
  have "unat v * 256 + unat b \<le> (unat v * 256 + unat b) * 256 ^ length bs"
    using pos by (metis mult.right_neutral mult_le_mono2)
  also have "\<dots> \<le> unat v * 256 ^ length (b # bs) + be_nat (b # bs)"
    by (simp add: algebra_simps)
  finally have "unat v * 256 + unat b < 2 ^ 64" using Cons.prems by simp
  then have u: "unat ?v = unat v * 256 + unat b" by (rule be_step_unat)
  have "unat ?v * 256 ^ length bs + be_nat bs < 2 ^ 64"
    using Cons.prems by (simp add: u algebra_simps)
  from Cons.IH [OF this] show ?case by (simp add: u algebra_simps)
qed

lemma be_loop_0_unat: "length bs \<le> 8 \<Longrightarrow> unat (be_loop 0 bs) = be_nat bs"
proof -
  assume "length bs \<le> 8"
  then have "(256::nat) ^ length bs \<le> 256 ^ 8" by (intro power_increasing) auto
  then have "be_nat bs < 2 ^ 64" using be_nat_less [of bs] by simp
  then show ?thesis using be_loop_unat [of 0 bs] by simp
qed

lemma be_nat_inject:
  "length xs = length ys \<Longrightarrow> be_nat xs = be_nat ys \<Longrightarrow> xs = ys"
proof (induction xs ys rule: list_induct2)
  case Nil
  then show ?case by simp
next
  case (Cons x xs y ys)
  let ?m = "256 ^ length xs :: nat"
  have e: "unat x * ?m + be_nat xs = unat y * ?m + be_nat ys"
    using Cons.prems Cons.hyps by simp
  have lx: "be_nat xs < ?m" and ly: "be_nat ys < ?m"
    using be_nat_less [of xs] be_nat_less [of ys] Cons.hyps by simp_all
  have "(unat x * ?m + be_nat xs) div ?m = unat x" "(unat y * ?m + be_nat ys) div ?m = unat y"
    using lx ly by simp_all
  with e have "unat x = unat y" by simp
  with e have "x = y" and "be_nat xs = be_nat ys" by (simp_all add: unsigned_word_eqI)
  with Cons.IH show ?case by simp
qed

subsection \<open>Reachable states\<close>

text \<open>States reached from initial ones by steps, and the rule that an inductive predicate holds of
  all of them.\<close>

inductive reachable :: "('s \<Rightarrow> bool) \<Rightarrow> ('s \<Rightarrow> 's \<Rightarrow> bool) \<Rightarrow> 's \<Rightarrow> bool" for init step where
  reach_init: "init s \<Longrightarrow> reachable init step s"
| reach_step: "reachable init step s \<Longrightarrow> step s t \<Longrightarrow> reachable init step t"

locale inductive_invariant =
  fixes init :: "'s \<Rightarrow> bool" and step :: "'s \<Rightarrow> 's \<Rightarrow> bool" and inv :: "'s \<Rightarrow> bool"
  assumes inv_init: "init s \<Longrightarrow> inv s"
    and inv_step: "inv s \<Longrightarrow> step s t \<Longrightarrow> inv t"
begin

lemma inv_reachable: "reachable init step s \<Longrightarrow> inv s"
  by (induction rule: reachable.induct) (auto intro: inv_init inv_step)

end

end
