(* ===== verification/Rust_Std.thy ===== *)
theory Rust_Std
  imports Prelude
begin

section \<open>The parts of Rust's standard library the program parses text with\<close>

text \<open>
  \<open>str::from_utf8\<close> and \<open>str::chars\<close> (a strict UTF-8 decoder: no overlong forms, no
  surrogates, nothing above U+10FFFF), \<open>char::is_whitespace\<close> (the Unicode White_Space
  property) and \<open>str::parse\<close> for integers (an optional sign, then decimal digits, with
  overflow detected digit by digit). The Unicode lower-case table is a parameter of the
  definitions that use it.
\<close>

type_synonym char32 = nat

subsection \<open>UTF-8\<close>

definition is_cont :: "u8 \<Rightarrow> bool" where
  "is_cont b \<longleftrightarrow> b AND 0xC0 = 0x80"

definition cont_bits :: "u8 \<Rightarrow> nat" where
  "cont_bits b = unat (b AND 0x3F)"

text \<open>The second byte of a multi-byte sequence, restricted by the first as in the Unicode
  table of well-formed byte sequences.\<close>

definition second_ok :: "u8 \<Rightarrow> u8 \<Rightarrow> bool" where
  "second_ok b1 b2 \<longleftrightarrow>
     is_cont b2 \<and>
     (b1 = 0xE0 \<longrightarrow> 0xA0 \<le> b2) \<and> (b1 = 0xED \<longrightarrow> b2 \<le> 0x9F) \<and>
     (b1 = 0xF0 \<longrightarrow> 0x90 \<le> b2) \<and> (b1 = 0xF4 \<longrightarrow> b2 \<le> 0x8F)"

fun utf8_chars :: "bytes \<Rightarrow> char32 list option" where
  "utf8_chars [] = Some []"
| "utf8_chars (b1 # bs) =
     (if b1 < 0x80 then map_option ((#) (unat b1)) (utf8_chars bs)
      else if 0xC2 \<le> b1 \<and> b1 \<le> 0xDF then
        (case bs of
           b2 # bs' \<Rightarrow>
             if is_cont b2
             then map_option ((#) (unat (b1 AND 0x1F) * 64 + cont_bits b2)) (utf8_chars bs')
             else None
         | _ \<Rightarrow> None)
      else if 0xE0 \<le> b1 \<and> b1 \<le> 0xEF then
        (case bs of
           b2 # b3 # bs' \<Rightarrow>
             if second_ok b1 b2 \<and> is_cont b3
             then map_option
               ((#) (unat (b1 AND 0x0F) * 4096 + cont_bits b2 * 64 + cont_bits b3))
               (utf8_chars bs')
             else None
         | _ \<Rightarrow> None)
      else if 0xF0 \<le> b1 \<and> b1 \<le> 0xF4 then
        (case bs of
           b2 # b3 # b4 # bs' \<Rightarrow>
             if second_ok b1 b2 \<and> is_cont b3 \<and> is_cont b4
             then map_option
               ((#) (unat (b1 AND 0x07) * 262144 + cont_bits b2 * 4096
                     + cont_bits b3 * 64 + cont_bits b4))
               (utf8_chars bs')
             else None
         | _ \<Rightarrow> None)
      else None)"

declare utf8_chars.simps(2) [simp del]

definition from_utf8_ok :: "bytes \<Rightarrow> bool" where
  "from_utf8_ok bs \<longleftrightarrow> utf8_chars bs \<noteq> None"

lemma utf8_chars_ascii: "is_ascii bs \<Longrightarrow> utf8_chars bs = Some (map unat bs)"
  by (induction bs) (auto simp: is_ascii_def utf8_chars.simps)

lemma ascii_from_utf8_ok: "is_ascii bs \<Longrightarrow> from_utf8_ok bs"
  by (simp add: from_utf8_ok_def utf8_chars_ascii)

text \<open>\<open>char::is_whitespace\<close>.\<close>

definition is_whitespace :: "char32 \<Rightarrow> bool" where
  "is_whitespace c \<longleftrightarrow>
     (9 \<le> c \<and> c \<le> 13) \<or> c = 0x20 \<or> c = 0x85 \<or> c = 0xA0 \<or> c = 0x1680
     \<or> (0x2000 \<le> c \<and> c \<le> 0x200A) \<or> c = 0x2028 \<or> c = 0x2029 \<or> c = 0x202F
     \<or> c = 0x205F \<or> c = 0x3000"

subsection \<open>Parsing integers\<close>

datatype int_error = IntEmpty | InvalidDigit | PosOverflow | NegOverflow

definition is_digit :: "u8 \<Rightarrow> bool" where
  "is_digit b \<longleftrightarrow> 0x30 \<le> b \<and> b \<le> 0x39"

definition digit_val :: "u8 \<Rightarrow> int" where
  "digit_val b = uint b - 0x30"

fun digits_pos :: "int \<Rightarrow> int \<Rightarrow> rstr \<Rightarrow> (int_error, int) result" where
  "digits_pos hi acc [] = Inr acc"
| "digits_pos hi acc (b # bs) =
     (if \<not> is_digit b then Inl InvalidDigit
      else if hi < acc * 10 + digit_val b then Inl PosOverflow
      else digits_pos hi (acc * 10 + digit_val b) bs)"

fun digits_neg :: "int \<Rightarrow> int \<Rightarrow> rstr \<Rightarrow> (int_error, int) result" where
  "digits_neg lo acc [] = Inr acc"
| "digits_neg lo acc (b # bs) =
     (if \<not> is_digit b then Inl InvalidDigit
      else if acc * 10 - digit_val b < lo then Inl NegOverflow
      else digits_neg lo (acc * 10 - digit_val b) bs)"

definition parse_signed :: "int \<Rightarrow> int \<Rightarrow> rstr \<Rightarrow> (int_error, int) result" where
  "parse_signed lo hi s =
     (case s of
        [] \<Rightarrow> Inl IntEmpty
      | b # bs \<Rightarrow>
          if bs = [] \<and> (b = 0x2B \<or> b = 0x2D) then Inl InvalidDigit
          else if b = 0x2B then digits_pos hi 0 bs
          else if b = 0x2D then digits_neg lo 0 bs
          else digits_pos hi 0 s)"

definition parse_unsigned :: "int \<Rightarrow> rstr \<Rightarrow> (int_error, int) result" where
  "parse_unsigned hi s =
     (case s of
        [] \<Rightarrow> Inl IntEmpty
      | b # bs \<Rightarrow>
          if bs = [] \<and> (b = 0x2B \<or> b = 0x2D) then Inl InvalidDigit
          else if b = 0x2B then digits_pos hi 0 bs
          else digits_pos hi 0 s)"

definition parse_i32 :: "rstr \<Rightarrow> (int_error, int) result" where
  "parse_i32 = parse_signed (- (2 ^ 31)) (2 ^ 31 - 1)"

definition parse_u32 :: "rstr \<Rightarrow> (int_error, int) result" where
  "parse_u32 = parse_unsigned (2 ^ 32 - 1)"

lemma digit_val_nonneg: "is_digit b \<Longrightarrow> 0 \<le> digit_val b \<and> digit_val b \<le> 9"
  by (simp add: is_digit_def digit_val_def word_le_def)

lemma digits_pos_range:
  "digits_pos hi acc bs = Inr v \<Longrightarrow> 0 \<le> acc \<Longrightarrow> acc \<le> hi \<Longrightarrow> 0 \<le> v \<and> v \<le> hi"
proof (induction bs arbitrary: acc)
  case Nil
  then show ?case by simp
next
  case (Cons b bs)
  then show ?case using digit_val_nonneg [of b] by (auto simp: result_simps)
qed

lemma parse_u32_range: "parse_u32 s = Inr v \<Longrightarrow> 0 \<le> v \<and> v < 2 ^ 32"
  by (auto simp: parse_u32_def parse_unsigned_def split: list.splits if_splits
      dest!: digits_pos_range dest: digit_val_nonneg)

end
