(* ===== verification/Der_Utils.thy ===== *)
theory Der_Utils
  imports Rust_Std
begin

section \<open>DER primitives (\<open>src/src/der_utils.rs\<close>)\<close>

text \<open>
  The byte-level TLV reader and writer every other component is built on: tag and definite
  length parsing, the encoders, \<open>INTEGER\<close> bodies as \<open>u64\<close>, the \<open>BasicConstraints\<close> parser, the
  child searches and the two ASN.1 time formats. The \<open>String\<close> errors of the source are the
  constructors of \<open>der_error\<close>, one per message, carrying the values the message prints.
  \<open>chrono\<close>'s calendar constructors are parameters.
\<close>

datatype der_error =
    EmptyInput
  | HighTagNumber
  | EmptyLength
  | IndefiniteLength
  | LengthTooLarge nat
  | InsufficientLength
  | LengthLeadingZero
  | LengthLongForm
  | TlvExceedsData nat nat nat
  | EmptyInteger
  | NegativeInteger u8
  | IntegerTooLarge nat
  | BcExpectedSequence u8
  | BcCa der_error
  | BcBooleanLength nat
  | BcPathLen der_error
  | BcUnexpectedElement u8
  | BcPathLenWithoutCa
  | BcPathLenInteger der_error
  | BcTrailing

subsection \<open>Definite lengths\<close>

definition parse_der_length :: "bytes \<Rightarrow> (der_error, nat \<times> nat) result" where
  "parse_der_length data =
     (case data of
        [] \<Rightarrow> Inl EmptyLength
      | first # tail \<Rightarrow>
          if first < 0x80 then Inr (unat first, 1)
          else if first = 0x80 then Inl IndefiniteLength
          else let num_bytes = unat (first AND 0x7F) in
            if 4 < num_bytes then Inl (LengthTooLarge num_bytes)
            else if length data < 1 + num_bytes then Inl InsufficientLength
            else if data ! 1 = 0 then Inl LengthLeadingZero
            else let len = unat (be_loop 0 (take num_bytes tail)) in
              if len < 128 then Inl LengthLongForm
              else Inr (len, 1 + num_bytes))"

text \<open>\<open>(len >> k) as u8\<close> keeps the low eight bits of the shifted length.\<close>

definition as_u8 :: "nat \<Rightarrow> u8" where
  "as_u8 n = word_of_nat n"

definition encode_der_length :: "nat \<Rightarrow> bytes" where
  "encode_der_length len =
     (if len < 0x80 then [as_u8 len]
      else if len \<le> 0xFF then [0x81, as_u8 len]
      else if len \<le> 0xFFFF then [0x82, as_u8 (drop_bit 8 len), as_u8 len]
      else if len \<le> 0xFFFFFF then
        [0x83, as_u8 (drop_bit 16 len), as_u8 (drop_bit 8 len), as_u8 len]
      else
        [0x84, as_u8 (drop_bit 24 len), as_u8 (drop_bit 16 len),
         as_u8 (drop_bit 8 len), as_u8 len])"

subsection \<open>TLVs\<close>

definition parse_tlv_with_rest :: "bytes \<Rightarrow> (der_error, u8 \<times> bytes \<times> bytes) result" where
  "parse_tlv_with_rest data =
     (case data of
        [] \<Rightarrow> Inl EmptyInput
      | tag # tail \<Rightarrow>
          if tag AND 0x1f = 0x1f then Inl HighTagNumber
          else and_then (parse_der_length tail) (\<lambda>(len, header_len).
            let total_header = 1 + header_len in
            if length data - total_header < len
            then Inl (TlvExceedsData total_header len (length data))
            else Inr (tag, take len (drop total_header data), drop (total_header + len) data)))"

definition parse_tlv :: "bytes \<Rightarrow> (der_error, u8 \<times> bytes) result" where
  "parse_tlv data = and_then (parse_tlv_with_rest data) (\<lambda>(tag, body, _). Inr (tag, body))"

definition encode_tlv :: "u8 \<Rightarrow> bytes \<Rightarrow> bytes" where
  "encode_tlv tag value = tag # encode_der_length (length value) @ value"

definition encode_sequence_raw :: "bytes \<Rightarrow> bytes" where
  "encode_sequence_raw body = 0x30 # encode_der_length (length body) @ body"

definition encode_sequence_from_parts :: "bytes list \<Rightarrow> bytes" where
  "encode_sequence_from_parts parts = encode_sequence_raw (concat parts)"

definition encode_boolean :: "bool \<Rightarrow> bytes" where
  "encode_boolean val = encode_tlv 0x01 [if val then 0xFF else 0x00]"

subsection \<open>Integers\<close>

text \<open>\<open>u64::to_be_bytes\<close>.\<close>

definition to_be_bytes :: "u64 \<Rightarrow> bytes" where
  "to_be_bytes v = map (\<lambda>i. ucast (drop_bit (8 * (7 - i)) v)) [0..<8]"

text \<open>The index of the first non-zero byte; 7 when all are zero.\<close>

definition significant_bytes :: "u64 \<Rightarrow> bytes" where
  "significant_bytes v =
     (let be = to_be_bytes v; w = dropWhile (\<lambda>b. b = 0) be
      in if w = [] then drop 7 be else w)"

definition encode_integer_u64 :: "u64 \<Rightarrow> bytes" where
  "encode_integer_u64 v =
     (let significant = significant_bytes v;
          needs_padding = (significant = [] \<or> hd significant AND 0x80 \<noteq> 0)
      in encode_tlv 0x02 ((if needs_padding then [0x00] else []) @ significant))"

definition decode_integer_u64 :: "bytes \<Rightarrow> (der_error, u64) result" where
  "decode_integer_u64 bs =
     (if bs = [] then Inl EmptyInteger
      else and_then
        (if 1 < length bs \<and> hd bs = 0x00 then Inr (tl bs)
         else if hd bs AND 0x80 \<noteq> 0 then Inl (NegativeInteger (hd bs))
         else Inr bs)
        (\<lambda>significant.
           if 8 < length significant then Inl (IntegerTooLarge (length significant))
           else Inr (be_loop 0 significant)))"

definition parse_integer_body :: "bytes \<Rightarrow> bytes" where
  "parse_integer_body body = (if 1 < length body \<and> hd body = 0x00 then tl body else body)"

definition integer_bodies_equal :: "bytes \<Rightarrow> bytes \<Rightarrow> bool" where
  "integer_bodies_equal a b \<longleftrightarrow> parse_integer_body a = parse_integer_body b"

subsection \<open>\<open>BasicConstraints\<close>\<close>

text \<open>The two optional fields: each step returns what was read and the position after it.\<close>

definition bc_read_ca :: "bytes \<Rightarrow> (der_error, bool \<times> bytes) result" where
  "bc_read_ca pos =
     (if pos = [] then Inr (False, pos)
      else and_then (map_err BcCa (parse_tlv_with_rest pos)) (\<lambda>(t, value, rest).
        if t = 0x01 then
          (if length value \<noteq> 1 then Inl (BcBooleanLength (length value))
           else Inr (hd value \<noteq> 0x00, rest))
        else Inr (False, pos)))"

definition bc_read_path_len :: "bool \<Rightarrow> bytes \<Rightarrow> (der_error, u64 option) result" where
  "bc_read_path_len is_ca pos =
     (if pos = [] then Inr None
      else and_then (map_err BcPathLen (parse_tlv_with_rest pos)) (\<lambda>(t, value, rest).
        if t \<noteq> 0x02 then Inl (BcUnexpectedElement t)
        else if \<not> is_ca then Inl BcPathLenWithoutCa
        else and_then (map_err BcPathLenInteger (decode_integer_u64 value)) (\<lambda>p.
          if rest \<noteq> [] then Inl BcTrailing else Inr (Some p))))"

definition parse_basic_constraints :: "bytes \<Rightarrow> (der_error, bool \<times> u64 option) result" where
  "parse_basic_constraints ext_value =
     and_then (parse_tlv ext_value) (\<lambda>(tag, seq_body).
       if tag \<noteq> 0x30 then Inl (BcExpectedSequence tag)
       else and_then (bc_read_ca seq_body) (\<lambda>(is_ca, pos).
         and_then (bc_read_path_len is_ca pos) (\<lambda>path_len. Inr (is_ca, path_len))))"

subsection \<open>Termination of the child loops\<close>

lemma parse_der_length_consumed:
  "parse_der_length data = Inr (len, n) \<Longrightarrow> 1 \<le> n \<and> n \<le> length data"
  by (auto simp: parse_der_length_def Let_def split: list.splits if_splits)

lemma parse_tlv_with_rest_shorter:
  "parse_tlv_with_rest data = Inr (t, v, rest) \<Longrightarrow> length rest < length data"
  by (auto simp: parse_tlv_with_rest_def result_simps Let_def split: list.splits if_splits)

lemma parse_tlv_with_rest_sum:
  "parse_tlv_with_rest data = Inr x \<Longrightarrow> length (snd (snd x)) < length data"
  by (cases x) (auto dest: parse_tlv_with_rest_shorter)

subsection \<open>Children of a constructed value\<close>

function find_tagged_value :: "bytes \<Rightarrow> u8 \<Rightarrow> bytes option" where
  "find_tagged_value pos target_tag =
     (if pos = [] then None
      else (case parse_tlv_with_rest pos of
              Inr (tag, value, rest) \<Rightarrow>
                if tag = target_tag then Some value else find_tagged_value rest target_tag
            | Inl _ \<Rightarrow> None))"
  by pat_completeness auto
termination
  by (relation "measure (\<lambda>(pos, _). length pos)") (auto dest: parse_tlv_with_rest_shorter)

text \<open>\<open>for_each_tlv\<close> threads the closure's captured state.\<close>

function for_each_tlv :: "bytes \<Rightarrow> (u8 \<Rightarrow> bytes \<Rightarrow> 's \<Rightarrow> 's) \<Rightarrow> 's \<Rightarrow> 's" where
  "for_each_tlv pos f s =
     (if pos = [] then s
      else (case parse_tlv_with_rest pos of
              Inr (tag, value, rest) \<Rightarrow> for_each_tlv rest f (f tag value s)
            | Inl _ \<Rightarrow> s))"
  by pat_completeness auto
termination
  by (relation "measure (\<lambda>(pos, _). length pos)") (auto dest: parse_tlv_with_rest_shorter)

declare find_tagged_value.simps [simp del] for_each_tlv.simps [simp del]

subsection \<open>ASN.1 times\<close>

text \<open>\<open>NaiveDate::from_ymd_opt\<close> (days since the epoch) and \<open>NaiveTime::from_hms_opt\<close> (seconds of
  the day) belong to the \<open>chrono\<close> crate.\<close>

record chrono =
  from_ymd_opt :: "int \<Rightarrow> int \<Rightarrow> int \<Rightarrow> int option"
  from_hms_opt :: "int \<Rightarrow> int \<Rightarrow> int \<Rightarrow> int option"

datatype time_kind = GeneralizedTime | UtcTime

datatype time_error =
    TimeUtf8 time_kind
  | TimeNonAscii time_kind
  | TimeTooShort time_kind rstr
  | TimeYear int_error
  | TimeMonth int_error
  | TimeDay int_error
  | TimeHour int_error
  | TimeMinute int_error
  | TimeSecond int_error
  | InvalidDate int int int
  | InvalidTime int int int
  | TimeUnexpectedTag u8

definition str_slice :: "nat \<Rightarrow> nat \<Rightarrow> 'a list \<Rightarrow> 'a list" where
  "str_slice i j s = take (j - i) (drop i s)"

text \<open>The fields after the year, two characters each from offset \<open>off\<close>, and the calendar
  checks both formats share.\<close>

definition time_fields :: "chrono \<Rightarrow> int \<Rightarrow> nat \<Rightarrow> rstr \<Rightarrow> (time_error, datetime) result" where
  "time_fields ch year off s =
     and_then (map_err TimeMonth (parse_u32 (str_slice off (off + 2) s))) (\<lambda>month.
     and_then (map_err TimeDay (parse_u32 (str_slice (off + 2) (off + 4) s))) (\<lambda>day.
     and_then (map_err TimeHour (parse_u32 (str_slice (off + 4) (off + 6) s))) (\<lambda>hour.
     and_then (map_err TimeMinute (parse_u32 (str_slice (off + 6) (off + 8) s))) (\<lambda>min.
     and_then (map_err TimeSecond (parse_u32 (str_slice (off + 8) (off + 10) s))) (\<lambda>sec.
     and_then (ok_or (InvalidDate year month day) (from_ymd_opt ch year month day)) (\<lambda>date.
     and_then (ok_or (InvalidTime hour min sec) (from_hms_opt ch hour min sec)) (\<lambda>time.
       Inr (date * 86400 + time))))))))"

definition strip_z :: "rstr \<Rightarrow> rstr" where
  "strip_z s = (case strip_suffix_char 0x5A s of Some t \<Rightarrow> t | None \<Rightarrow> s)"

definition parse_generalized_time :: "chrono \<Rightarrow> bytes \<Rightarrow> (time_error, datetime) result" where
  "parse_generalized_time ch body =
     (if \<not> from_utf8_ok body then Inl (TimeUtf8 GeneralizedTime)
      else if \<not> is_ascii body then Inl (TimeNonAscii GeneralizedTime)
      else let s = takeWhile (\<lambda>c. c \<noteq> 0x2E) (strip_z body) in
        if length s < 14 then Inl (TimeTooShort GeneralizedTime s)
        else and_then (map_err TimeYear (parse_i32 (str_slice 0 4 s))) (\<lambda>year.
          time_fields ch year 4 s))"

definition parse_utc_time :: "chrono \<Rightarrow> bytes \<Rightarrow> (time_error, datetime) result" where
  "parse_utc_time ch body =
     (if \<not> from_utf8_ok body then Inl (TimeUtf8 UtcTime)
      else if \<not> is_ascii body then Inl (TimeNonAscii UtcTime)
      else let s = strip_z body in
        if length s < 12 then Inl (TimeTooShort UtcTime s)
        else and_then (map_err TimeYear (parse_i32 (str_slice 0 2 s))) (\<lambda>yy.
          time_fields ch (if 50 \<le> yy then 1900 + yy else 2000 + yy) 2 s))"

definition parse_x509_time :: "chrono \<Rightarrow> u8 \<Rightarrow> bytes \<Rightarrow> (time_error, datetime) result" where
  "parse_x509_time ch tag body =
     (if tag = 0x17 then parse_utc_time ch body
      else if tag = 0x18 then parse_generalized_time ch body
      else Inl (TimeUnexpectedTag tag))"

subsection \<open>Lengths: encoder and strict parser are inverse\<close>

lemma unat_as_u8: "unat (as_u8 n) = n mod 256"
  by (simp add: as_u8_def unsigned_of_nat take_bit_eq_mod)

lemma as_u8_unat [simp]: "as_u8 (unat b) = b"
  by (simp add: as_u8_def)

lemma as_u8_less: "n < 128 \<Longrightarrow> as_u8 n < 0x80"
  by (simp add: word_less_nat_alt unat_as_u8)

text \<open>Big-endian encoding in exactly \<open>k\<close> bytes.\<close>

primrec be_enc :: "nat \<Rightarrow> nat \<Rightarrow> bytes" where
  "be_enc 0 n = []"
| "be_enc (Suc k) n = be_enc k (n div 256) @ [as_u8 n]"

lemma length_be_enc [simp]: "length (be_enc k n) = k"
  by (induction k arbitrary: n) auto

lemma be_nat_be_enc: "be_nat (be_enc k n) = n mod 256 ^ k"
proof (induction k arbitrary: n)
  case 0
  then show ?case by simp
next
  case (Suc k)
  have "n mod (256 * 256 ^ k) = 256 * (n div 256 mod 256 ^ k) + n mod 256"
    by (rule mod_mult2_eq)
  with Suc show ?case by (simp add: be_nat_append unat_as_u8)
qed

lemma be_enc_be_nat: "be_enc (length bs) (be_nat bs) = bs"
  by (rule be_nat_inject) (simp_all add: be_nat_be_enc be_nat_less)

lemma be_nat_first_nonzero:
  "be_nat (b # bs) \<ge> 256 ^ length bs \<longleftrightarrow> b \<noteq> 0"
proof (cases "b = 0")
  case True
  then show ?thesis using be_nat_less [of bs] by simp
next
  case False
  then have "1 \<le> unat b" by (metis One_nat_def Suc_leI gr0I unsigned_eq_0_iff)
  then have "256 ^ length bs \<le> unat b * 256 ^ length bs" by simp
  with False show ?thesis by (simp add: trans_le_add1)
qed

lemma be_enc_unfold:
  "be_enc 1 n = [as_u8 n]"
  "be_enc 2 n = [as_u8 (n div 256), as_u8 n]"
  "be_enc 3 n = [as_u8 (n div 65536), as_u8 (n div 256), as_u8 n]"
  "be_enc 4 n = [as_u8 (n div 16777216), as_u8 (n div 65536), as_u8 (n div 256), as_u8 n]"
proof -
  show "be_enc 1 n = [as_u8 n]" by simp
  have four: "(4::nat) = Suc (Suc (Suc (Suc 0)))" by simp
  show "be_enc 2 n = [as_u8 (n div 256), as_u8 n]" by (simp add: numeral_2_eq_2)
  show "be_enc 3 n = [as_u8 (n div 65536), as_u8 (n div 256), as_u8 n]"
    by (simp add: numeral_3_eq_3 flip: div_mult2_eq)
  show "be_enc 4 n = [as_u8 (n div 16777216), as_u8 (n div 65536), as_u8 (n div 256), as_u8 n]"
    unfolding four by (simp flip: div_mult2_eq)
qed

lemma encode_der_length_eq:
  "encode_der_length len =
     (if len < 128 then [as_u8 len]
      else if len < 256 ^ 1 then 0x81 # be_enc 1 len
      else if len < 256 ^ 2 then 0x82 # be_enc 2 len
      else if len < 256 ^ 3 then 0x83 # be_enc 3 len
      else 0x84 # be_enc 4 len)"
  unfolding be_enc_unfold encode_der_length_def by (auto simp: drop_bit_eq_div)

text \<open>The long form is accepted exactly on minimal lengths.\<close>

lemma long_form_count:
  "k \<in> {1, 2, 3, 4} \<Longrightarrow> unat ((0x80 + word_of_nat k :: u8) AND 0x7F) = k"
  by auto

lemma long_form_first:
  "k \<in> {1, 2, 3, 4} \<Longrightarrow>
    \<not> (0x80 + word_of_nat k :: u8) < 0x80 \<and> 0x80 + word_of_nat k \<noteq> (0x80 :: u8)"
  by auto

lemma parse_der_length_long:
  assumes k: "length bs \<in> {1, 2, 3, 4}"
  shows "parse_der_length ((0x80 + word_of_nat (length bs)) # bs @ rest) =
    (if hd bs = 0 then Inl LengthLeadingZero
     else if be_nat bs < 128 then Inl LengthLongForm
     else Inr (be_nat bs, 1 + length bs))"
proof -
  have "bs \<noteq> []" using k by auto
  then have "(bs @ rest) ! 0 = hd bs" by (simp add: hd_conv_nth nth_append)
  moreover have "unat (be_loop 0 bs) = be_nat bs" using k by (intro be_loop_0_unat) auto
  ultimately show ?thesis
    using k long_form_first [OF k] long_form_count [OF k]
    by (auto simp: parse_der_length_def Let_def)
qed

lemma unat_and_7F: "unat (b AND 0x7F :: u8) = unat b mod 128"
proof -
  have "(0x7F :: u8) = mask 7" by (simp add: mask_eq_exp_minus_1)
  then have "b AND 0x7F = take_bit 7 b" by (simp add: take_bit_eq_mask)
  then have "unat (b AND 0x7F) = take_bit 7 (unat b)" by (simp only: unsigned_take_bit_eq)
  then show ?thesis by (simp add: take_bit_eq_mod)
qed

lemma high_first_byte:
  assumes "\<not> (b :: u8) < 0x80" "b \<noteq> 0x80"
  shows "b = 0x80 + word_of_nat (unat (b AND 0x7F))" "1 \<le> unat (b AND 0x7F)"
proof -
  have ge: "128 \<le> unat b" using assms(1) by (simp add: word_less_nat_alt)
  have ne: "unat b \<noteq> 128" using assms(2) by (auto simp: word_unat_eq_iff)
  have "unat b - 128 < 128" using unat_u8_less [of b] ge by linarith
  then have m: "unat b mod 128 = unat b - 128"
    using ge by (simp only: le_mod_geq mod_less)
  with ge ne show "1 \<le> unat (b AND 0x7F)" by (simp add: unat_and_7F)
  have "0x80 + word_of_nat (unat b - 128) = (word_of_nat (128 + (unat b - 128)) :: u8)"
    by (simp only: of_nat_add of_nat_numeral)
  also have "\<dots> = b" using ge by simp
  finally show "b = 0x80 + word_of_nat (unat (b AND 0x7F))" by (simp add: unat_and_7F m)
qed

lemma encode_der_length_long:
  assumes "128 \<le> len" "len < 2 ^ 32"
  obtains k where "k \<in> {1, 2, 3, 4}" "256 ^ (k - 1) \<le> len" "len < 256 ^ k"
    "encode_der_length len = (0x80 + word_of_nat k) # be_enc k len"
proof -
  consider "len < 256 ^ 1" | "256 ^ 1 \<le> len" "len < 256 ^ 2"
    | "256 ^ 2 \<le> len" "len < 256 ^ 3" | "256 ^ 3 \<le> len" "len < 256 ^ 4"
    using assms(2) by fastforce
  then show ?thesis
  proof cases
    case 1
    with assms show ?thesis by (intro that [of 1]) (simp_all add: encode_der_length_eq)
  next
    case 2
    then show ?thesis by (intro that [of 2]) (simp_all add: encode_der_length_eq)
  next
    case 3
    then show ?thesis by (intro that [of 3]) (simp_all add: encode_der_length_eq)
  next
    case 4
    then show ?thesis by (intro that [of 4]) (simp_all add: encode_der_length_eq)
  qed
qed

lemma encode_der_length_bytes:
  assumes "bs \<noteq> []" "hd bs \<noteq> 0" "128 \<le> be_nat bs" "length bs \<le> 4"
  shows "encode_der_length (be_nat bs) = (0x80 + word_of_nat (length bs)) # bs"
proof -
  have lt: "be_nat bs < 256 ^ length bs" by (rule be_nat_less)
  have ge: "256 ^ (length bs - 1) \<le> be_nat bs"
    using assms(1,2) be_nat_first_nonzero by (cases bs) auto
  have "length bs = 1 \<or> length bs = 2 \<or> length bs = 3 \<or> length bs = 4"
    using assms(1,4) length_greater_0_conv [of bs] by linarith
  then have "encode_der_length (be_nat bs)
      = (0x80 + word_of_nat (length bs)) # be_enc (length bs) (be_nat bs)"
    using assms(3) lt ge by (auto simp: encode_der_length_eq)
  then show ?thesis by (simp add: be_enc_be_nat)
qed

lemma parse_encode_der_length:
  assumes "len < 2 ^ 32"
  shows "parse_der_length (encode_der_length len @ rest)
    = Inr (len, length (encode_der_length len))"
proof (cases "len < 128")
  case True
  then show ?thesis
    by (simp add: encode_der_length_eq parse_der_length_def as_u8_less unat_as_u8)
next
  case False
  then have "128 \<le> len" by simp
  then obtain k where k: "k \<in> {1, 2, 3, 4}" "256 ^ (k - 1) \<le> len" "len < 256 ^ k"
    and e: "encode_der_length len = (0x80 + word_of_nat k) # be_enc k len"
    using assms by (rule encode_der_length_long)
  have v: "be_nat (be_enc k len) = len" using k(3) by (simp add: be_nat_be_enc)
  obtain b bs where bs: "be_enc k len = b # bs" "length bs = k - 1"
    using k(1) length_be_enc [of k len] by (cases "be_enc k len") auto
  have "b \<noteq> 0" using be_nat_first_nonzero [of bs b] k(2) v bs by simp
  then have "hd (be_enc k len) \<noteq> 0" by (simp add: bs(1))
  then show ?thesis
    using False k(1) v parse_der_length_long [of "be_enc k len" rest] by (simp add: e)
qed

lemma parse_der_length_canonical:
  assumes "parse_der_length data = Inr (len, n)"
  shows "len < 2 ^ 32 \<and> n = length (encode_der_length len)
    \<and> (\<exists>rest. data = encode_der_length len @ rest)"
proof -
  obtain first tail where data: "data = first # tail"
    using assms by (cases data) (auto simp: parse_der_length_def)
  show ?thesis
  proof (cases "first < 0x80")
    case True
    then have "unat first < 128" by (simp add: word_less_nat_alt)
    with True assms data show ?thesis
      by (auto simp: parse_der_length_def encode_der_length_eq)
  next
    case False
    define k where "k = unat (first AND 0x7F)"
    have guards: "first \<noteq> 0x80" "k \<le> 4" "k \<le> length tail"
      using assms False by (auto simp: parse_der_length_def data k_def Let_def split: if_splits)
    note first = high_first_byte [OF False guards(1), folded k_def]
    define bs where "bs = take k tail"
    have bs: "length bs = k" "tail = bs @ drop k tail" using guards by (simp_all add: bs_def)
    have "k \<in> {1, 2, 3, 4}" using guards first(2) by auto
    then have p: "parse_der_length data =
      (if hd bs = 0 then Inl LengthLeadingZero else if be_nat bs < 128 then Inl LengthLongForm
       else Inr (be_nat bs, 1 + length bs))"
      using parse_der_length_long [of bs "drop k tail"] bs first(1) data by simp
    then have ok: "hd bs \<noteq> 0" "128 \<le> be_nat bs" "len = be_nat bs" "n = 1 + length bs"
      using assms by (auto split: if_splits)
    have ne: "bs \<noteq> []" using bs first(2) by auto
    have e: "encode_der_length len = first # bs"
      using encode_der_length_bytes [OF ne ok(1,2)] guards(2) bs(1) ok(3) first(1) by simp
    have "(256::nat) ^ length bs \<le> 256 ^ 4"
      using guards(2) bs(1) by (intro power_increasing) auto
    then have "len < 2 ^ 32" using be_nat_less [of bs] ok(3) by simp
    with e ok(4) data bs(2) show ?thesis by auto
  qed
qed

subsection \<open>TLVs: the interface and its implementation\<close>

text \<open>
  What a client of a TLV codec relies on: on values in the codec's range, decoding the
  encoding followed by anything gives back tag, value and the rest; and whatever decodes was
  the encoding of what it decoded to (the decoder accepts canonical input only).
\<close>

locale tlv_codec =
  fixes enc :: "'t \<Rightarrow> 'b list \<Rightarrow> 'b list"
    and dec :: "'b list \<Rightarrow> ('e, 't \<times> 'b list \<times> 'b list) result"
    and fits :: "'t \<Rightarrow> 'b list \<Rightarrow> bool"
  assumes dec_enc: "fits t v \<Longrightarrow> dec (enc t v @ rest) = Inr (t, v, rest)"
    and dec_canonical: "dec d = Inr (t, v, rest) \<Longrightarrow> fits t v \<and> d = enc t v @ rest"
    and dec_nil: "\<not> is_ok (dec [])"
begin

definition enc_all :: "('t \<times> 'b list) list \<Rightarrow> 'b list" where
  "enc_all cs = concat (map (\<lambda>(t, v). enc t v) cs)"

lemma enc_all_simps [simp]: "enc_all [] = []" "enc_all ((t, v) # cs) = enc t v @ enc_all cs"
  by (simp_all add: enc_all_def)

lemma enc_nonempty: "fits t v \<Longrightarrow> enc t v \<noteq> []"
  using dec_enc [of t v "[]"] dec_nil by auto

lemma dec_shorter: "dec d = Inr (t, v, rest) \<Longrightarrow> length rest < length d"
  using dec_canonical [of d t v rest] enc_nonempty [of t v] by auto

lemma enc_inject: "fits t v \<Longrightarrow> fits t' v' \<Longrightarrow> enc t v = enc t' v' \<Longrightarrow> t = t' \<and> v = v'"
  using dec_enc [of t v "[]"] dec_enc [of t' v' "[]"] by simp

lemma enc_all_unique:
  "list_all (\<lambda>(t, v). fits t v) cs \<Longrightarrow> list_all (\<lambda>(t, v). fits t v) ds \<Longrightarrow>
    enc_all cs = enc_all ds \<Longrightarrow> cs = ds"
proof (induction cs arbitrary: ds)
  case Nil
  then show ?case using enc_nonempty by (cases ds) auto
next
  case (Cons c cs)
  obtain t v where c: "c = (t, v)" by (cases c)
  with Cons.prems have f: "fits t v" by simp
  obtain t' v' ds' where ds: "ds = (t', v') # ds'"
    using Cons.prems(3) enc_nonempty [OF f] c by (cases ds) auto
  with Cons.prems have f': "fits t' v'" by simp
  have e: "enc t v @ enc_all cs = enc t' v' @ enc_all ds'" using Cons.prems(3) c ds by simp
  have "t = t' \<and> v = v' \<and> enc_all cs = enc_all ds'"
    using dec_enc [OF f, of "enc_all cs"] dec_enc [OF f', of "enc_all ds'"] unfolding e by simp
  with Cons.IH [of ds'] Cons.prems c ds show ?case by simp
qed

end

text \<open>A loop over the children of a constructed value, as the parsers write it.\<close>

locale tlv_loop = tlv_codec enc dec fits
  for enc :: "'t \<Rightarrow> 'b list \<Rightarrow> 'b list"
    and dec :: "'b list \<Rightarrow> ('e, 't \<times> 'b list \<times> 'b list) result"
    and fits :: "'t \<Rightarrow> 'b list \<Rightarrow> bool" +
  fixes loop :: "'b list \<Rightarrow> 'r" and base :: 'r and step :: "'t \<Rightarrow> 'b list \<Rightarrow> 'r \<Rightarrow> 'r"
  assumes loop_nil: "loop [] = base"
    and loop_step: "d \<noteq> [] \<Longrightarrow> dec d = Inr (t, v, rest) \<Longrightarrow> loop d = step t v (loop rest)"
begin

lemma loop_enc_all:
  "list_all (\<lambda>(t, v). fits t v) cs \<Longrightarrow> loop (enc_all cs) = foldr (\<lambda>(t, v). step t v) cs base"
proof (induction cs)
  case Nil
  then show ?case by (simp add: loop_nil)
next
  case (Cons c cs)
  obtain t v where c: "c = (t, v)" by (cases c)
  with Cons.prems have "enc t v @ enc_all cs \<noteq> []" by (simp add: enc_nonempty)
  moreover have "dec (enc t v @ enc_all cs) = Inr (t, v, enc_all cs)"
    using Cons.prems c by (simp add: dec_enc)
  ultimately have "loop (enc t v @ enc_all cs) = step t v (loop (enc_all cs))"
    by (rule loop_step)
  with Cons c show ?case by simp
qed

end

text \<open>The values the DER codec covers: low-tag-number form, length below \<open>2 ^ 32\<close>.\<close>

definition tlv_fits :: "u8 \<Rightarrow> bytes \<Rightarrow> bool" where
  "tlv_fits t v \<longleftrightarrow> t AND 0x1f \<noteq> 0x1f \<and> length v < 2 ^ 32"

lemma parse_encode_tlv:
  "tlv_fits t v \<Longrightarrow> parse_tlv_with_rest (encode_tlv t v @ rest) = Inr (t, v, rest)"
  by (simp add: tlv_fits_def parse_tlv_with_rest_def encode_tlv_def parse_encode_der_length)

lemma parse_tlv_canonical:
  assumes "parse_tlv_with_rest d = Inr (t, v, rest)"
  shows "tlv_fits t v \<and> d = encode_tlv t v @ rest"
proof -
  obtain tail len n where d: "d = t # tail" "t AND 0x1f \<noteq> 0x1f"
    and l: "parse_der_length tail = Inr (len, n)" "len \<le> length tail - n"
    and v: "v = take len (drop n tail)" "rest = drop len (drop n tail)"
    using assms
    by (auto simp: parse_tlv_with_rest_def result_simps Let_def add.commute
        split: list.splits if_splits)
  obtain r where r: "len < 2 ^ 32" "n = length (encode_der_length len)"
    "tail = encode_der_length len @ r"
    using parse_der_length_canonical [OF l(1)] by auto
  with l v have "length v = len" by simp
  with d r v show ?thesis by (simp add: tlv_fits_def encode_tlv_def)
qed

interpretation der: tlv_codec encode_tlv parse_tlv_with_rest tlv_fits
  by unfold_locales (auto simp: parse_encode_tlv parse_tlv_canonical dest: parse_tlv_canonical,
      simp add: parse_tlv_with_rest_def)

interpretation find_loop: tlv_loop encode_tlv parse_tlv_with_rest tlv_fits
  "\<lambda>d. find_tagged_value d tag" None "\<lambda>t v r. if t = tag then Some v else r" for tag
  by unfold_locales (simp_all add: find_tagged_value.simps)

interpretation each_loop: tlv_loop encode_tlv parse_tlv_with_rest tlv_fits
  "\<lambda>d. for_each_tlv d f" "\<lambda>s. s" "\<lambda>t v r s. r (f t v s)" for f
  by unfold_locales (simp_all add: for_each_tlv.simps fun_eq_iff)

subsection \<open>Integers\<close>

lemma ucast_drop_bit: "ucast (drop_bit k v) = as_u8 (unat v div 2 ^ k)" for v :: u64
proof -
  have "ucast (drop_bit k v) = (word_of_nat (unat (drop_bit k v)) :: u8)" by simp
  also have "unat (drop_bit k v) = drop_bit k (unat v)"
    by (rule unat_drop_bit_eq)
  also have "drop_bit k (unat v) = unat v div 2 ^ k" by (rule drop_bit_eq_div)
  finally show ?thesis by (simp only: as_u8_def)
qed

lemma be_enc_nth: "i < k \<Longrightarrow> be_enc k n ! i = as_u8 (n div 256 ^ (k - 1 - i))"
proof (induction k arbitrary: n)
  case 0
  then show ?case by simp
next
  case (Suc k)
  show ?case
  proof (cases "i < k")
    case True
    have "n div 256 div 256 ^ (k - 1 - i) = n div (256 * 256 ^ (k - 1 - i))"
      by (simp only: div_mult2_eq)
    also have "(256::nat) * 256 ^ (k - 1 - i) = 256 ^ (k - i)"
      using True by (metis Suc_diff_Suc Suc_eq_plus1 diff_diff_left plus_1_eq_Suc power_Suc)
    finally show ?thesis using True Suc.IH [OF True, of "n div 256"] by (simp add: nth_append)
  next
    case False
    with Suc.prems have "i = k" by simp
    then show ?thesis by (simp add: nth_append)
  qed
qed

lemma to_be_bytes_eq: "to_be_bytes v = be_enc 8 (unat v)"
proof (rule nth_equalityI)
  fix i assume "i < length (to_be_bytes v)"
  then have i: "i < 8" by (simp add: to_be_bytes_def)
  have "(2::nat) ^ (8 * (7 - i)) = 256 ^ (7 - i)" by (simp add: power_mult)
  with i show "to_be_bytes v ! i = be_enc 8 (unat v) ! i"
    by (simp add: to_be_bytes_def be_enc_nth ucast_drop_bit)
qed (simp add: to_be_bytes_def)

lemma be_nat_to_be_bytes: "be_nat (to_be_bytes v) = unat v"
  using unsigned_less [of v, where 'a = nat] by (simp add: to_be_bytes_eq be_nat_be_enc)

lemma be_nat_strip_zeros: "be_nat (dropWhile (\<lambda>b. b = 0) bs) = be_nat bs"
  by (induction bs) auto

lemma be_nat_zeros: "dropWhile (\<lambda>b. b = 0) bs = [] \<Longrightarrow> set (drop n bs) \<subseteq> {0}"
  by (auto simp: dropWhile_eq_Nil_conv dest: in_set_dropD)

lemma significant_bytes_facts:
  "significant_bytes v \<noteq> []" "length (significant_bytes v) \<le> 8"
  "be_nat (significant_bytes v) = unat v"
  "hd (significant_bytes v) = 0 \<Longrightarrow> length (significant_bytes v) = 1"
proof -
  let ?w = "dropWhile (\<lambda>b. b = 0) (to_be_bytes v)"
  have l8: "length (to_be_bytes v) = 8" by (simp add: to_be_bytes_def)
  have d7: "length (drop 7 (to_be_bytes v)) = 1" by (simp add: l8)
  show "significant_bytes v \<noteq> []" using d7 by (auto simp: significant_bytes_def Let_def)
  show "length (significant_bytes v) \<le> 8"
    using length_dropWhile_le [of "\<lambda>b. b = 0" "to_be_bytes v"] l8
    by (simp add: significant_bytes_def Let_def)
  show "be_nat (significant_bytes v) = unat v"
  proof (cases "?w = []")
    case True
    then have "be_nat (to_be_bytes v) = 0"
      using be_nat_strip_zeros [of "to_be_bytes v"] by (metis be_nat.simps(1))
    moreover obtain b where b: "drop 7 (to_be_bytes v) = [b]"
      using d7 by (metis One_nat_def length_0_conv length_Suc_conv)
    then have "b = 0" using be_nat_zeros [OF True, of 7] by simp
    ultimately show ?thesis using True b by (simp add: significant_bytes_def be_nat_to_be_bytes)
  next
    case False
    then have "significant_bytes v = ?w" by (simp only: significant_bytes_def Let_def if_False)
    then show ?thesis by (simp only: be_nat_strip_zeros be_nat_to_be_bytes)
  qed
  show "hd (significant_bytes v) = 0 \<Longrightarrow> length (significant_bytes v) = 1"
    using hd_dropWhile [of "\<lambda>b. b = 0" "to_be_bytes v"] d7
    by (auto simp: significant_bytes_def Let_def split: if_splits)
qed

lemma be_nat_parse_integer_body: "be_nat (parse_integer_body bs) = be_nat bs"
  by (cases bs) (auto simp: parse_integer_body_def)

lemma decode_integer_u64_cases:
  "decode_integer_u64 bs =
     (if bs = [] then Inl EmptyInteger
      else if hd bs AND 0x80 \<noteq> 0 then Inl (NegativeInteger (hd bs))
      else if 8 < length (parse_integer_body bs)
        then Inl (IntegerTooLarge (length (parse_integer_body bs)))
      else Inr (be_loop 0 (parse_integer_body bs)))"
  by (simp add: decode_integer_u64_def parse_integer_body_def)

lemma be_loop_0_iff: "length bs \<le> 8 \<Longrightarrow> be_loop 0 bs = v \<longleftrightarrow> unat v = be_nat bs"
  using be_loop_0_unat by (metis unsigned_word_eqI)

lemma decode_integer_u64_eq:
  "decode_integer_u64 bs = Inr v \<longleftrightarrow>
    bs \<noteq> [] \<and> hd bs AND 0x80 = 0 \<and> length (parse_integer_body bs) \<le> 8 \<and> unat v = be_nat bs"
  by (simp add: decode_integer_u64_cases be_loop_0_iff be_nat_parse_integer_body not_less)

text \<open>The body \<open>encode_integer_u64\<close> writes.\<close>

definition integer_body :: "u64 \<Rightarrow> bytes" where
  "integer_body v =
     (if hd (significant_bytes v) AND 0x80 \<noteq> 0 then [0x00] else []) @ significant_bytes v"

lemma encode_integer_u64_eq: "encode_integer_u64 v = encode_tlv 0x02 (integer_body v)"
  by (simp add: encode_integer_u64_def integer_body_def Let_def significant_bytes_facts(1))

lemma decode_integer_body: "decode_integer_u64 (integer_body v) = Inr v"
proof (cases "hd (significant_bytes v) AND 0x80 = 0")
  case True
  then have "integer_body v = significant_bytes v" by (simp add: integer_body_def)
  with True significant_bytes_facts [of v] show ?thesis
    by (simp add: decode_integer_u64_eq parse_integer_body_def)
next
  case False
  with significant_bytes_facts [of v] show ?thesis
    by (simp add: decode_integer_u64_eq integer_body_def parse_integer_body_def)
qed

lemma length_integer_body: "length (integer_body v) \<le> 9"
  using significant_bytes_facts(2) [of v] by (simp add: integer_body_def)

lemma parse_tlv_encode: "tlv_fits t v \<Longrightarrow> parse_tlv (encode_tlv t v) = Inr (t, v)"
  using der.dec_enc [of t v "[]"] by (simp add: parse_tlv_def)

subsection \<open>\<open>BasicConstraints\<close>\<close>

lemma parse_tlv_Inr_iff:
  "parse_tlv d = Inr (t, v) \<longleftrightarrow> tlv_fits t v \<and> (\<exists>rest. d = encode_tlv t v @ rest)"
  using der.dec_enc der.dec_canonical by (fastforce simp: parse_tlv_def result_simps)

lemma tlv_Inr_iff:
  "parse_tlv_with_rest d = Inr (t, v, rest) \<longleftrightarrow> tlv_fits t v \<and> d = encode_tlv t v @ rest"
  using der.dec_enc der.dec_canonical by metis

text \<open>The two fields, as the grammar has them.\<close>

definition ca_field :: "bool \<Rightarrow> bytes \<Rightarrow> bool" where
  "ca_field ca part \<longleftrightarrow> part = [] \<and> \<not> ca \<or> (\<exists>b. part = encode_tlv 0x01 [b] \<and> ca = (b \<noteq> 0))"

definition path_len_field :: "bool \<Rightarrow> u64 option \<Rightarrow> bytes \<Rightarrow> bool" where
  "path_len_field ca pl part \<longleftrightarrow>
     part = [] \<and> pl = None
     \<or> ca \<and> (\<exists>val p. part = encode_tlv 0x02 val \<and> decode_integer_u64 val = Inr p \<and> pl = Some p
           \<and> length val < 2 ^ 32)"

lemma encode_tlv_neq_Nil [simp]: "encode_tlv t v \<noteq> []" "[] \<noteq> encode_tlv t v"
  by (simp_all add: encode_tlv_def)

lemma parse_encode_tlv_exact: "tlv_fits t v \<Longrightarrow> parse_tlv_with_rest (encode_tlv t v) = Inr (t, v, [])"
  using parse_encode_tlv [of t v "[]"] by simp

lemma encode_tlv_same: "encode_tlv t v @ r = encode_tlv t' v' @ r' \<Longrightarrow> t = t'"
  by (simp add: encode_tlv_def)

lemma bc_read_ca_field:
  assumes "bc_read_ca pos = Inr (ca, rest)"
  shows "\<exists>part. pos = part @ rest \<and> ca_field ca part"
proof (cases "pos = []")
  case True
  with assms show ?thesis by (auto simp: bc_read_ca_def ca_field_def)
next
  case False
  with assms obtain t v r where p: "parse_tlv_with_rest pos = Inr (t, v, r)"
    and body: "(if t = 0x01 then if length v \<noteq> 1 then Inl (BcBooleanLength (length v))
       else Inr (hd v \<noteq> 0x00, r) else Inr (False, pos)) = Inr (ca, rest)"
    by (auto simp: bc_read_ca_def result_simps)
  show ?thesis
  proof (cases "t = 0x01")
    case True
    with body have r: "length v = 1" "ca = (hd v \<noteq> 0)" "rest = r" by (auto split: if_splits)
    then obtain b where "v = [b]" by (cases v) auto
    with p True r show ?thesis by (auto simp: tlv_Inr_iff ca_field_def)
  next
    case False
    with body show ?thesis by (auto simp: ca_field_def)
  qed
qed

lemma bc_read_path_len_field:
  "bc_read_path_len ca pos = Inr pl \<longleftrightarrow> path_len_field ca pl pos"
proof
  assume "bc_read_path_len ca pos = Inr pl"
  then show "path_len_field ca pl pos"
    by (auto simp: bc_read_path_len_def path_len_field_def result_simps tlv_Inr_iff tlv_fits_def
        split: if_splits)
next
  have two: "length val < 2 ^ 32 \<Longrightarrow> tlv_fits 0x02 val" for val by (simp add: tlv_fits_def)
  assume "path_len_field ca pl pos"
  then show "bc_read_path_len ca pos = Inr pl"
    by (auto simp: bc_read_path_len_def path_len_field_def parse_encode_tlv_exact [OF two])
qed

lemma bc_read_ca_path_len:
  assumes "ca_field ca part" "path_len_field ca pl rest"
  shows "bc_read_ca (part @ rest) = Inr (ca, rest)"
proof -
  have one: "tlv_fits 0x01 [b]" for b by (simp add: tlv_fits_def)
  from assms(1) consider "part = []" "\<not> ca" | b where "part = encode_tlv 0x01 [b]" "ca = (b \<noteq> 0)"
    unfolding ca_field_def by blast
  then show ?thesis
  proof cases
    case 1
    then have "rest = []" using assms(2) by (simp add: path_len_field_def)
    with 1 show ?thesis by (simp add: bc_read_ca_def)
  next
    case 2
    then show ?thesis by (simp add: bc_read_ca_def der.dec_enc [OF one])
  qed
qed

subsection \<open>Rendering times\<close>

definition ascii :: "string \<Rightarrow> bytes" where
  "ascii s = map of_char s"

definition render2 :: "nat \<Rightarrow> bytes" where
  "render2 n = [0x30 + as_u8 (n div 10), 0x30 + as_u8 (n mod 10)]"

definition render4 :: "nat \<Rightarrow> bytes" where
  "render4 n = render2 (n div 100) @ render2 (n mod 100)"

definition render_fields :: "nat \<Rightarrow> nat \<Rightarrow> nat \<Rightarrow> nat \<Rightarrow> nat \<Rightarrow> bytes" where
  "render_fields mo d h mi s = render2 mo @ render2 d @ render2 h @ render2 mi @ render2 s"

lemma digit_byte:
  assumes "n < 10"
  shows "uint (0x30 + as_u8 n :: u8) = 48 + int n" "is_digit (0x30 + as_u8 n)"
    "0x30 + as_u8 n < 0x80" "0x30 + as_u8 n \<noteq> 0x2B" "0x30 + as_u8 n \<noteq> 0x2D"
    "0x30 + as_u8 n \<noteq> 0x2E" "0x30 + as_u8 n \<noteq> 0x5A"
proof -
  have "n \<in> {0, 1, 2, 3, 4, 5, 6, 7, 8, 9}" using assms by auto
  then show "uint (0x30 + as_u8 n :: u8) = 48 + int n" "is_digit (0x30 + as_u8 n)"
    "0x30 + as_u8 n < 0x80" "0x30 + as_u8 n \<noteq> 0x2B" "0x30 + as_u8 n \<noteq> 0x2D"
    "0x30 + as_u8 n \<noteq> 0x2E" "0x30 + as_u8 n \<noteq> 0x5A"
    by (auto simp: as_u8_def is_digit_def)
qed

lemma digit_val_byte: "n < 10 \<Longrightarrow> digit_val (0x30 + as_u8 n) = int n"
  by (simp add: digit_val_def digit_byte)

lemma render2_parts:
  assumes "n < 100"
  obtains a b where "a < 10" "b < 10" "n = 10 * a + b" "render2 n = [0x30 + as_u8 a, 0x30 + as_u8 b]"
proof
  show "n div 10 < 10" "n mod 10 < 10" "n = 10 * (n div 10) + n mod 10" using assms by auto
qed (simp add: render2_def)

lemma parse_render2:
  assumes "n < 100"
  shows "parse_u32 (render2 n) = Inr (int n)" "parse_i32 (render2 n) = Inr (int n)"
proof -
  obtain a b where ab: "a < 10" "b < 10" "n = 10 * a + b"
    "render2 n = [0x30 + as_u8 a, 0x30 + as_u8 b]"
    using assms by (rule render2_parts)
  then show "parse_u32 (render2 n) = Inr (int n)" "parse_i32 (render2 n) = Inr (int n)"
    by (simp_all add: parse_u32_def parse_unsigned_def parse_i32_def parse_signed_def
        digit_byte digit_val_byte)
qed

lemma parse_render4:
  assumes "n < 10000"
  shows "parse_i32 (render4 n) = Inr (int n)"
proof -
  have "n div 100 < 100" "n mod 100 < 100" using assms by auto
  then obtain a b c d where "a < 10" "b < 10" "n div 100 = 10 * a + b"
      "render2 (n div 100) = [0x30 + as_u8 a, 0x30 + as_u8 b]"
      "c < 10" "d < 10" "n mod 100 = 10 * c + d"
      "render2 (n mod 100) = [0x30 + as_u8 c, 0x30 + as_u8 d]"
    by (metis render2_parts)
  moreover have "int n = 100 * int (n div 100) + int (n mod 100)"
    by (metis mult_div_mod_eq of_nat_add of_nat_mult of_nat_numeral)
  ultimately show ?thesis
    by (simp add: render4_def parse_i32_def parse_signed_def digit_byte digit_val_byte)
qed

lemma length_render [simp]: "length (render2 n) = 2" "length (render4 n) = 4"
  "length (render_fields mo d h mi s) = 10"
  by (simp_all add: render2_def render4_def render_fields_def)

text \<open>What the calendar decides of the six fields.\<close>

definition calendar :: "chrono \<Rightarrow> int \<Rightarrow> int \<Rightarrow> int \<Rightarrow> int \<Rightarrow> int \<Rightarrow> int \<Rightarrow> (time_error, datetime) result" where
  "calendar ch y mo d h mi s =
     (case from_ymd_opt ch y mo d of
        None \<Rightarrow> Inl (InvalidDate y mo d)
      | Some date \<Rightarrow>
          (case from_hms_opt ch h mi s of
             None \<Rightarrow> Inl (InvalidTime h mi s)
           | Some time \<Rightarrow> Inr (date * 86400 + time)))"

lemma str_slice_append_shift: "length xs \<le> i \<Longrightarrow> str_slice i j (xs @ ys) = str_slice (i - length xs) (j - length xs) ys"
  by (simp add: str_slice_def)

lemma str_slice_append_prefix: "str_slice 0 (length xs) (xs @ ys) = xs"
  by (simp add: str_slice_def)

lemma time_fields_render:
  assumes "mo < 100" "d < 100" "h < 100" "mi < 100" "s < 100"
  shows "time_fields ch y (length pre) (pre @ render_fields mo d h mi s @ post)
    = calendar ch y (int mo) (int d) (int h) (int mi) (int s)"
proof -
  have "str_slice 0 2 (render2 n @ xs) = render2 n" for n xs
    using str_slice_append_prefix [of "render2 n" xs] by simp
  then show ?thesis using assms
    by (simp add: time_fields_def render_fields_def str_slice_append_shift parse_render2 calendar_def
        split: option.splits)
qed

lemma render_ascii:
  "n < 100 \<Longrightarrow> is_ascii (render2 n) \<and> 0x2E \<notin> set (render2 n) \<and> 0x5A \<notin> set (render2 n)"
  using digit_byte by (elim render2_parts) (auto simp: is_ascii_def)

subsection \<open>Properties\<close>

text \<open>C13: The TLV reader accepts exactly the canonical DER encodings: it returns tag, value and
  rest if and only if the tag is in low-tag-number form, the value is shorter than \<open>2 ^ 32\<close>
  bytes and the input is the encoder's output for them followed by the rest. So no value has two
  accepted encodings, and no accepted input is read in two ways.\<close>

theorem parse_tlv_with_rest_iff:
  "parse_tlv_with_rest data = Inr (t, v, rest) \<longleftrightarrow>
     t AND 0x1f \<noteq> 0x1f \<and> length v < 2 ^ 32 \<and> data = encode_tlv t v @ rest"
  using der.dec_enc [of t v rest] der.dec_canonical [of data t v rest]
  by (auto simp: tlv_fits_def)

text \<open>Length octets: below \<open>2 ^ 32\<close> the parser reads back every encoded length and
  consumes exactly its octets, and every length it accepts is the encoder's (minimal) form.\<close>

theorem parse_der_length_iff:
  assumes "len < 2 ^ 32"
  shows "parse_der_length data = Inr (len, n) \<longleftrightarrow>
    n = length (encode_der_length len) \<and> take n data = encode_der_length len"
proof
  assume "parse_der_length data = Inr (len, n)"
  then show "n = length (encode_der_length len) \<and> take n data = encode_der_length len"
    using parse_der_length_canonical by fastforce
next
  assume h: "n = length (encode_der_length len) \<and> take n data = encode_der_length len"
  then have "data = encode_der_length len @ drop n data" by (metis append_take_drop_id)
  then show "parse_der_length data = Inr (len, n)"
    using h parse_encode_der_length [OF assms, of "drop n data"] by simp
qed

theorem parse_der_length_iff_witness:
  "(parse_der_length [0x82, 0x01, 0x00, 0x05] = Inr (256, 3)) = True"
  using parse_der_length_iff [of 256 "[0x82, 0x01, 0x00, 0x05]" 3]
  by (simp add: encode_der_length_def as_u8_def drop_bit_eq_div)

text \<open>The child sequence of a constructed value is uniquely determined by its bytes, and
  searching it for a tag finds the first child with that tag (\<open>None\<close> when there is none).\<close>

theorem find_tagged_value_first:
  assumes "list_all (\<lambda>(t, v). t AND 0x1f \<noteq> 0x1f \<and> length v < 2 ^ 32) cs"
  shows "find_tagged_value (concat (map (\<lambda>(t, v). encode_tlv t v) cs)) tag = map_of cs tag"
proof -
  have "list_all (\<lambda>(t, v). tlv_fits t v) cs" using assms by (simp add: tlv_fits_def)
  then have "find_tagged_value (der.enc_all cs) tag
      = foldr (\<lambda>(t, v) r. if t = tag then Some v else r) cs None"
    by (rule find_loop.loop_enc_all)
  also have "\<dots> = map_of cs tag" by (induction cs) auto
  finally show ?thesis by (simp add: der.enc_all_def)
qed

theorem find_tagged_value_first_witness:
  "find_tagged_value
     (concat (map (\<lambda>(t, v). encode_tlv t v) [(0x02, [5]), (0x04, [6, 7]), (0x02, [8])])) 0x04
   = Some [6, 7]"
  by (subst find_tagged_value_first) simp_all

text \<open>\<open>for_each_tlv\<close> calls the closure once per child, in order.\<close>

theorem for_each_tlv_fold:
  assumes "list_all (\<lambda>(t, v). t AND 0x1f \<noteq> 0x1f \<and> length v < 2 ^ 32) cs"
  shows "for_each_tlv (concat (map (\<lambda>(t, v). encode_tlv t v) cs)) f s
    = fold (\<lambda>(t, v). f t v) cs s"
proof -
  have "list_all (\<lambda>(t, v). tlv_fits t v) cs" using assms by (simp add: tlv_fits_def)
  then have "for_each_tlv (der.enc_all cs) f = foldr (\<lambda>(t, v) r s. r (f t v s)) cs (\<lambda>s. s)"
    by (rule each_loop.loop_enc_all)
  moreover have "foldr (\<lambda>(t, v) r s. r (f t v s)) cs (\<lambda>s. s) s = fold (\<lambda>(t, v). f t v) cs s" for s
    by (induction cs arbitrary: s) auto
  ultimately show ?thesis by (simp add: der.enc_all_def)
qed

theorem for_each_tlv_fold_witness:
  "for_each_tlv (concat (map (\<lambda>(t, v). encode_tlv t v) [(0x02, [5]), (0x04, [6])]))
     (\<lambda>t v s. s @ [t]) [] = [0x02, 0x04]"
  by (subst for_each_tlv_fold) simp_all

text \<open>INTEGER round trip: what \<open>encode_integer_u64\<close> writes is an INTEGER whose body
  decodes to the same 64-bit value.\<close>

theorem encode_decode_integer_u64:
  "\<exists>body. parse_tlv (encode_integer_u64 v) = Inr (0x02, body) \<and> decode_integer_u64 body = Inr v"
proof -
  have "length (integer_body v) < 2 ^ 32" by (rule le_less_trans [OF length_integer_body]) simp
  then have "parse_tlv (encode_integer_u64 v) = Inr (0x02, integer_body v)"
    by (simp add: encode_integer_u64_eq parse_tlv_encode tlv_fits_def)
  with decode_integer_body show ?thesis by blast
qed

text \<open>The INTEGER decoder returns \<open>v\<close> exactly when the body is non-empty, has the sign bit
  clear, has at most eight bytes after one padding zero is dropped, and has the big-endian value
  \<open>v\<close>: it never truncates or misreads a negative number.\<close>

theorem decode_integer_u64_iff:
  "decode_integer_u64 bs = Inr v \<longleftrightarrow>
    bs \<noteq> [] \<and> hd bs AND 0x80 = 0 \<and> length (parse_integer_body bs) \<le> 8 \<and> unat v = be_nat bs"
  by (rule decode_integer_u64_eq)

text \<open>\<open>parse_basic_constraints\<close> accepts exactly a SEQUENCE holding an optional one-byte
  BOOLEAN and, only after a true one, an optional non-negative INTEGER of at most 64 bits, and
  returns those two fields. Every other content (a truncated child, a wrong tag, a path length
  without \<open>cA\<close>, trailing children) is an error.\<close>

theorem parse_basic_constraints_iff:
  "parse_basic_constraints ext = Inr (ca, pl) \<longleftrightarrow>
     (\<exists>ca_part pl_part rest.
        ext = encode_tlv 0x30 (ca_part @ pl_part) @ rest \<and> length (ca_part @ pl_part) < 2 ^ 32
        \<and> ca_field ca ca_part \<and> path_len_field ca pl pl_part)"
proof
  assume "parse_basic_constraints ext = Inr (ca, pl)"
  then obtain body pos where "parse_tlv ext = Inr (0x30, body)" "bc_read_ca body = Inr (ca, pos)"
    "path_len_field ca pl pos"
    by (auto simp: parse_basic_constraints_def result_simps bc_read_path_len_field)
  then show "\<exists>ca_part pl_part rest.
        ext = encode_tlv 0x30 (ca_part @ pl_part) @ rest \<and> length (ca_part @ pl_part) < 2 ^ 32
        \<and> ca_field ca ca_part \<and> path_len_field ca pl pl_part"
    using bc_read_ca_field by (fastforce simp: parse_tlv_Inr_iff tlv_fits_def)
next
  assume "\<exists>ca_part pl_part rest.
        ext = encode_tlv 0x30 (ca_part @ pl_part) @ rest \<and> length (ca_part @ pl_part) < 2 ^ 32
        \<and> ca_field ca ca_part \<and> path_len_field ca pl pl_part"
  then obtain ca_part pl_part where "parse_tlv ext = Inr (0x30, ca_part @ pl_part)"
    and f: "ca_field ca ca_part" "path_len_field ca pl pl_part"
    by (auto simp: parse_tlv_Inr_iff tlv_fits_def)
  with bc_read_ca_path_len [OF f] show "parse_basic_constraints ext = Inr (ca, pl)"
    by (simp add: parse_basic_constraints_def result_simps bc_read_path_len_field)
qed

text \<open>GeneralizedTime \<open>YYYYMMDDHHMMSS[.frac]Z\<close>: on a decimal rendering of the fields the
  parser returns the calendar's instant for exactly these fields (fractional seconds dropped),
  and the calendar's rejection otherwise.\<close>

theorem parse_generalized_time_render:
  assumes "y < 10000" "mo < 100" "d < 100" "h < 100" "mi < 100" "s < 100"
    and "is_ascii frac" "frac = [] \<or> hd frac = 0x2E"
  shows "parse_generalized_time ch (render4 y @ render_fields mo d h mi s @ frac @ [0x5A])
    = calendar ch (int y) (int mo) (int d) (int h) (int mi) (int s)"
proof -
  let ?f = "render4 y @ render_fields mo d h mi s"
  have "y div 100 < 100" "y mod 100 < 100" using assms(1) by auto
  then have f: "is_ascii ?f \<and> 0x2E \<notin> set ?f"
    using assms(2-6) render_ascii by (simp add: render4_def render_fields_def is_ascii_def)
  have a: "is_ascii (?f @ frac @ [0x5A])" using f assms(7) by (simp add: is_ascii_def)
  have z: "strip_z (?f @ frac @ [0x5A]) = ?f @ frac"
    by (simp add: strip_z_def strip_suffix_char_def butlast_append)
  have "takeWhile (\<lambda>c. c \<noteq> 0x2E) (?f @ frac) = ?f @ takeWhile (\<lambda>c. c \<noteq> 0x2E) frac"
    using f by (intro takeWhile_append2) auto
  also have "takeWhile (\<lambda>c. c \<noteq> 0x2E) frac = []" using assms(8) by (cases frac) auto
  finally have w: "takeWhile (\<lambda>c. c \<noteq> 0x2E) (?f @ frac) = ?f" by simp
  have "str_slice 0 4 ?f = render4 y"
    using str_slice_append_prefix [of "render4 y" "render_fields mo d h mi s"] by simp
  then show ?thesis
    using a z w assms(1) time_fields_render [OF assms(2-6), of ch "int y" "render4 y" "[]"]
    by (simp add: parse_generalized_time_def ascii_from_utf8_ok parse_render4)
qed

text \<open>A fixed calendar for the witnesses: one day, and times of day below 24:60:60.\<close>

definition toy_chrono :: chrono where
  "toy_chrono = \<lparr>from_ymd_opt = (\<lambda>y m d. if y = 2026 \<and> m = 3 \<and> d = 3 then Some 20515 else None),
     from_hms_opt = (\<lambda>h m s. if h < 24 \<and> m < 60 \<and> s < 60 then Some (h * 3600 + m * 60 + s) else None)\<rparr>"

theorem parse_generalized_time_render_witness:
  "parse_generalized_time toy_chrono
     (render4 2026 @ render_fields 3 3 12 0 0 @ [0x2E, 0x35] @ [0x5A]) = Inr (20515 * 86400 + 43200)"
  by (subst parse_generalized_time_render)
    (simp_all add: is_ascii_def calendar_def toy_chrono_def)

text \<open>UTCTime \<open>YYMMDDHHMMSSZ\<close>: two-digit years below 50 are 20xx, the others 19xx (RFC 5280
  section 4.1.2.5.1), the other fields as rendered.\<close>

theorem parse_utc_time_render:
  assumes "yy < 100" "mo < 100" "d < 100" "h < 100" "mi < 100" "s < 100"
  shows "parse_utc_time ch (render2 yy @ render_fields mo d h mi s @ [0x5A])
    = calendar ch (if yy < 50 then 2000 + int yy else 1900 + int yy)
        (int mo) (int d) (int h) (int mi) (int s)"
proof -
  let ?f = "render2 yy @ render_fields mo d h mi s"
  have a: "is_ascii (?f @ [0x5A])"
    using assms render_ascii by (simp add: render_fields_def is_ascii_def)
  have z: "strip_z (?f @ [0x5A]) = ?f"
    by (simp add: strip_z_def strip_suffix_char_def butlast_append)
  have y: "str_slice 0 2 ?f = render2 yy"
    using str_slice_append_prefix [of "render2 yy" "render_fields mo d h mi s"] by simp
  define year where "year = (if (50::int) \<le> int yy then 1900 + int yy else 2000 + int yy)"
  have "parse_utc_time ch (?f @ [0x5A]) = time_fields ch year 2 ?f"
    using a z y assms(1) by (simp add: parse_utc_time_def ascii_from_utf8_ok parse_render2 year_def)
  moreover have "time_fields ch year 2 ?f = calendar ch year (int mo) (int d) (int h) (int mi) (int s)"
    using time_fields_render [OF assms(2-6), of ch year "render2 yy" "[]"] by simp
  ultimately show ?thesis by (simp add: year_def)
qed

theorem parse_utc_time_render_witness:
  "parse_utc_time toy_chrono (render2 26 @ render_fields 3 3 23 59 59 @ [0x5A])
    = Inr (20515 * 86400 + 86399)"
  by (subst parse_utc_time_render) (simp_all add: calendar_def toy_chrono_def)

lemmas time_eval = ascii_def parse_utc_time_def parse_generalized_time_def strip_z_def
  strip_suffix_char_def str_slice_def is_ascii_def ascii_from_utf8_ok parse_i32_def parse_u32_def
  parse_signed_def parse_unsigned_def is_digit_def digit_val_def time_fields_def

text \<open>The time parsers are laxer than the formats their comments name: the sign accepted by
  \<open>str::parse\<close> makes the UTCTime year \<open>-5\<close> read as 1995, a month \<open>+3\<close> read as 3, and a zone
  offset after the seconds is ignored, so \<open>+0100\<close> reads as \<open>Z\<close>.\<close>

theorem time_parsers_accept_signs:
  "parse_utc_time ch (ascii ''-50303120000Z'') = parse_utc_time ch (ascii ''950303120000Z'')
   \<and> parse_generalized_time ch (ascii ''2026+303120000Z'')
      = parse_generalized_time ch (ascii ''20260303120000Z'')
   \<and> parse_generalized_time ch (ascii ''20260303120000+0100'')
      = parse_generalized_time ch (ascii ''20260303120000Z'')"
  by (simp add: time_eval)

end
