(* ===== verification/X509_Cert.thy ===== *)
theory X509_Cert
  imports Der_Utils
begin

section \<open>Certificates and the third-party operations on them\<close>

text \<open>
  The fields of \<open>x509_cert::Certificate\<close>, \<open>spki::AlgorithmIdentifier\<close> and \<open>der::Any\<close> that the
  program reads, and the record \<open>lib\<close> of the third-party functions it calls on them (the
  \<open>der\<close>, \<open>const-oid\<close>, \<open>chrono\<close> crates and the Unicode lower-case table). The definitions of the
  model take a \<open>lib\<close> as argument; what a theorem relies on of it is a hypothesis of the theorem.
\<close>

datatype any = Any (any_tag: u8) (any_body: bytes)

record algorithm_identifier =
  alg_oid :: oid
  alg_parameters :: "any option"

record attribute =
  attr_oid :: oid
  attr_value :: any

type_synonym rdn_value = "attribute list"
type_synonym name = "rdn_value list"

record extension =
  extn_id :: oid
  critical :: bool
  extn_value :: bytes

record public_key_info =
  spki_algorithm :: algorithm_identifier
  subject_public_key :: bytes

record certificate =
  serial_number :: bytes
  tbs_signature :: algorithm_identifier
  issuer :: name
  not_before :: datetime
  not_after :: datetime
  subject :: name
  subject_public_key_info :: public_key_info
  extensions :: "extension list option"
  signature_algorithm :: algorithm_identifier
  signature :: bytes

record lib =
  name_to_der :: "name \<Rightarrow> bytes option"
  cert_to_der :: "certificate \<Rightarrow> bytes option"
  cert_from_der :: "bytes \<Rightarrow> certificate option"
  tbs_to_der :: "certificate \<Rightarrow> bytes option"
  spki_to_der :: "public_key_info \<Rightarrow> bytes option"
  oid_from_bytes :: "bytes \<Rightarrow> oid option"
  bit_string_from_der :: "bytes \<Rightarrow> (nat \<times> bytes) option"
  any_as_ia5 :: "any \<Rightarrow> rstr option"
  to_lowercase :: "char32 \<Rightarrow> char32 list"
  algid_from_der :: "bytes \<Rightarrow> algorithm_identifier option"
  extensions_from_der :: "bytes \<Rightarrow> extension list option"

text \<open>\<open>bit_string_from_der\<close> is \<open>der::asn1::BitStringRef::from_der\<close>: the unused-bit count and the
  content octets.\<close>

text \<open>\<open>extensions.iter().find(|e| e.extn_id == oid)\<close> on an optional extension list.\<close>

definition find_ext :: "certificate \<Rightarrow> oid \<Rightarrow> extension option" where
  "find_ext cert oid =
     (case extensions cert of
        None \<Rightarrow> None
      | Some exts \<Rightarrow> find (\<lambda>e. extn_id e = oid) exts)"

lemma find_ext_Some_D:
  "find_ext cert oid = Some e \<Longrightarrow> \<exists>exts. extensions cert = Some exts \<and> e \<in> set exts \<and> extn_id e = oid"
  by (auto simp: find_ext_def find_Some_iff split: option.splits)

lemma find_ext_None_iff:
  "find_ext cert oid = None \<longleftrightarrow>
    (\<forall>exts. extensions cert = Some exts \<longrightarrow> (\<forall>e\<in>set exts. extn_id e \<noteq> oid))"
  by (auto simp: find_ext_def find_None_iff split: option.splits)

subsection \<open>A concrete library and certificates for the witnesses\<close>

text \<open>An instance of \<open>lib\<close> on which the hypotheses of the theorems can be evaluated: ASCII
  lower-casing, arcs as single bytes, names and certificates encoded by their contents.\<close>

definition toy_lib :: lib where
  "toy_lib = \<lparr>name_to_der = (\<lambda>n. Some (0x30 # 0 # concat (map (concat \<circ> map (any_body \<circ> attr_value)) n))),
     cert_to_der = (\<lambda>c. Some (serial_number c)), cert_from_der = (\<lambda>_. None),
     tbs_to_der = (\<lambda>c. Some (serial_number c)),
     spki_to_der = (\<lambda>k. Some (subject_public_key k)),
     oid_from_bytes = (\<lambda>b. Some (map unat b)),
     bit_string_from_der = (\<lambda>b. if 3 < length b then Some (unat (b ! 2), drop 3 b) else None),
     any_as_ia5 = (\<lambda>a. Some (any_body a)),
     to_lowercase = (\<lambda>c. [if 65 \<le> c \<and> c \<le> 90 then c + 32 else c]),
     algid_from_der = (\<lambda>b. Some \<lparr>alg_oid = [1, 3, 101, 112], alg_parameters = None\<rparr>),
     extensions_from_der = (\<lambda>b. None)\<rparr>"

lemmas tlv_eval = parse_tlv_def parse_tlv_with_rest_def parse_der_length_def

text \<open>A certificate with given subject, issuer and extensions.\<close>

definition toy_cert :: "name \<Rightarrow> name \<Rightarrow> bytes \<Rightarrow> extension list option \<Rightarrow> certificate" where
  "toy_cert subj iss serial exts =
     \<lparr>serial_number = serial, tbs_signature = \<lparr>alg_oid = [], alg_parameters = None\<rparr>,
     issuer = iss, not_before = 0, not_after = 100, subject = subj,
     subject_public_key_info =
       \<lparr>spki_algorithm = \<lparr>alg_oid = [], alg_parameters = None\<rparr>, subject_public_key = [7]\<rparr>,
     extensions = exts,
     signature_algorithm = \<lparr>alg_oid = [], alg_parameters = None\<rparr>, signature = []\<rparr>"

lemma toy_cert_simps [simp]:
  "serial_number (toy_cert s i n e) = n" "issuer (toy_cert s i n e) = i"
  "subject (toy_cert s i n e) = s" "extensions (toy_cert s i n e) = e"
  "not_before (toy_cert s i n e) = 0" "not_after (toy_cert s i n e) = 100"
  "signature_algorithm (toy_cert s i n e) = \<lparr>alg_oid = [], alg_parameters = None\<rparr>"
  "tbs_signature (toy_cert s i n e) = \<lparr>alg_oid = [], alg_parameters = None\<rparr>"
  "signature (toy_cert s i n e) = []"
  "subject_public_key_info (toy_cert s i n e) =
    \<lparr>spki_algorithm = \<lparr>alg_oid = [], alg_parameters = None\<rparr>, subject_public_key = [7]\<rparr>"
  by (simp_all add: toy_cert_def)

end
