(* ===== verification/Name_Constraints.thy ===== *)
theory Name_Constraints
  imports X509_Cert "HOL-Library.Multiset"
begin

section \<open>Name constraints (\<open>src/src/ltv/name_constraints.rs\<close>)\<close>

text \<open>
  The \<open>NameConstraints\<close> state accumulated from issuing CAs, the parser of its extension, the
  collection of the names a certificate asserts, and the four matchers. Error messages are the
  constructors of \<open>nc_msg\<close>.
\<close>

definition NAME_CONSTRAINTS_OID :: oid where "NAME_CONSTRAINTS_OID = [2, 5, 29, 30]"
definition SAN_OID :: oid where "SAN_OID = [2, 5, 29, 17]"
definition EMAIL_ADDRESS_OID :: oid where "EMAIL_ADDRESS_OID = [1, 2, 840, 113549, 1, 9, 1]"

definition GN_RFC822 :: u8 where "GN_RFC822 = 0x81"
definition GN_DNS :: u8 where "GN_DNS = 0x82"
definition GN_DIRECTORY :: u8 where "GN_DIRECTORY = 0xA4"
definition GN_IP :: u8 where "GN_IP = 0x87"

datatype general_name_base =
    BDns rstr
  | BRfc822 rstr
  | BIp bytes bytes
  | BDirectory bytes

datatype asserted_name =
    ADns rstr
  | ARfc822 rstr
  | AIp bytes
  | ADirectory bytes

datatype nc_msg =
    NcOuter der_error
  | NcExpectedSequence u8
  | NcSubtrees der_error
  | NcUnexpectedMember u8
  | NcExcluded asserted_name
  | NcOutsidePermitted string asserted_name
  | NcGeneralSubtree der_error
  | NcExpectedSubtree u8
  | NcBaseName der_error
  | NcMinMax der_error
  | NcMinimumNotZero
  | NcMaximumPresent
  | NcUnexpectedField u8
  | NcDirectoryName der_error
  | NcBaseInnerTag u8
  | NcIpConstraintLength nat
  | NcUnsupportedType u8
  | NcSubjectDer
  | NcSubjectEmail
  | NcEmptyEmail
  | NcSan der_error
  | NcSanTag u8
  | NcSanEntry der_error
  | NcSanIpLength nat
  | NcIa5NonAscii
  | NcRdn der_error
  | NcRdnTag u8
  | NcAtv der_error
  | NcAtvTag u8
  | NcAttrType der_error
  | NcAttrTypeTag u8
  | NcAttrValue der_error
  | NcAtvTrailing
  | NcMalformedString u8
  | NcInnerName der_error
  | NcInnerTag u8
  | NcNameTag u8

datatype name_constraint_error = Violation nc_msg | Unsupported nc_msg | NcParse nc_msg

record name_constraint_state =
  permitted :: "general_name_base list list"
  excluded :: "general_name_base list"

definition nc_default :: name_constraint_state where
  "nc_default = \<lparr>permitted = [], excluded = []\<rparr>"

subsection \<open>Parsing the extension\<close>

definition ia5_string :: "bytes \<Rightarrow> (name_constraint_error, rstr) result" where
  "ia5_string body = (if is_ascii body then Inr body else Inl (NcParse NcIa5NonAscii))"

definition decode_base_general_name ::
  "u8 \<Rightarrow> bytes \<Rightarrow> (name_constraint_error, general_name_base) result" where
  "decode_base_general_name tag body =
     (if tag = GN_DNS then
        and_then (ia5_string body) (\<lambda>s. Inr (BDns (to_ascii_lowercase s)))
      else if tag = GN_RFC822 then
        and_then (ia5_string body) (\<lambda>s. Inr (BRfc822 (to_ascii_lowercase s)))
      else if tag = GN_DIRECTORY then
        and_then (map_err (\<lambda>e. NcParse (NcDirectoryName e)) (parse_tlv body)) (\<lambda>(inner_tag, _).
          if inner_tag \<noteq> 0x30 then Inl (NcParse (NcBaseInnerTag inner_tag))
          else Inr (BDirectory body))
      else if tag = GN_IP then
        (if length body = 8 then Inr (BIp (take 4 body) (drop 4 body))
         else if length body = 32 then Inr (BIp (take 16 body) (drop 16 body))
         else Inl (NcParse (NcIpConstraintLength (length body))))
      else Inl (Unsupported (NcUnsupportedType tag)))"

function validate_subtree_min_max :: "bytes \<Rightarrow> (name_constraint_error, unit) result" where
  "validate_subtree_min_max rest =
     (if rest = [] then Inr ()
      else (case parse_tlv_with_rest rest of
              Inl e \<Rightarrow> Inl (NcParse (NcMinMax e))
            | Inr (tag, body, next) \<Rightarrow>
                if tag = 0x80 then
                  (if length body \<noteq> 1 \<or> hd body \<noteq> 0 then Inl (Violation NcMinimumNotZero)
                   else validate_subtree_min_max next)
                else if tag = 0x81 then Inl (Violation NcMaximumPresent)
                else Inl (NcParse (NcUnexpectedField tag))))"
  by pat_completeness auto
termination
  by (relation "measure length") (auto dest: parse_tlv_with_rest_shorter)

function parse_general_subtrees ::
  "bytes \<Rightarrow> general_name_base list \<Rightarrow> (name_constraint_error, general_name_base list) result" where
  "parse_general_subtrees pos out =
     (if pos = [] then Inr out
      else (case parse_tlv_with_rest pos of
              Inl e \<Rightarrow> Inl (NcParse (NcGeneralSubtree e))
            | Inr (t, st_body, rest) \<Rightarrow>
                if t \<noteq> 0x30 then Inl (NcParse (NcExpectedSubtree t))
                else (case parse_tlv_with_rest st_body of
                        Inl e \<Rightarrow> Inl (NcParse (NcBaseName e))
                      | Inr (gn_tag, gn_body, gn_rest) \<Rightarrow>
                          (case validate_subtree_min_max gn_rest of
                             Inl e \<Rightarrow> Inl e
                           | Inr _ \<Rightarrow>
                               (case decode_base_general_name gn_tag gn_body of
                                  Inl e \<Rightarrow> Inl e
                                | Inr b \<Rightarrow> parse_general_subtrees rest (out @ [b]))))))"
  by pat_completeness auto
termination
  by (relation "measure (\<lambda>(pos, _). length pos)") (auto dest: parse_tlv_with_rest_shorter)

text \<open>The state is updated in place: what was pushed before an error stays.\<close>

function add_subtrees ::
  "name_constraint_state \<Rightarrow> bytes \<Rightarrow> name_constraint_state \<times> (name_constraint_error, unit) result"
  where
  "add_subtrees st pos =
     (if pos = [] then (st, Inr ())
      else (case parse_tlv_with_rest pos of
              Inl e \<Rightarrow> (st, Inl (NcParse (NcSubtrees e)))
            | Inr (t, sub_body, rest) \<Rightarrow>
                if t = 0xA0 then
                  (case parse_general_subtrees sub_body [] of
                     Inl e \<Rightarrow> (st, Inl e)
                   | Inr bases \<Rightarrow> add_subtrees (st\<lparr>permitted := permitted st @ [bases]\<rparr>) rest)
                else if t = 0xA1 then
                  (case parse_general_subtrees sub_body [] of
                     Inl e \<Rightarrow> (st, Inl e)
                   | Inr bases \<Rightarrow> add_subtrees (st\<lparr>excluded := excluded st @ bases\<rparr>) rest)
                else (st, Inl (NcParse (NcUnexpectedMember t)))))"
  by pat_completeness auto
termination
  by (relation "measure (\<lambda>(_, pos). length pos)") (auto dest: parse_tlv_with_rest_shorter)

definition add_from_extension_value ::
  "name_constraint_state \<Rightarrow> bytes \<Rightarrow> name_constraint_state \<times> (name_constraint_error, unit) result"
  where
  "add_from_extension_value st value =
     (case parse_tlv value of
        Inl e \<Rightarrow> (st, Inl (NcParse (NcOuter e)))
      | Inr (tag, body) \<Rightarrow>
          if tag \<noteq> 0x30 then (st, Inl (NcParse (NcExpectedSequence tag)))
          else add_subtrees st body)"

definition add_from_cert ::
  "name_constraint_state \<Rightarrow> certificate \<Rightarrow> name_constraint_state \<times> (name_constraint_error, unit) result"
  where
  "add_from_cert st cert =
     (case find_ext cert NAME_CONSTRAINTS_OID of
        None \<Rightarrow> (st, Inr ())
      | Some ext \<Rightarrow> add_from_extension_value st (extn_value ext))"

definition nc_is_empty :: "name_constraint_state \<Rightarrow> bool" where
  "nc_is_empty st \<longleftrightarrow> permitted st = [] \<and> excluded st = []"

declare validate_subtree_min_max.simps [simp del] parse_general_subtrees.simps [simp del]
  add_subtrees.simps [simp del]

subsection \<open>Names a certificate asserts\<close>

function collect_san_loop ::
  "bytes \<Rightarrow> asserted_name list \<Rightarrow> (name_constraint_error, asserted_name list) result" where
  "collect_san_loop pos names =
     (if pos = [] then Inr names
      else (case parse_tlv_with_rest pos of
              Inl e \<Rightarrow> Inl (NcParse (NcSanEntry e))
            | Inr (gn_tag, gn_body, rest) \<Rightarrow>
                if gn_tag = GN_DNS then
                  (case ia5_string gn_body of
                     Inl e \<Rightarrow> Inl e
                   | Inr s \<Rightarrow> collect_san_loop rest (names @ [ADns (to_ascii_lowercase s)]))
                else if gn_tag = GN_RFC822 then
                  (case ia5_string gn_body of
                     Inl e \<Rightarrow> Inl e
                   | Inr s \<Rightarrow> collect_san_loop rest (names @ [ARfc822 (to_ascii_lowercase s)]))
                else if gn_tag = GN_IP then
                  (if length gn_body = 4 \<or> length gn_body = 16
                   then collect_san_loop rest (names @ [AIp gn_body])
                   else Inl (NcParse (NcSanIpLength (length gn_body))))
                else if gn_tag = GN_DIRECTORY then
                  collect_san_loop rest (names @ [ADirectory gn_body])
                else collect_san_loop rest names))"
  by pat_completeness auto
termination
  by (relation "measure (\<lambda>(pos, _). length pos)") (auto dest: parse_tlv_with_rest_shorter)

declare collect_san_loop.simps [simp del]

definition collect_san_names ::
  "bytes \<Rightarrow> asserted_name list \<Rightarrow> (name_constraint_error, asserted_name list) result" where
  "collect_san_names value names =
     and_then (map_err (\<lambda>e. NcParse (NcSan e)) (parse_tlv value)) (\<lambda>(tag, body).
       if tag \<noteq> 0x30 then Inl (NcParse (NcSanTag tag)) else collect_san_loop body names)"

fun collect_emails ::
  "lib \<Rightarrow> attribute list \<Rightarrow> asserted_name list \<Rightarrow> (name_constraint_error, asserted_name list) result"
  where
  "collect_emails L [] names = Inr names"
| "collect_emails L (a # as) names =
     (if attr_oid a = EMAIL_ADDRESS_OID then
        (case any_as_ia5 L (attr_value a) of
           None \<Rightarrow> Inl (NcParse NcSubjectEmail)
         | Some email \<Rightarrow>
             if email = [] then Inl (NcParse NcEmptyEmail)
             else collect_emails L as (names @ [ARfc822 (to_ascii_lowercase email)]))
      else collect_emails L as names)"

definition collect_asserted_names ::
  "lib \<Rightarrow> certificate \<Rightarrow> bool \<Rightarrow> (name_constraint_error, asserted_name list) result" where
  "collect_asserted_names L cert constrain_rfc822 =
     and_then (ok_or (NcParse NcSubjectDer) (name_to_der L (subject cert))) (\<lambda>subject_der.
       let names = (if 2 < length subject_der then [ADirectory subject_der] else []) in
       case find_ext cert SAN_OID of
         Some ext \<Rightarrow> collect_san_names (extn_value ext) names
       | None \<Rightarrow>
           if constrain_rfc822 then collect_emails L (concat (subject cert)) names
           else Inr names)"

subsection \<open>Matching\<close>

definition dns_matches :: "rstr \<Rightarrow> rstr \<Rightarrow> bool" where
  "dns_matches base name =
     (if base = [] then True
      else case strip_prefix_char 0x2E base of
        Some suffix \<Rightarrow>
          length suffix < length name \<and> ends_with name suffix
          \<and> name ! (length name - length suffix - 1) = 0x2E
      | None \<Rightarrow>
          name = base
          \<or> length base < length name \<and> ends_with name base
             \<and> name ! (length name - length base - 1) = 0x2E)"

definition rfc822_matches :: "rstr \<Rightarrow> rstr \<Rightarrow> bool" where
  "rfc822_matches base name =
     (if base = [] then True
      else let host = (case rsplit_once 0x40 name of Some (_, host) \<Rightarrow> host | None \<Rightarrow> name) in
        case strip_prefix_char 0x2E base of
          Some suffix \<Rightarrow>
            length suffix < length host \<and> ends_with host suffix
            \<and> host ! (length host - length suffix - 1) = 0x2E
        | None \<Rightarrow> if 0x40 \<in> set base then name = base else host = base)"

definition ip_matches :: "bytes \<Rightarrow> bytes \<Rightarrow> bytes \<Rightarrow> bool" where
  "ip_matches addr msk name =
     (if length name \<noteq> length addr \<or> length msk \<noteq> length addr then False
      else list_all (\<lambda>((a, m), n). a AND m = n AND m) (zip (zip addr msk) name))"

definition DIRECTORY_STRING_TAGS :: "u8 list" where
  "DIRECTORY_STRING_TAGS = [0x0c, 0x13, 0x16]"

definition directory_string_well_formed :: "u8 \<Rightarrow> bytes \<Rightarrow> bool" where
  "directory_string_well_formed tag body =
     (if tag = 0x0c then from_utf8_ok body
      else if tag = 0x13 \<or> tag = 0x16 then is_ascii body
      else True)"

text \<open>One \<open>AttributeTypeAndValue\<close>: type OID body, value tag, value body.\<close>
type_synonym atv = "bytes \<times> u8 \<times> bytes"

function rdn_atvs_loop :: "bytes \<Rightarrow> atv list \<Rightarrow> (name_constraint_error, atv list) result" where
  "rdn_atvs_loop pos atvs =
     (if pos = [] then Inr atvs
      else (case parse_tlv_with_rest pos of
              Inl e \<Rightarrow> Inl (NcParse (NcAtv e))
            | Inr (atv_tag, atv_body, rest) \<Rightarrow>
                if atv_tag \<noteq> 0x30 then Inl (NcParse (NcAtvTag atv_tag))
                else (case parse_tlv_with_rest atv_body of
                        Inl e \<Rightarrow> Inl (NcParse (NcAttrType e))
                      | Inr (oid_tag, oid_body, val_rest) \<Rightarrow>
                          if oid_tag \<noteq> 0x06 then Inl (NcParse (NcAttrTypeTag oid_tag))
                          else (case parse_tlv_with_rest val_rest of
                                  Inl e \<Rightarrow> Inl (NcParse (NcAttrValue e))
                                | Inr (val_tag, val_body, trailing) \<Rightarrow>
                                    if trailing \<noteq> [] then Inl (NcParse NcAtvTrailing)
                                    else if \<not> directory_string_well_formed val_tag val_body
                                    then Inl (NcParse (NcMalformedString val_tag))
                                    else rdn_atvs_loop rest
                                      (atvs @ [(oid_body, val_tag, val_body)])))))"
  by pat_completeness auto
termination
  by (relation "measure (\<lambda>(pos, _). length pos)") (auto dest: parse_tlv_with_rest_shorter)

declare rdn_atvs_loop.simps [simp del]

definition rdn_atvs :: "bytes \<Rightarrow> (name_constraint_error, atv list) result" where
  "rdn_atvs rdn_der =
     and_then (map_err (\<lambda>e. NcParse (NcRdn e)) (parse_tlv rdn_der)) (\<lambda>(tag, body).
       if tag \<noteq> 0x31 then Inl (NcParse (NcRdnTag tag)) else rdn_atvs_loop body [])"

text \<open>The loop of \<open>normalize_directory_string\<close>: output so far and the pending-space flag.\<close>

fun normalize_loop :: "lib \<Rightarrow> char32 list \<Rightarrow> char32 list \<Rightarrow> bool \<Rightarrow> char32 list" where
  "normalize_loop L [] out pending = out"
| "normalize_loop L (c # cs) out pending =
     (if is_whitespace c then normalize_loop L cs out (out \<noteq> [])
      else normalize_loop L cs ((if pending then out @ [0x20] else out) @ to_lowercase L c) False)"

definition normalize_directory_string :: "lib \<Rightarrow> bytes \<Rightarrow> char32 list option" where
  "normalize_directory_string L bs =
     (case utf8_chars bs of
        None \<Rightarrow> None
      | Some s \<Rightarrow> Some (normalize_loop L s [] False))"

definition atv_value_matches :: "lib \<Rightarrow> u8 \<Rightarrow> bytes \<Rightarrow> u8 \<Rightarrow> bytes \<Rightarrow> bool" where
  "atv_value_matches L b_tag b_val n_tag n_val =
     (if b_tag \<in> set DIRECTORY_STRING_TAGS \<and> n_tag \<in> set DIRECTORY_STRING_TAGS then
        (case (normalize_directory_string L b_val, normalize_directory_string L n_val) of
           (Some b, Some n) \<Rightarrow> b = n
         | _ \<Rightarrow> False)
      else b_tag = n_tag \<and> b_val = n_val)"

text \<open>The inner loop over the name's attributes: mark the first unused one that matches.\<close>

fun rdn_scan :: "lib \<Rightarrow> atv \<Rightarrow> atv list \<Rightarrow> bool list \<Rightarrow> bool list option" where
  "rdn_scan L b (n # ns) (u # us) =
     (case (b, n) of ((b_oid, b_tag, b_val), (n_oid, n_tag, n_val)) \<Rightarrow>
        if u \<or> n_oid \<noteq> b_oid then map_option ((#) u) (rdn_scan L b ns us)
        else if atv_value_matches L b_tag b_val n_tag n_val then Some (True # us)
        else map_option ((#) u) (rdn_scan L b ns us))"
| "rdn_scan L b _ _ = None"

fun rdn_pair :: "lib \<Rightarrow> atv list \<Rightarrow> atv list \<Rightarrow> bool list \<Rightarrow> bool" where
  "rdn_pair L [] name used = True"
| "rdn_pair L (b # base) name used =
     (case rdn_scan L b name used of
        None \<Rightarrow> False
      | Some used' \<Rightarrow> rdn_pair L base name used')"

definition rdn_matches :: "lib \<Rightarrow> bytes \<Rightarrow> bytes \<Rightarrow> (name_constraint_error, bool) result" where
  "rdn_matches L base_rdn name_rdn =
     and_then (rdn_atvs base_rdn) (\<lambda>base.
     and_then (rdn_atvs name_rdn) (\<lambda>name.
       if length base \<noteq> length name then Inr False
       else Inr (rdn_pair L base name (replicate (length name) False))))"

function rdns_loop :: "bytes \<Rightarrow> bytes list \<Rightarrow> (name_constraint_error, bytes list) result" where
  "rdns_loop pos rdns =
     (if pos = [] then Inr rdns
      else (case parse_tlv_with_rest pos of
              Inl e \<Rightarrow> Inl (NcParse (NcRdn e))
            | Inr (rdn_tag, _, rest) \<Rightarrow>
                let consumed = length pos - length rest in
                if rdn_tag \<noteq> 0x31 then Inl (NcParse (NcRdnTag rdn_tag))
                else rdns_loop rest (rdns @ [take consumed pos])))"
  by pat_completeness auto
termination
  by (relation "measure (\<lambda>(pos, _). length pos)") (auto dest: parse_tlv_with_rest_shorter)

declare rdns_loop.simps [simp del]

definition inner_name_rdns :: "bytes \<Rightarrow> (name_constraint_error, bytes list) result" where
  "inner_name_rdns der =
     and_then (map_err (\<lambda>e. NcParse (NcDirectoryName e)) (parse_tlv der)) (\<lambda>(tag, body).
     and_then
       (if tag = GN_DIRECTORY then
          and_then (map_err (\<lambda>e. NcParse (NcInnerName e)) (parse_tlv body)) (\<lambda>(inner_tag, inner_body).
            if inner_tag \<noteq> 0x30 then Inl (NcParse (NcInnerTag inner_tag)) else Inr inner_body)
        else if tag = 0x30 then Inr body
        else Inl (NcParse (NcNameTag tag)))
       (\<lambda>name_body. rdns_loop name_body []))"

fun rdn_prefix :: "lib \<Rightarrow> (bytes \<times> bytes) list \<Rightarrow> (name_constraint_error, bool) result" where
  "rdn_prefix L [] = Inr True"
| "rdn_prefix L ((b, n) # ps) =
     and_then (rdn_matches L b n) (\<lambda>m. if \<not> m then Inr False else rdn_prefix L ps)"

definition directory_matches :: "lib \<Rightarrow> bytes \<Rightarrow> bytes \<Rightarrow> (name_constraint_error, bool) result" where
  "directory_matches L base_wrapped name_wrapped =
     and_then (inner_name_rdns base_wrapped) (\<lambda>base_rdns.
     and_then (inner_name_rdns name_wrapped) (\<lambda>name_rdns.
       if length name_rdns < length base_rdns then Inr False
       else rdn_prefix L (zip base_rdns name_rdns)))"

fun base_matches ::
  "lib \<Rightarrow> general_name_base \<Rightarrow> asserted_name \<Rightarrow> (name_constraint_error, bool) result" where
  "base_matches L (BDns b) (ADns n) = Inr (dns_matches b n)"
| "base_matches L (BRfc822 b) (ARfc822 n) = Inr (rfc822_matches b n)"
| "base_matches L (BIp addr msk) (AIp n) = Inr (ip_matches addr msk n)"
| "base_matches L (BDirectory b) (ADirectory n) = directory_matches L b n"
| "base_matches L _ _ = Inr False"

subsection \<open>Checking a certificate against the state\<close>

fun same_name_type :: "general_name_base \<Rightarrow> asserted_name \<Rightarrow> bool" where
  "same_name_type (BDns _) (ADns _) = True"
| "same_name_type (BRfc822 _) (ARfc822 _) = True"
| "same_name_type (BIp _ _) (AIp _) = True"
| "same_name_type (BDirectory _) (ADirectory _) = True"
| "same_name_type _ _ = False"

fun type_label :: "asserted_name \<Rightarrow> string" where
  "type_label (ADns _) = ''dNSName''"
| "type_label (ARfc822 _) = ''rfc822Name''"
| "type_label (AIp _) = ''iPAddress''"
| "type_label (ADirectory _) = ''directoryName''"

text \<open>The loop over one issuer's group: \<open>(has_permitted_of_type, matched)\<close>.\<close>

fun scan_group ::
  "lib \<Rightarrow> asserted_name \<Rightarrow> general_name_base list \<Rightarrow> bool \<Rightarrow> (name_constraint_error, bool \<times> bool) result"
  where
  "scan_group L name [] has = Inr (has, False)"
| "scan_group L name (p # ps) has =
     (if \<not> same_name_type p name then scan_group L name ps has
      else and_then (base_matches L p name) (\<lambda>m.
        if m then Inr (True, True) else scan_group L name ps True))"

definition check_excluded ::
  "lib \<Rightarrow> asserted_name \<Rightarrow> general_name_base \<Rightarrow> (name_constraint_error, unit) result" where
  "check_excluded L name ex =
     and_then (base_matches L ex name) (\<lambda>m.
       if m then Inl (Violation (NcExcluded name)) else Inr ())"

definition check_group ::
  "lib \<Rightarrow> asserted_name \<Rightarrow> general_name_base list \<Rightarrow> (name_constraint_error, unit) result" where
  "check_group L name grp =
     and_then (scan_group L name grp False) (\<lambda>(has, matched).
       if has \<and> \<not> matched then Inl (Violation (NcOutsidePermitted (type_label name) name))
       else Inr ())"

definition check_name ::
  "lib \<Rightarrow> name_constraint_state \<Rightarrow> asserted_name \<Rightarrow> (name_constraint_error, unit) result" where
  "check_name L st name =
     and_then (try_for (check_excluded L name) (excluded st)) (\<lambda>_.
       try_for (check_group L name) (permitted st))"

fun is_rfc822_base :: "general_name_base \<Rightarrow> bool" where
  "is_rfc822_base (BRfc822 _) = True"
| "is_rfc822_base _ = False"

definition check_cert ::
  "lib \<Rightarrow> name_constraint_state \<Rightarrow> certificate \<Rightarrow> (name_constraint_error, unit) result" where
  "check_cert L st cert =
     (if nc_is_empty st then Inr ()
      else let constrain_rfc822 = list_ex is_rfc822_base (excluded st @ concat (permitted st)) in
        and_then (collect_asserted_names L cert constrain_rfc822) (\<lambda>names.
          try_for (check_name L st) names))"

end
