(* ===== verification/X509_Ext.thy ===== *)
theory X509_Ext
  imports X509_Cert
begin

section \<open>Extension parsing and role validation (\<open>src/src/ltv/x509_ext.rs\<close>)\<close>

text \<open>
  The parsers of basicConstraints, keyUsage and extendedKeyUsage on a certificate, and the
  profile a certificate must satisfy for each PKI role. The key-usage rule for timestamp signers
  is the one function of \<open>src/src/tsp/token.rs\<close> this component calls. The messages of
  \<open>LtvError::X509Extension\<close> are the constructors of \<open>ext_msg\<close>.
\<close>

definition BASIC_CONSTRAINTS_OID :: oid where "BASIC_CONSTRAINTS_OID = [2, 5, 29, 19]"
definition KEY_USAGE_OID :: oid where "KEY_USAGE_OID = [2, 5, 29, 15]"
definition EKU_OID :: oid where "EKU_OID = [2, 5, 29, 37]"
definition OCSP_SIGNING_EKU_OID :: oid where "OCSP_SIGNING_EKU_OID = [1, 3, 6, 1, 5, 5, 7, 3, 9]"
definition TIMESTAMPING_EKU_OID :: oid where "TIMESTAMPING_EKU_OID = [1, 3, 6, 1, 5, 5, 7, 3, 8]"

record key_usage_bits =
  digital_signature :: bool
  content_commitment :: bool
  key_encipherment :: bool
  data_encipherment :: bool
  key_agreement :: bool
  key_cert_sign :: bool
  crl_sign :: bool
  encipher_only :: bool
  decipher_only :: bool

definition key_usage_none :: key_usage_bits where
  "key_usage_none = \<lparr>digital_signature = False, content_commitment = False,
     key_encipherment = False, data_encipherment = False, key_agreement = False,
     key_cert_sign = False, crl_sign = False, encipher_only = False, decipher_only = False\<rparr>"

text \<open>The names \<open>Display\<close> pushes, in order.\<close>

definition key_usage_names :: "key_usage_bits \<Rightarrow> string list" where
  "key_usage_names ku =
     (if digital_signature ku then [''digitalSignature''] else [])
     @ (if content_commitment ku then [''contentCommitment''] else [])
     @ (if key_encipherment ku then [''keyEncipherment''] else [])
     @ (if data_encipherment ku then [''dataEncipherment''] else [])
     @ (if key_agreement ku then [''keyAgreement''] else [])
     @ (if key_cert_sign ku then [''keyCertSign''] else [])
     @ (if crl_sign ku then [''cRLSign''] else [])
     @ (if encipher_only ku then [''encipherOnly''] else [])
     @ (if decipher_only ku then [''decipherOnly''] else [])"

fun join :: "string \<Rightarrow> string list \<Rightarrow> string" where
  "join sep [] = []"
| "join sep [s] = s"
| "join sep (s # ss) = s @ sep @ join sep ss"

definition key_usage_display :: "key_usage_bits \<Rightarrow> string" where
  "key_usage_display ku =
     (let bits = key_usage_names ku in if bits = [] then ''(none)'' else join '', '' bits)"

datatype cert_role = EndEntity | IntermediateCa | CrlSigner | OcspResponder | TimestampSigner

fun cert_role_display :: "cert_role \<Rightarrow> string" where
  "cert_role_display EndEntity = ''EndEntity''"
| "cert_role_display IntermediateCa = ''IntermediateCa''"
| "cert_role_display CrlSigner = ''CrlSigner''"
| "cert_role_display OcspResponder = ''OcspResponder''"
| "cert_role_display TimestampSigner = ''TimestampSigner''"

datatype tsa_key_usage_error = TsaKuDuplicate | TsaKuDer | TsaKuPadding | TsaKuNotSigning

datatype ext_msg =
    ExtBasicConstraints der_error
  | ExtPathLenRange u64
  | ExtKeyUsageTlv der_error
  | ExtKeyUsageTrailing
  | ExtKeyUsageTag u8
  | ExtKeyUsageEmpty
  | ExtKeyUsageUnused u8
  | ExtKeyUsageNoBits
  | ExtKeyUsagePadding
  | ExtEkuTlv der_error
  | ExtEkuTag u8
  | ExtEkuOidTlv der_error
  | ExtEkuOidTag u8
  | ExtEkuBadOid
  | ExtDuplicate oid
  | ExtEndEntityCa
  | ExtEndEntityKeyUsage key_usage_bits
  | ExtIntermediateNotCa
  | ExtIntermediateKeyUsage key_usage_bits
  | ExtCrlSignerKeyUsage key_usage_bits
  | ExtCrlSignerNoKeyUsage
  | ExtTimestampCa
  | ExtTimestampKeyUsage tsa_key_usage_error
  | ExtTimestampNoEku
  | ExtTimestampEkuNotCritical
  | ExtTimestampEku "oid list"
  | ExtOcspEku "oid list"

datatype x509_error = X509Extension ext_msg

subsection \<open>Extension lookup\<close>

definition find_extension_value :: "certificate \<Rightarrow> oid \<Rightarrow> (x509_error, bytes option) result" where
  "find_extension_value cert oid =
     (case extensions cert of
        None \<Rightarrow> Inr None
      | Some exts \<Rightarrow>
          (case filter (\<lambda>e. extn_id e = oid) exts of
             [] \<Rightarrow> Inr None
           | [e] \<Rightarrow> Inr (Some (extn_value e))
           | _ \<Rightarrow> Inl (X509Extension (ExtDuplicate oid))))"

definition has_extension :: "certificate \<Rightarrow> oid \<Rightarrow> bool" where
  "has_extension cert oid =
     (case extensions cert of
        None \<Rightarrow> False
      | Some exts \<Rightarrow> list_ex (\<lambda>e. extn_id e = oid) exts)"

subsection \<open>The three parsers\<close>

definition check_basic_constraints ::
  "certificate \<Rightarrow> (x509_error, bool \<times> nat option) result" where
  "check_basic_constraints cert =
     and_then (find_extension_value cert BASIC_CONSTRAINTS_OID) (\<lambda>v.
       case v of
         None \<Rightarrow> Inr (False, None)
       | Some ext_value \<Rightarrow>
           and_then (map_err (\<lambda>e. X509Extension (ExtBasicConstraints e))
             (parse_basic_constraints ext_value)) (\<lambda>(is_ca, path_len).
             case path_len of
               None \<Rightarrow> Inr (is_ca, None)
             | Some p \<Rightarrow>
                 if unat p < 2 ^ 32 then Inr (is_ca, Some (unat p))
                 else Inl (X509Extension (ExtPathLenRange p))))"

definition bit_set :: "bytes \<Rightarrow> nat \<Rightarrow> bool" where
  "bit_set bit_bytes n =
     (let byte_idx = n div 8; bit_idx = 7 - n mod 8 in
      if byte_idx < length bit_bytes then drop_bit bit_idx (bit_bytes ! byte_idx) AND 1 = 1
      else False)"

definition check_key_usage :: "certificate \<Rightarrow> (x509_error, key_usage_bits option) result" where
  "check_key_usage cert =
     and_then (find_extension_value cert KEY_USAGE_OID) (\<lambda>v.
       case v of
         None \<Rightarrow> Inr None
       | Some ext_value \<Rightarrow>
           and_then (map_err (\<lambda>e. X509Extension (ExtKeyUsageTlv e))
             (parse_tlv_with_rest ext_value)) (\<lambda>(tag, bs_body, rest).
             if rest \<noteq> [] then Inl (X509Extension ExtKeyUsageTrailing)
             else if tag \<noteq> 0x03 then Inl (X509Extension (ExtKeyUsageTag tag))
             else if bs_body = [] then Inl (X509Extension ExtKeyUsageEmpty)
             else let unused_bits = hd bs_body; bit_bytes = tl bs_body in
               if 7 < unused_bits then Inl (X509Extension (ExtKeyUsageUnused unused_bits))
               else if bit_bytes = [] \<or> list_all (\<lambda>b. b = 0) bit_bytes
               then Inl (X509Extension ExtKeyUsageNoBits)
               else if 0 < unused_bits
                 \<and> last bit_bytes AND (push_bit (unat unused_bits) 1 - 1) \<noteq> 0
               then Inl (X509Extension ExtKeyUsagePadding)
               else Inr (Some
                 \<lparr>digital_signature = bit_set bit_bytes 0, content_commitment = bit_set bit_bytes 1,
                  key_encipherment = bit_set bit_bytes 2, data_encipherment = bit_set bit_bytes 3,
                  key_agreement = bit_set bit_bytes 4, key_cert_sign = bit_set bit_bytes 5,
                  crl_sign = bit_set bit_bytes 6, encipher_only = bit_set bit_bytes 7,
                  decipher_only = bit_set bit_bytes 8\<rparr>)))"

function eku_loop :: "lib \<Rightarrow> bytes \<Rightarrow> oid list \<Rightarrow> (x509_error, oid list) result" where
  "eku_loop L pos oids =
     (if pos = [] then Inr oids
      else (case parse_tlv_with_rest pos of
              Inl e \<Rightarrow> Inl (X509Extension (ExtEkuOidTlv e))
            | Inr (oid_tag, oid_body, rest) \<Rightarrow>
                if oid_tag \<noteq> 0x06 then Inl (X509Extension (ExtEkuOidTag oid_tag))
                else (case oid_from_bytes L oid_body of
                        None \<Rightarrow> Inl (X509Extension ExtEkuBadOid)
                      | Some oid \<Rightarrow> eku_loop L rest (oids @ [oid]))))"
  by pat_completeness auto
termination
  by (relation "measure (\<lambda>(_, pos, _). length pos)") (auto dest: parse_tlv_with_rest_shorter)

declare eku_loop.simps [simp del]

definition check_extended_key_usage :: "lib \<Rightarrow> certificate \<Rightarrow> (x509_error, oid list) result" where
  "check_extended_key_usage L cert =
     and_then (find_extension_value cert EKU_OID) (\<lambda>v.
       case v of
         None \<Rightarrow> Inr []
       | Some ext_value \<Rightarrow>
           and_then (map_err (\<lambda>e. X509Extension (ExtEkuTlv e)) (parse_tlv ext_value))
             (\<lambda>(tag, seq_body).
               if tag \<noteq> 0x30 then Inl (X509Extension (ExtEkuTag tag))
               else eku_loop L seq_body []))"

subsection \<open>Timestamp key usage (\<open>tsp/token.rs\<close>)\<close>

definition require_timestamp_signing_key_usage ::
  "lib \<Rightarrow> certificate \<Rightarrow> (tsa_key_usage_error, unit) result" where
  "require_timestamp_signing_key_usage L cert =
     (case filter (\<lambda>e. extn_id e = KEY_USAGE_OID) (case extensions cert of None \<Rightarrow> [] | Some es \<Rightarrow> es) of
        [] \<Rightarrow> Inr ()
      | [e] \<Rightarrow>
          and_then (ok_or TsaKuDer (bit_string_from_der L (extn_value e))) (\<lambda>(unused_bits, raw).
            if raw = [] \<or> last raw AND (push_bit unused_bits 1 - 1) \<noteq> 0 then Inl TsaKuPadding
            else if hd raw AND 0xC0 = 0 then Inl TsaKuNotSigning
            else Inr ())
      | _ \<Rightarrow> Inl TsaKuDuplicate)"

subsection \<open>Roles\<close>

definition validate_end_entity :: "certificate \<Rightarrow> (x509_error, unit) result" where
  "validate_end_entity cert =
     and_then (check_basic_constraints cert) (\<lambda>(is_ca, _).
       if is_ca then Inl (X509Extension ExtEndEntityCa)
       else and_then (check_key_usage cert) (\<lambda>ku.
         case ku of
           Some ku \<Rightarrow>
             if \<not> digital_signature ku \<and> \<not> content_commitment ku
             then Inl (X509Extension (ExtEndEntityKeyUsage ku)) else Inr ()
         | None \<Rightarrow> Inr ()))"

definition validate_intermediate_ca :: "certificate \<Rightarrow> (x509_error, unit) result" where
  "validate_intermediate_ca cert =
     and_then (check_basic_constraints cert) (\<lambda>(is_ca, _).
       if \<not> is_ca then Inl (X509Extension ExtIntermediateNotCa)
       else and_then (check_key_usage cert) (\<lambda>ku.
         case ku of
           Some ku \<Rightarrow>
             if \<not> key_cert_sign ku then Inl (X509Extension (ExtIntermediateKeyUsage ku)) else Inr ()
         | None \<Rightarrow> Inr ()))"

definition validate_crl_signer :: "certificate \<Rightarrow> (x509_error, unit) result" where
  "validate_crl_signer cert =
     and_then (check_key_usage cert) (\<lambda>ku.
       case ku of
         Some ku \<Rightarrow>
           if \<not> crl_sign ku then Inl (X509Extension (ExtCrlSignerKeyUsage ku)) else Inr ()
       | None \<Rightarrow> Inl (X509Extension ExtCrlSignerNoKeyUsage))"

definition validate_timestamp_signer :: "lib \<Rightarrow> certificate \<Rightarrow> (x509_error, unit) result" where
  "validate_timestamp_signer L cert =
     and_then (check_basic_constraints cert) (\<lambda>(is_ca, _).
       if is_ca then Inl (X509Extension ExtTimestampCa)
       else
         and_then (map_err (\<lambda>e. X509Extension (ExtTimestampKeyUsage e))
           (require_timestamp_signing_key_usage L cert)) (\<lambda>_.
         and_then (ok_or (X509Extension ExtTimestampNoEku) (find_ext cert EKU_OID)) (\<lambda>ext.
           if \<not> critical ext then Inl (X509Extension ExtTimestampEkuNotCritical)
           else and_then (check_extended_key_usage L cert) (\<lambda>ekus.
             if ekus \<noteq> [TIMESTAMPING_EKU_OID] then Inl (X509Extension (ExtTimestampEku ekus))
             else Inr ()))))"

definition validate_ocsp_responder :: "lib \<Rightarrow> certificate \<Rightarrow> (x509_error, unit) result" where
  "validate_ocsp_responder L cert =
     and_then (check_extended_key_usage L cert) (\<lambda>ekus.
       if OCSP_SIGNING_EKU_OID \<notin> set ekus then Inl (X509Extension (ExtOcspEku ekus)) else Inr ())"

text \<open>The first repeated OID, as the \<open>HashSet\<close> loop meets it.\<close>

fun first_duplicate :: "oid set \<Rightarrow> extension list \<Rightarrow> oid option" where
  "first_duplicate seen [] = None"
| "first_duplicate seen (e # es) =
     (if extn_id e \<in> seen then Some (extn_id e) else first_duplicate (insert (extn_id e) seen) es)"

fun role_check :: "lib \<Rightarrow> certificate \<Rightarrow> cert_role \<Rightarrow> (x509_error, unit) result" where
  "role_check L cert EndEntity = validate_end_entity cert"
| "role_check L cert IntermediateCa = validate_intermediate_ca cert"
| "role_check L cert CrlSigner = validate_crl_signer cert"
| "role_check L cert OcspResponder = validate_ocsp_responder L cert"
| "role_check L cert TimestampSigner = validate_timestamp_signer L cert"

definition validate_extensions_for_role ::
  "lib \<Rightarrow> certificate \<Rightarrow> cert_role \<Rightarrow> (x509_error, unit) result" where
  "validate_extensions_for_role L cert role =
     (case extensions cert of
        None \<Rightarrow> role_check L cert role
      | Some exts \<Rightarrow>
          (case first_duplicate {} exts of
             Some oid \<Rightarrow> Inl (X509Extension (ExtDuplicate oid))
           | None \<Rightarrow> role_check L cert role))"

subsection \<open>Bit strings\<close>

text \<open>The reference reading of a named bit: the content octets are one big-endian number whose
  most significant bit is bit 0.\<close>

definition named_bit :: "bytes \<Rightarrow> nat \<Rightarrow> bool" where
  "named_bit bs n \<longleftrightarrow> n < 8 * length bs \<and> bit (be_nat bs) (8 * length bs - 1 - n)"

lemma bit_be_nat_Cons:
  "bit (be_nat (b # bs)) k \<longleftrightarrow>
    (if k < 8 * length bs then bit (be_nat bs) k else bit (unat b) (k - 8 * length bs))"
proof -
  define m where "m = 8 * length bs"
  have p: "(256::nat) ^ length bs = 2 ^ m" by (simp add: power_mult m_def)
  have lt: "be_nat bs < 2 ^ m" using be_nat_less [of bs] by (simp only: p)
  have e: "be_nat (b # bs) = unat b * 2 ^ m + be_nat bs" by (simp only: be_nat.simps p)
  have hi: "drop_bit m (be_nat (b # bs)) = unat b"
    unfolding e drop_bit_eq_div using lt by simp
  have lo: "take_bit m (be_nat (b # bs)) = be_nat bs"
    unfolding e take_bit_eq_mod using lt by simp
  show ?thesis
  proof (cases "k < m")
    case True
    then have "bit (be_nat (b # bs)) k = bit (take_bit m (be_nat (b # bs))) k"
      using bit_take_bit_iff [of m "be_nat (b # bs)" k] by blast
    with True show ?thesis unfolding lo by (simp add: m_def)
  next
    case False
    then obtain j where j: "k = m + j" by (metis le_Suc_ex not_less)
    have "bit (be_nat (b # bs)) k = bit (drop_bit m (be_nat (b # bs))) j"
      unfolding bit_drop_bit_eq j comp_def ..
    with j show ?thesis unfolding hi by (simp add: m_def)
  qed
qed

lemma low_bit_test: "drop_bit k (b :: u8) AND 1 = 1 \<longleftrightarrow> bit b k"
  by (simp add: and_one_eq odd_iff_mod_2_eq_one [symmetric] bit_iff_odd_drop_bit)

lemma bit_set_named: "bit_set bs n = named_bit bs n"
proof (induction bs arbitrary: n)
  case Nil
  then show ?case by (simp add: bit_set_def named_bit_def)
next
  case (Cons b bs)
  show ?case
  proof (cases "n < 8")
    case True
    then have "7 + 8 * length bs - n - 8 * length bs = 7 - n" "\<not> 7 + 8 * length bs - n < 8 * length bs"
      by simp_all
    with True show ?thesis
      by (simp add: bit_set_def named_bit_def low_bit_test bit_be_nat_Cons bit_unsigned_iff
          del: be_nat.simps)
  next
    case False
    then obtain j where j: "n = 8 + j" by (metis le_Suc_ex not_less)
    have "(8 + j) div 8 = Suc (j div 8)" by simp
    then have "bit_set (b # bs) n = bit_set bs j" by (simp add: bit_set_def j Let_def)
    moreover have "named_bit (b # bs) n = named_bit bs j"
      by (auto simp: named_bit_def j bit_be_nat_Cons simp del: be_nat.simps)
    ultimately show ?thesis using Cons.IH by simp
  qed
qed

subsection \<open>What the parsers accept\<close>

text \<open>The extension identifiers of a certificate, in order.\<close>

definition ext_ids :: "certificate \<Rightarrow> oid list" where
  "ext_ids cert = (case extensions cert of None \<Rightarrow> [] | Some exts \<Rightarrow> map extn_id exts)"

lemma filter_distinct_find:
  "distinct (map f xs) \<Longrightarrow>
    filter (\<lambda>x. f x = k) xs = (case find (\<lambda>x. f x = k) xs of None \<Rightarrow> [] | Some x \<Rightarrow> [x])"
proof (induction xs)
  case Nil
  then show ?case by simp
next
  case (Cons x xs)
  then show ?case by (auto simp: image_iff) (metis (mono_tags, lifting) filter_False)
qed

lemma find_extension_value_distinct:
  "distinct (ext_ids cert) \<Longrightarrow>
    find_extension_value cert oid = Inr (map_option extn_value (find_ext cert oid))"
  by (auto simp: ext_ids_def find_extension_value_def find_ext_def filter_distinct_find
      split: option.splits)

lemma first_duplicate_None_iff:
  "first_duplicate seen es = None \<longleftrightarrow> distinct (map extn_id es) \<and> set (map extn_id es) \<inter> seen = {}"
  by (induction es arbitrary: seen) auto

lemma validate_role_unfold:
  "validate_extensions_for_role L cert role = Inr () \<longleftrightarrow>
    distinct (ext_ids cert) \<and> role_check L cert role = Inr ()"
  by (auto simp: validate_extensions_for_role_def ext_ids_def split: option.splits)
    (simp_all add: first_duplicate_None_iff, metis first_duplicate_None_iff Int_empty_right list.set_map option.distinct(1))

text \<open>A keyUsage value: a DER BIT STRING that asserts at least one bit and has zero padding.\<close>

definition key_usage_value :: "bytes \<Rightarrow> bytes \<Rightarrow> bool" where
  "key_usage_value v bits \<longleftrightarrow>
     (\<exists>unused. v = encode_tlv 0x03 (unused # bits) \<and> unused \<le> 7 \<and> length bits + 1 < 2 ^ 32
        \<and> be_nat bits \<noteq> 0 \<and> 2 ^ unat unused dvd be_nat bits)"

definition bits_record :: "bytes \<Rightarrow> key_usage_bits" where
  "bits_record bs =
     \<lparr>digital_signature = named_bit bs 0, content_commitment = named_bit bs 1,
      key_encipherment = named_bit bs 2, data_encipherment = named_bit bs 3,
      key_agreement = named_bit bs 4, key_cert_sign = named_bit bs 5,
      crl_sign = named_bit bs 6, encipher_only = named_bit bs 7,
      decipher_only = named_bit bs 8\<rparr>"

lemma be_nat_0_iff: "be_nat bs = 0 \<longleftrightarrow> list_all (\<lambda>b. b = 0) bs"
  by (induction bs) (auto simp: unat_eq_zero)

lemma padding_zero_iff:
  assumes "bs \<noteq> []" "u \<le> 7"
  shows "last bs AND (push_bit u 1 - 1) = 0 \<longleftrightarrow> 2 ^ u dvd be_nat bs"
proof -
  obtain pre b where bs: "bs = pre @ [b]" using assms(1) by (metis rev_exhaust)
  have "b AND (push_bit u 1 - 1) = take_bit u b"
    by (simp add: take_bit_eq_mask mask_eq_exp_minus_1 push_bit_eq_mult)
  moreover have "take_bit u b = 0 \<longleftrightarrow> take_bit u (unat b) = 0"
    by (metis unat_eq_zero unsigned_take_bit_eq)
  moreover have "take_bit u (unat b) = 0 \<longleftrightarrow> 2 ^ u dvd unat b"
    by (simp add: take_bit_eq_0_iff)
  moreover have "(2::nat) ^ u dvd 2 ^ 8" using assms(2) by (intro le_imp_power_dvd) simp
  then have "2 ^ u dvd be_nat pre * 256" by (simp add: dvd_mult)
  then have "2 ^ u dvd be_nat bs \<longleftrightarrow> 2 ^ u dvd unat b"
    by (simp add: bs be_nat_append dvd_add_right_iff)
  ultimately show ?thesis by (simp add: bs)
qed

lemma check_key_usage_iff:
  assumes "distinct (ext_ids cert)"
  shows "check_key_usage cert = Inr ku \<longleftrightarrow>
    (case find_ext cert KEY_USAGE_OID of
       None \<Rightarrow> ku = None
     | Some e \<Rightarrow> \<exists>bits. key_usage_value (extn_value e) bits \<and> ku = Some (bits_record bits))"
    (is "?L \<longleftrightarrow> ?R")
proof (cases "find_ext cert KEY_USAGE_OID")
  case None
  with assms show ?thesis by (auto simp: check_key_usage_def find_extension_value_distinct)
next
  case (Some e)
  have ne: "bits \<noteq> []" if "be_nat bits \<noteq> 0" for bits using that by auto
  have eq: "check_key_usage cert =
     and_then (map_err (\<lambda>e. X509Extension (ExtKeyUsageTlv e)) (parse_tlv_with_rest (extn_value e)))
       (\<lambda>(tag, body, rest).
         if rest \<noteq> [] then Inl (X509Extension ExtKeyUsageTrailing)
         else if tag \<noteq> 0x03 then Inl (X509Extension (ExtKeyUsageTag tag))
         else if body = [] then Inl (X509Extension ExtKeyUsageEmpty)
         else if 7 < hd body then Inl (X509Extension (ExtKeyUsageUnused (hd body)))
         else if tl body = [] \<or> be_nat (tl body) = 0 then Inl (X509Extension ExtKeyUsageNoBits)
         else if 0 < hd body \<and> last (tl body) AND (push_bit (unat (hd body)) 1 - 1) \<noteq> 0
         then Inl (X509Extension ExtKeyUsagePadding)
         else Inr (Some (bits_record (tl body))))"
    unfolding check_key_usage_def find_extension_value_distinct [OF assms] Some Let_def
      bits_record_def bit_set_named be_nat_0_iff by simp
  show ?thesis
  proof
    assume ?L
    then obtain tag body rest where p: "parse_tlv_with_rest (extn_value e) = Inr (tag, body, rest)"
      by (auto simp: eq result_simps)
    with \<open>?L\<close> have g: "rest = []" "tag = 0x03" "body \<noteq> []" "\<not> 7 < hd body" "tl body \<noteq> []"
      "be_nat (tl body) \<noteq> 0" "ku = Some (bits_record (tl body))"
      "0 < hd body \<longrightarrow> last (tl body) AND (push_bit (unat (hd body)) 1 - 1) = 0"
      unfolding eq by (simp_all split: if_split_asm)
    define u bits where "u = hd body" and "bits = tl body"
    have v: "parse_tlv_with_rest (extn_value e) = Inr (0x03, u # bits, [])"
      using p g(1-3) by (simp add: u_def bits_def)
    note u = g(4-7) [folded u_def bits_def] and pad = g(8) [folded u_def bits_def]
    have "unat u \<le> 7" using u(1) by (simp add: word_less_nat_alt)
    moreover have "u = 0 \<or> 0 < u" by (simp add: word_neq_0_conv [symmetric])
    ultimately have "2 ^ unat u dvd be_nat bits" using pad u(2) padding_zero_iff by auto
    with v u have "key_usage_value (extn_value e) bits"
      unfolding key_usage_value_def by (intro exI [of _ u]) (simp add: tlv_Inr_iff tlv_fits_def)
    with u(4) show ?R by (auto simp: Some)
  next
    assume ?R
    then obtain u bits where v: "extn_value e = encode_tlv 0x03 (u # bits)" "length bits + 1 < 2 ^ 32"
      and u: "u \<le> 7" "be_nat bits \<noteq> 0" "2 ^ unat u dvd be_nat bits" "ku = Some (bits_record bits)"
      by (auto simp: Some key_usage_value_def)
    have "parse_tlv_with_rest (extn_value e) = Inr (0x03, u # bits, [])"
      using v by (simp add: parse_encode_tlv_exact tlv_fits_def)
    moreover have "last bits AND (push_bit (unat u) 1 - 1) = 0"
      using padding_zero_iff [OF ne [OF u(2)], of "unat u"] u(1,3) by (simp add: word_le_nat_alt)
    ultimately show ?L using u ne [OF u(2)] unfolding eq by (simp add: not_less)
  qed
qed

lemma eku_loop_iff:
  "eku_loop L pos acc = Inr oids \<longleftrightarrow>
    (\<exists>bodies new. pos = concat (map (encode_tlv 0x06) bodies) \<and> list_all (tlv_fits 0x06) bodies
       \<and> list_all2 (\<lambda>b o'. oid_from_bytes L b = Some o') bodies new \<and> oids = acc @ new)"
proof
  assume "eku_loop L pos acc = Inr oids"
  then show "\<exists>bodies new. pos = concat (map (encode_tlv 0x06) bodies) \<and> list_all (tlv_fits 0x06) bodies
       \<and> list_all2 (\<lambda>b o'. oid_from_bytes L b = Some o') bodies new \<and> oids = acc @ new"
  proof (induction L pos acc rule: eku_loop.induct)
    case (1 L pos acc)
    show ?case
    proof (cases "pos = []")
      case True
      with 1(2) show ?thesis by (intro exI [of _ "[]"]) (simp add: eku_loop.simps)
    next
      case False
      with 1(2) obtain b rest oid where p: "parse_tlv_with_rest pos = Inr (0x06, b, rest)"
        and o: "oid_from_bytes L b = Some oid" and l: "eku_loop L rest (acc @ [oid]) = Inr oids"
        by (subst (asm) eku_loop.simps) (auto split: sum.splits if_splits option.splits)
      obtain bodies new where "rest = concat (map (encode_tlv 0x06) bodies)"
        "list_all (tlv_fits 0x06) bodies" "list_all2 (\<lambda>b o'. oid_from_bytes L b = Some o') bodies new"
        "oids = acc @ [oid] @ new"
        using 1(1) [OF False p refl refl _ o l] by auto
      with p o show ?thesis
        by (intro exI [of _ "b # bodies"] exI [of _ "oid # new"]) (simp add: tlv_Inr_iff)
    qed
  qed
next
  assume "\<exists>bodies new. pos = concat (map (encode_tlv 0x06) bodies) \<and> list_all (tlv_fits 0x06) bodies
       \<and> list_all2 (\<lambda>b o'. oid_from_bytes L b = Some o') bodies new \<and> oids = acc @ new"
  then obtain bodies new where p: "pos = concat (map (encode_tlv 0x06) bodies)"
    "list_all (tlv_fits 0x06) bodies" "oids = acc @ new"
    and l: "list_all2 (\<lambda>b o'. oid_from_bytes L b = Some o') bodies new" by blast
  from l p show "eku_loop L pos acc = Inr oids"
    by (induction arbitrary: pos acc rule: list_all2_induct)
      (simp_all add: eku_loop.simps parse_encode_tlv)
qed

text \<open>An extKeyUsage value; bytes after the sequence are not looked at.\<close>

definition eku_value :: "lib \<Rightarrow> bytes \<Rightarrow> oid list \<Rightarrow> bool" where
  "eku_value L v oids \<longleftrightarrow>
     (\<exists>bodies rest. v = encode_tlv 0x30 (concat (map (encode_tlv 0x06) bodies)) @ rest
        \<and> length (concat (map (encode_tlv 0x06) bodies)) < 2 ^ 32 \<and> list_all (tlv_fits 0x06) bodies
        \<and> list_all2 (\<lambda>b o'. oid_from_bytes L b = Some o') bodies oids)"

lemma check_extended_key_usage_iff:
  assumes "distinct (ext_ids cert)"
  shows "check_extended_key_usage L cert = Inr oids \<longleftrightarrow>
    (case find_ext cert EKU_OID of None \<Rightarrow> oids = [] | Some e \<Rightarrow> eku_value L (extn_value e) oids)"
proof (cases "find_ext cert EKU_OID")
  case None
  with assms show ?thesis
    by (auto simp: check_extended_key_usage_def find_extension_value_distinct)
next
  case (Some e)
  have seq: "tlv_fits 0x30 v \<longleftrightarrow> length v < 2 ^ 32" for v by (simp add: tlv_fits_def)
  have "check_extended_key_usage L cert = Inr oids \<longleftrightarrow>
      (\<exists>body. parse_tlv (extn_value e) = Inr (0x30, body) \<and> eku_loop L body [] = Inr oids)"
    unfolding check_extended_key_usage_def find_extension_value_distinct [OF assms] Some
    by (auto simp: result_simps)
  also have "\<dots> \<longleftrightarrow> eku_value L (extn_value e) oids"
    unfolding parse_tlv_Inr_iff eku_loop_iff eku_value_def seq by auto
  finally show ?thesis by (simp add: Some)
qed

text \<open>The basicConstraints verdict.\<close>

definition ca_flag :: "certificate \<Rightarrow> bool \<Rightarrow> bool" where
  "ca_flag cert ca \<longleftrightarrow>
     (case find_ext cert BASIC_CONSTRAINTS_OID of
        None \<Rightarrow> \<not> ca
      | Some e \<Rightarrow> \<exists>pl. parse_basic_constraints (extn_value e) = Inr (ca, pl)
                    \<and> (\<forall>p. pl = Some p \<longrightarrow> unat p < 2 ^ 32))"

lemma check_basic_constraints_iff:
  assumes "distinct (ext_ids cert)"
  shows "(\<exists>pl. check_basic_constraints cert = Inr (ca, pl)) \<longleftrightarrow> ca_flag cert ca"
proof (cases "find_ext cert BASIC_CONSTRAINTS_OID")
  case None
  with assms show ?thesis
    by (auto simp: check_basic_constraints_def find_extension_value_distinct ca_flag_def)
next
  case (Some e)
  show ?thesis
    unfolding check_basic_constraints_def find_extension_value_distinct [OF assms] ca_flag_def Some
    by (cases "parse_basic_constraints (extn_value e)") (auto split: option.splits if_splits)
qed

text \<open>What keyUsage must say when it is present.\<close>

definition usage_if_present :: "certificate \<Rightarrow> (bytes \<Rightarrow> bool) \<Rightarrow> bool" where
  "usage_if_present cert Q \<longleftrightarrow>
     (\<forall>e. find_ext cert KEY_USAGE_OID = Some e \<longrightarrow> (\<exists>bits. key_usage_value (extn_value e) bits \<and> Q bits))"

text \<open>The profile of each role.\<close>

fun role_profile :: "lib \<Rightarrow> certificate \<Rightarrow> cert_role \<Rightarrow> bool" where
  "role_profile L cert EndEntity \<longleftrightarrow>
     ca_flag cert False \<and> usage_if_present cert (\<lambda>bits. named_bit bits 0 \<or> named_bit bits 1)"
| "role_profile L cert IntermediateCa \<longleftrightarrow>
     ca_flag cert True \<and> usage_if_present cert (\<lambda>bits. named_bit bits 5)"
| "role_profile L cert CrlSigner \<longleftrightarrow>
     find_ext cert KEY_USAGE_OID \<noteq> None \<and> usage_if_present cert (\<lambda>bits. named_bit bits 6)"
| "role_profile L cert OcspResponder \<longleftrightarrow>
     (\<exists>e oids. find_ext cert EKU_OID = Some e \<and> eku_value L (extn_value e) oids
        \<and> OCSP_SIGNING_EKU_OID \<in> set oids)"
| "role_profile L cert TimestampSigner \<longleftrightarrow>
     ca_flag cert False
     \<and> (\<forall>e. find_ext cert KEY_USAGE_OID = Some e \<longrightarrow>
          (\<exists>unused raw. bit_string_from_der L (extn_value e) = Some (unused, raw) \<and> raw \<noteq> []
             \<and> last raw AND (push_bit unused 1 - 1) = 0 \<and> (named_bit raw 0 \<or> named_bit raw 1)))
     \<and> (\<exists>e. find_ext cert EKU_OID = Some e \<and> critical e
          \<and> eku_value L (extn_value e) [TIMESTAMPING_EKU_OID])"

lemma key_usage_result:
  assumes "distinct (ext_ids cert)"
  shows "(\<exists>ku. check_key_usage cert = Inr ku \<and> P ku) \<longleftrightarrow>
    (case find_ext cert KEY_USAGE_OID of
       None \<Rightarrow> P None
     | Some e \<Rightarrow> \<exists>bits. key_usage_value (extn_value e) bits \<and> P (Some (bits_record bits)))"
  by (auto simp: check_key_usage_iff [OF assms] split: option.splits)

lemma signing_bits:
  assumes "raw \<noteq> []"
  shows "hd raw AND 0xC0 = 0 \<longleftrightarrow> \<not> named_bit raw 0 \<and> \<not> named_bit raw 1"
proof -
  have top: "b AND 0xC0 = 0 \<longleftrightarrow> \<not> bit b 7 \<and> \<not> bit b 6" for b :: u8
  proof -
    have "bit (0xC0 :: u8) n \<longleftrightarrow> n = 7 \<or> n = 6" if "n < 8" for n
    proof -
      have "n \<in> {0, 1, 2, 3, 4, 5, 6, 7}" using that by auto
      then show ?thesis by auto
    qed
    moreover have "b AND 0xC0 = 0 \<longleftrightarrow> (\<forall>n<8. \<not> (bit b n \<and> bit (0xC0 :: u8) n))"
      using bit_eq_iff [of "b AND 0xC0" 0] by (simp add: possible_bit_word bit_and_iff)
    ultimately have "b AND 0xC0 = 0 \<longleftrightarrow> (\<forall>n<8. n = 7 \<or> n = 6 \<longrightarrow> \<not> bit b n)" by blast
    also have "\<dots> \<longleftrightarrow> \<not> bit b 7 \<and> \<not> bit b 6"
    proof -
      have "(7::nat) < 8" "(6::nat) < 8" by simp_all
      then show ?thesis by blast
    qed
    finally show ?thesis .
  qed
  then show ?thesis
    using assms by (cases raw) (simp_all add: bit_set_named [symmetric] bit_set_def low_bit_test)
qed

lemma timestamp_key_usage_iff:
  assumes "distinct (ext_ids cert)"
  shows "require_timestamp_signing_key_usage L cert = Inr () \<longleftrightarrow>
    (\<forall>e. find_ext cert KEY_USAGE_OID = Some e \<longrightarrow>
      (\<exists>unused raw. bit_string_from_der L (extn_value e) = Some (unused, raw) \<and> raw \<noteq> []
         \<and> last raw AND (push_bit unused 1 - 1) = 0 \<and> (named_bit raw 0 \<or> named_bit raw 1)))"
proof (cases "find_ext cert KEY_USAGE_OID")
  case None
  with assms show ?thesis
    by (auto simp: require_timestamp_signing_key_usage_def find_ext_def ext_ids_def
        filter_distinct_find split: option.splits)
next
  case (Some e)
  then have "filter (\<lambda>e. extn_id e = KEY_USAGE_OID) (case extensions cert of None \<Rightarrow> [] | Some es \<Rightarrow> es)
      = [e]"
    using assms by (auto simp: find_ext_def ext_ids_def filter_distinct_find split: option.splits)
  then show ?thesis
    by (auto simp: require_timestamp_signing_key_usage_def Some result_simps signing_bits)
qed

lemma usage_guard:
  "(case ku of None \<Rightarrow> r | Some k \<Rightarrow> if B k then Inl (e k) else Inr ()) = Inr () \<longleftrightarrow>
    (case ku of None \<Rightarrow> r = Inr () | Some k \<Rightarrow> \<not> B k)"
  by (cases ku) auto

lemma bc_guard:
  "and_then r (\<lambda>(is_ca, _). if is_ca = b then Inl e else f) = Inr () \<longleftrightarrow>
    (\<exists>pl. r = Inr (\<not> b, pl)) \<and> f = Inr ()"
  by (cases r) (auto split: if_splits)

lemma bc_guards:
  "and_then r (\<lambda>(is_ca, _). if is_ca then Inl e else f) = Inr () \<longleftrightarrow>
    (\<exists>pl. r = Inr (False, pl)) \<and> f = Inr ()"
  "and_then r (\<lambda>(is_ca, _). if \<not> is_ca then Inl e else f) = Inr () \<longleftrightarrow>
    (\<exists>pl. r = Inr (True, pl)) \<and> f = Inr ()"
  using bc_guard [of r True e f] bc_guard [of r False e f] by simp_all

lemma role_check_iff:
  assumes "distinct (ext_ids cert)"
  shows "role_check L cert role = Inr () \<longleftrightarrow> role_profile L cert role"
proof (cases role)
  case EndEntity
  then show ?thesis
    unfolding EndEntity role_check.simps validate_end_entity_def bc_guards
    unfolding and_then_Inr_iff
      usage_guard check_basic_constraints_iff [OF assms] key_usage_result [OF assms]
    by (cases "find_ext cert KEY_USAGE_OID") (simp_all add: usage_if_present_def bits_record_def)
next
  case IntermediateCa
  then show ?thesis
    unfolding IntermediateCa role_check.simps validate_intermediate_ca_def bc_guards
    unfolding and_then_Inr_iff
      usage_guard check_basic_constraints_iff [OF assms] key_usage_result [OF assms]
    by (cases "find_ext cert KEY_USAGE_OID") (simp_all add: usage_if_present_def bits_record_def)
next
  case CrlSigner
  then show ?thesis
    unfolding CrlSigner role_check.simps validate_crl_signer_def and_then_Inr_iff
      usage_guard key_usage_result [OF assms]
    by (cases "find_ext cert KEY_USAGE_OID") (simp_all add: usage_if_present_def bits_record_def)
next
  case OcspResponder
  have "role_check L cert OcspResponder = Inr () \<longleftrightarrow>
      (\<exists>ekus. check_extended_key_usage L cert = Inr ekus \<and> OCSP_SIGNING_EKU_OID \<in> set ekus)"
    by (auto simp: validate_ocsp_responder_def result_simps split: if_splits)
  then show ?thesis
    unfolding OcspResponder check_extended_key_usage_iff [OF assms] by (auto split: option.splits)
next
  case TimestampSigner
  have "role_check L cert TimestampSigner = Inr () \<longleftrightarrow>
      (\<exists>pl. check_basic_constraints cert = Inr (False, pl))
      \<and> require_timestamp_signing_key_usage L cert = Inr ()
      \<and> (\<exists>e. find_ext cert EKU_OID = Some e \<and> critical e)
      \<and> check_extended_key_usage L cert = Inr [TIMESTAMPING_EKU_OID]"
    unfolding role_check.simps validate_timestamp_signer_def bc_guards
    by (auto simp: result_simps split: if_splits)
  then show ?thesis
    unfolding TimestampSigner check_basic_constraints_iff [OF assms]
      timestamp_key_usage_iff [OF assms] check_extended_key_usage_iff [OF assms]
    by (auto split: option.splits)
qed

subsection \<open>Properties\<close>

text \<open>C10: a certificate is accepted for a PKI role exactly when its extension identifiers are
  pairwise different and it meets the role's profile: an end entity is not a CA and, if keyUsage is
  present, it asserts digitalSignature or contentCommitment (without either it is refused, not only warned
  about, as the documentation has it); an intermediate is a CA with keyCertSign if keyUsage is present; a CRL signer
  must have keyUsage with cRLSign; an OCSP responder must carry the OCSP-signing purpose; a
  timestamp signer is not a CA, may sign, and has a critical extKeyUsage whose only purpose is
  timestamping. Named bits are read from the whole BIT STRING as one number.\<close>

theorem validate_extensions_for_role_iff:
  "validate_extensions_for_role L cert role = Inr () \<longleftrightarrow>
     distinct (ext_ids cert) \<and> role_profile L cert role"
  using role_check_iff validate_role_unfold by blast

text \<open>No certificate passes both as a certificate-issuing intermediate and as an end entity or
  timestamp signer: the two families of profiles are disjoint.\<close>

theorem role_separation:
  assumes "validate_extensions_for_role L cert IntermediateCa = Inr ()"
    and "role \<in> {EndEntity, TimestampSigner}"
  shows "\<exists>e. validate_extensions_for_role L cert role = Inl e"
proof (cases "validate_extensions_for_role L cert role")
  case (Inr u)
  have "ca_flag cert True" "distinct (ext_ids cert)"
    using assms(1) by (auto simp: validate_role_unfold role_check_iff simp del: role_check.simps)
  moreover have "ca_flag cert False"
    using Inr assms(2) by (auto simp: validate_role_unfold role_check_iff simp del: role_check.simps)
  ultimately show ?thesis by (auto simp: ca_flag_def split: option.splits)
qed simp

theorem role_separation_witness:
  "\<exists>e. validate_extensions_for_role toy_lib
     (toy_cert [] [] [1] (Some [\<lparr>extn_id = BASIC_CONSTRAINTS_OID, critical = True,
        extn_value = [0x30, 3, 1, 1, 0xFF]\<rparr>])) EndEntity = Inl e"
proof (rule role_separation)
  show "validate_extensions_for_role toy_lib
     (toy_cert [] [] [1] (Some [\<lparr>extn_id = BASIC_CONSTRAINTS_OID, critical = True,
        extn_value = [0x30, 3, 1, 1, 0xFF]\<rparr>])) IntermediateCa = Inr ()"
    by (simp add: validate_extensions_for_role_def validate_intermediate_ca_def
        check_basic_constraints_def find_extension_value_def check_key_usage_def
        parse_basic_constraints_def bc_read_ca_def bc_read_path_len_def tlv_eval
        BASIC_CONSTRAINTS_OID_def KEY_USAGE_OID_def)
qed simp

end
