(* ===== verification/Algorithm.thy ===== *)
theory Algorithm
  imports Prelude
begin

section \<open>Digest and signature algorithms (\<open>src/src/crypto/algorithm.rs\<close>)\<close>

text \<open>
  The algorithm enumerations with their object identifiers, the allow-list registry used for
  signing profiles, and the hash algorithms of the cryptographic backend they map to. The digests
  themselves are computed by the backend, which is a record of functions: one for a digest at once
  and three for a stream that takes the data in parts.
\<close>

text \<open>Errors of the cryptographic backend: the code tells unsupported algorithms from the rest.\<close>

datatype riptering_error = RipUnsupported string | RipOther string

definition OID_SHA3_256 :: oid where "OID_SHA3_256 = [2, 16, 840, 1, 101, 3, 4, 2, 8]"
definition OID_SHA3_384 :: oid where "OID_SHA3_384 = [2, 16, 840, 1, 101, 3, 4, 2, 9]"
definition OID_SHA3_512 :: oid where "OID_SHA3_512 = [2, 16, 840, 1, 101, 3, 4, 2, 10]"
definition OID_RSASSA_PSS :: oid where "OID_RSASSA_PSS = [1, 2, 840, 113549, 1, 1, 10]"
definition OID_ED25519 :: oid where "OID_ED25519 = [1, 3, 101, 112]"
definition OID_MD5_WITH_RSA :: oid where "OID_MD5_WITH_RSA = [1, 2, 840, 113549, 1, 1, 4]"
definition OID_SHA1_WITH_RSA :: oid where "OID_SHA1_WITH_RSA = [1, 2, 840, 113549, 1, 1, 5]"
definition OID_SHA224_WITH_RSA :: oid where "OID_SHA224_WITH_RSA = [1, 2, 840, 113549, 1, 1, 14]"
definition OID_ECDSA_WITH_SHA1 :: oid where "OID_ECDSA_WITH_SHA1 = [1, 2, 840, 10045, 4, 1]"
definition OID_DSA_WITH_SHA1 :: oid where "OID_DSA_WITH_SHA1 = [1, 2, 840, 10040, 4, 3]"
definition OID_DSA_WITH_SHA256 :: oid where
  "OID_DSA_WITH_SHA256 = [2, 16, 840, 1, 101, 3, 4, 3, 2]"

subsection \<open>Digest algorithms\<close>

datatype digest_algorithm = Sha256 | Sha384 | Sha512 | Sha3_256 | Sha3_384 | Sha3_512

fun digest_oid :: "digest_algorithm \<Rightarrow> oid" where
  "digest_oid Sha256 = [2, 16, 840, 1, 101, 3, 4, 2, 1]"
| "digest_oid Sha384 = [2, 16, 840, 1, 101, 3, 4, 2, 2]"
| "digest_oid Sha512 = [2, 16, 840, 1, 101, 3, 4, 2, 3]"
| "digest_oid Sha3_256 = OID_SHA3_256"
| "digest_oid Sha3_384 = OID_SHA3_384"
| "digest_oid Sha3_512 = OID_SHA3_512"

definition digest_from_oid :: "oid \<Rightarrow> digest_algorithm option" where
  "digest_from_oid oid =
     (if oid = digest_oid Sha256 then Some Sha256
      else if oid = digest_oid Sha384 then Some Sha384
      else if oid = digest_oid Sha512 then Some Sha512
      else if oid = OID_SHA3_256 then Some Sha3_256
      else if oid = OID_SHA3_384 then Some Sha3_384
      else if oid = OID_SHA3_512 then Some Sha3_512
      else None)"

fun output_size :: "digest_algorithm \<Rightarrow> nat" where
  "output_size Sha256 = 32"
| "output_size Sha3_256 = 32"
| "output_size Sha384 = 48"
| "output_size Sha3_384 = 48"
| "output_size Sha512 = 64"
| "output_size Sha3_512 = 64"

fun digest_name :: "digest_algorithm \<Rightarrow> string" where
  "digest_name Sha256 = ''SHA-256''"
| "digest_name Sha384 = ''SHA-384''"
| "digest_name Sha512 = ''SHA-512''"
| "digest_name Sha3_256 = ''SHA3-256''"
| "digest_name Sha3_384 = ''SHA3-384''"
| "digest_name Sha3_512 = ''SHA3-512''"

definition is_sha3 :: "digest_algorithm \<Rightarrow> bool" where
  "is_sha3 a \<longleftrightarrow> a = Sha3_256 \<or> a = Sha3_384 \<or> a = Sha3_512"

definition digest_all :: "digest_algorithm list" where
  "digest_all = [Sha256, Sha384, Sha512, Sha3_256, Sha3_384, Sha3_512]"

text \<open>The hash algorithms of the backend that the program names.\<close>

datatype hash_algorithm =
  HMd5 | HSha1 | HSha224 | HSha256 | HSha384 | HSha512 | HSha3_256 | HSha3_384 | HSha3_512

fun to_hash_algorithm :: "digest_algorithm \<Rightarrow> hash_algorithm" where
  "to_hash_algorithm Sha256 = HSha256"
| "to_hash_algorithm Sha384 = HSha384"
| "to_hash_algorithm Sha512 = HSha512"
| "to_hash_algorithm Sha3_256 = HSha3_256"
| "to_hash_algorithm Sha3_384 = HSha3_384"
| "to_hash_algorithm Sha3_512 = HSha3_512"

definition digest_display :: "digest_algorithm \<Rightarrow> string" where
  "digest_display a = digest_name a"

subsection \<open>Computing digests\<close>

text \<open>The digest functions of the backend; \<open>'h\<close> are the states of its streams.\<close>

record 'h digest_backend =
  backend_digest :: "hash_algorithm \<Rightarrow> bytes \<Rightarrow> (riptering_error, bytes) result"
  backend_new_digest :: "hash_algorithm \<Rightarrow> (riptering_error, 'h) result"
  stream_update :: "'h \<Rightarrow> bytes \<Rightarrow> 'h"
  stream_finalize :: "'h \<Rightarrow> (riptering_error, bytes) result"

definition compute_digest ::
  "'h digest_backend \<Rightarrow> digest_algorithm \<Rightarrow> bytes \<Rightarrow> (riptering_error, bytes) result" where
  "compute_digest B a data = backend_digest B (to_hash_algorithm a) data"

record 'h digest_hasher =
  hasher_inner :: 'h

definition digest_hasher_new :: "'h \<Rightarrow> 'h digest_hasher" where
  "digest_hasher_new inner = \<lparr>hasher_inner = inner\<rparr>"

definition new_hasher ::
  "'h digest_backend \<Rightarrow> digest_algorithm \<Rightarrow> (riptering_error, 'h digest_hasher) result" where
  "new_hasher B a =
     and_then (backend_new_digest B (to_hash_algorithm a)) (\<lambda>inner. Inr (digest_hasher_new inner))"

definition hasher_update :: "'h digest_backend \<Rightarrow> 'h digest_hasher \<Rightarrow> bytes \<Rightarrow> 'h digest_hasher" where
  "hasher_update B h data = h\<lparr>hasher_inner := stream_update B (hasher_inner h) data\<rparr>"

definition hasher_finalize :: "'h digest_backend \<Rightarrow> 'h digest_hasher \<Rightarrow> (riptering_error, bytes) result" where
  "hasher_finalize B h = stream_finalize B (hasher_inner h)"

text \<open>Hashing data that arrives in parts: a new hasher, an update for each part, the result.\<close>

definition digest_chunks ::
  "'h digest_backend \<Rightarrow> digest_algorithm \<Rightarrow> bytes list \<Rightarrow> (riptering_error, bytes) result" where
  "digest_chunks B a chunks =
     and_then (new_hasher B a) (\<lambda>h. hasher_finalize B (foldl (hasher_update B) h chunks))"

subsection \<open>Signature algorithms and the registry\<close>

datatype sig_algorithm = RsaPkcs1v15 | RsaPss | EcdsaP256 | EcdsaP384 | Ed25519

fun sig_name :: "sig_algorithm \<Rightarrow> string" where
  "sig_name RsaPkcs1v15 = ''RSA-PKCS1-v1.5''"
| "sig_name RsaPss = ''RSA-PSS''"
| "sig_name EcdsaP256 = ''ECDSA-P256''"
| "sig_name EcdsaP384 = ''ECDSA-P384''"
| "sig_name Ed25519 = ''Ed25519''"

definition sig_display :: "sig_algorithm \<Rightarrow> string" where
  "sig_display a = sig_name a"

definition sig_all :: "sig_algorithm list" where
  "sig_all = [RsaPkcs1v15, RsaPss, EcdsaP256, EcdsaP384, Ed25519]"

record algorithm_registry =
  allowed_digests :: "digest_algorithm list"
  allowed_signatures :: "sig_algorithm list"
  configured :: bool

definition registry_new :: algorithm_registry where
  "registry_new = \<lparr>allowed_digests = [], allowed_signatures = [], configured = True\<rparr>"

definition registry_allow_all :: algorithm_registry where
  "registry_allow_all =
     \<lparr>allowed_digests = digest_all, allowed_signatures = sig_all, configured = True\<rparr>"

definition registry_default :: algorithm_registry where
  "registry_default = registry_allow_all"

definition registry_standard :: algorithm_registry where
  "registry_standard =
     \<lparr>allowed_digests = [Sha256, Sha384, Sha512],
      allowed_signatures = [RsaPkcs1v15, RsaPss, EcdsaP256, EcdsaP384], configured = True\<rparr>"

definition allow_digest :: "algorithm_registry \<Rightarrow> digest_algorithm \<Rightarrow> algorithm_registry" where
  "allow_digest r alg =
     (if alg \<notin> set (allowed_digests r) then r\<lparr>allowed_digests := allowed_digests r @ [alg]\<rparr> else r)"

definition allow_signature :: "algorithm_registry \<Rightarrow> sig_algorithm \<Rightarrow> algorithm_registry" where
  "allow_signature r alg =
     (if alg \<notin> set (allowed_signatures r)
      then r\<lparr>allowed_signatures := allowed_signatures r @ [alg]\<rparr> else r)"

definition is_digest_allowed :: "algorithm_registry \<Rightarrow> digest_algorithm \<Rightarrow> bool" where
  "is_digest_allowed r alg = (if \<not> configured r then True else alg \<in> set (allowed_digests r))"

definition is_signature_allowed :: "algorithm_registry \<Rightarrow> sig_algorithm \<Rightarrow> bool" where
  "is_signature_allowed r alg = (if \<not> configured r then True else alg \<in> set (allowed_signatures r))"

datatype registry_error = SignatureNotAllowed sig_algorithm | DigestNotAllowed digest_algorithm

definition registry_validate ::
  "algorithm_registry \<Rightarrow> sig_algorithm \<Rightarrow> digest_algorithm \<Rightarrow> (registry_error, unit) result" where
  "registry_validate r sig_alg digest_alg =
     (if \<not> is_signature_allowed r sig_alg then Inl (SignatureNotAllowed sig_alg)
      else if \<not> is_digest_allowed r digest_alg then Inl (DigestNotAllowed digest_alg)
      else Inr ())"

subsection \<open>Facts\<close>

lemmas sig_oids = OID_SHA3_256_def OID_SHA3_384_def OID_SHA3_512_def OID_RSASSA_PSS_def
  OID_ED25519_def OID_MD5_WITH_RSA_def OID_SHA1_WITH_RSA_def OID_SHA224_WITH_RSA_def
  OID_ECDSA_WITH_SHA1_def OID_DSA_WITH_SHA1_def OID_DSA_WITH_SHA256_def

lemma digest_oid_inject: "digest_oid a = digest_oid b \<longleftrightarrow> a = b"
  by (cases a; cases b) (simp_all add: sig_oids)

text \<open>The lists of all algorithms are the enumerations of the types.\<close>

instantiation digest_algorithm :: enum
begin

definition enum_digest_algorithm :: "digest_algorithm list" where "enum_digest_algorithm = digest_all"

definition enum_all_digest_algorithm :: "(digest_algorithm \<Rightarrow> bool) \<Rightarrow> bool" where
  "enum_all_digest_algorithm P = list_all P digest_all"

definition enum_ex_digest_algorithm :: "(digest_algorithm \<Rightarrow> bool) \<Rightarrow> bool" where
  "enum_ex_digest_algorithm P = list_ex P digest_all"

instance
proof
  have "x \<in> set digest_all" for x by (cases x) (simp_all add: digest_all_def)
  then show all: "UNIV = set (Enum.enum :: digest_algorithm list)" by (auto simp: enum_digest_algorithm_def)
  show "distinct (Enum.enum :: digest_algorithm list)" by (simp add: enum_digest_algorithm_def digest_all_def)
  show "Enum.enum_all P \<longleftrightarrow> Ball UNIV P" "Enum.enum_ex P \<longleftrightarrow> Bex UNIV P" for P :: "digest_algorithm \<Rightarrow> bool"
    unfolding all by (simp_all add: enum_all_digest_algorithm_def enum_ex_digest_algorithm_def enum_digest_algorithm_def
        list_all_iff list_ex_iff)
qed

end

instantiation sig_algorithm :: enum
begin

definition enum_sig_algorithm :: "sig_algorithm list" where "enum_sig_algorithm = sig_all"

definition enum_all_sig_algorithm :: "(sig_algorithm \<Rightarrow> bool) \<Rightarrow> bool" where
  "enum_all_sig_algorithm P = list_all P sig_all"

definition enum_ex_sig_algorithm :: "(sig_algorithm \<Rightarrow> bool) \<Rightarrow> bool" where
  "enum_ex_sig_algorithm P = list_ex P sig_all"

instance
proof
  have "x \<in> set sig_all" for x by (cases x) (simp_all add: sig_all_def)
  then show all: "UNIV = set (Enum.enum :: sig_algorithm list)" by (auto simp: enum_sig_algorithm_def)
  show "distinct (Enum.enum :: sig_algorithm list)" by (simp add: enum_sig_algorithm_def sig_all_def)
  show "Enum.enum_all P \<longleftrightarrow> Ball UNIV P" "Enum.enum_ex P \<longleftrightarrow> Bex UNIV P" for P :: "sig_algorithm \<Rightarrow> bool"
    unfolding all by (simp_all add: enum_all_sig_algorithm_def enum_ex_sig_algorithm_def enum_sig_algorithm_def
        list_all_iff list_ex_iff)
qed

end

lemma digest_from_oid_iff: "digest_from_oid oid = Some a \<longleftrightarrow> oid = digest_oid a"
proof
  show "digest_from_oid oid = Some a \<Longrightarrow> oid = digest_oid a"
    by (auto simp: digest_from_oid_def split: if_splits)
  show "oid = digest_oid a \<Longrightarrow> digest_from_oid oid = Some a"
    by (cases a) (simp_all add: digest_from_oid_def sig_oids)
qed

text \<open>A registry built by any sequence of the builder operations.\<close>

definition build_registry ::
  "(digest_algorithm + sig_algorithm) list \<Rightarrow> algorithm_registry \<Rightarrow> algorithm_registry" where
  "build_registry ops r =
     foldl (\<lambda>r a. case a of Inl d \<Rightarrow> allow_digest r d | Inr s \<Rightarrow> allow_signature r s) r ops"

lemma build_registry_fields:
  "configured (build_registry ops r) = configured r \<and>
   set (allowed_digests (build_registry ops r)) = set (allowed_digests r) \<union> {d. Inl d \<in> set ops} \<and>
   set (allowed_signatures (build_registry ops r)) = set (allowed_signatures r) \<union> {s. Inr s \<in> set ops} \<and>
   (distinct (allowed_digests r) \<longrightarrow> distinct (allowed_digests (build_registry ops r))) \<and>
   (distinct (allowed_signatures r) \<longrightarrow> distinct (allowed_signatures (build_registry ops r)))"
proof (induction ops arbitrary: r)
  case Nil
  then show ?case by (simp add: build_registry_def)
next
  case (Cons a ops)
  have step: "build_registry (a # ops) r =
      build_registry ops (case a of Inl d \<Rightarrow> allow_digest r d | Inr s \<Rightarrow> allow_signature r s)"
    by (simp add: build_registry_def)
  show ?case
    unfolding step using Cons.IH
    by (cases a) (auto simp: allow_digest_def allow_signature_def)
qed

subsection \<open>Properties\<close>

text \<open>The object identifiers of the digest algorithms are pairwise different and decode back:
  an identifier names a digest exactly when it is that digest's own. In particular the weak digests
  SHA-1, SHA-224 and MD5 are not representable.\<close>

theorem digest_from_oid_roundtrip:
  "(digest_from_oid oid = Some a \<longleftrightarrow> oid = digest_oid a)
   \<and> set digest_all = UNIV
   \<and> digest_from_oid [1, 3, 14, 3, 2, 26] = None
   \<and> digest_from_oid [2, 16, 840, 1, 101, 3, 4, 2, 4] = None
   \<and> digest_from_oid [1, 2, 840, 113549, 2, 5] = None"
proof (intro conjI)
  show "set digest_all = UNIV" by (simp add: UNIV_enum enum_digest_algorithm_def)
qed (rule digest_from_oid_iff, simp_all add: digest_from_oid_def sig_oids)

text \<open>Data hashed in parts has the digest of the whole, however it is split, for a backend whose
  streams start empty, take one more part at a time and finish with the digest of what they took.
  \<open>taken h data\<close> says that the stream \<open>h\<close> has taken \<open>data\<close>.\<close>

theorem digest_chunks_eq:
  assumes new: "\<And>alg h. backend_new_digest B alg = Inr h \<Longrightarrow> taken alg h []"
    and update: "\<And>alg h seen data. taken alg h seen \<Longrightarrow> taken alg (stream_update B h data) (seen @ data)"
    and finalize: "\<And>alg h seen. taken alg h seen \<Longrightarrow> stream_finalize B h = backend_digest B alg seen"
    and hasher: "new_hasher B a = Inr h"
  shows "digest_chunks B a chunks = compute_digest B a (concat chunks)"
proof -
  let ?alg = "to_hash_algorithm a"
  have "taken ?alg (hasher_inner h') seen \<Longrightarrow>
      taken ?alg (hasher_inner (foldl (hasher_update B) h' chunks)) (seen @ concat chunks)" for h' seen
  proof (induction chunks arbitrary: h' seen)
    case (Cons c chunks)
    from update [OF Cons.prems, of c] have "taken ?alg (hasher_inner (hasher_update B h' c)) (seen @ c)"
      by (simp add: hasher_update_def)
    from Cons.IH [OF this] show ?case by simp
  qed simp
  moreover from hasher have "taken ?alg (hasher_inner h) []"
    by (auto simp: new_hasher_def digest_hasher_new_def result_simps intro: new)
  ultimately have "taken ?alg (hasher_inner (foldl (hasher_update B) h chunks)) (concat chunks)"
    by (metis append_Nil)
  with hasher show ?thesis
    by (simp add: digest_chunks_def hasher_finalize_def compute_digest_def finalize)
qed

text \<open>A backend whose digest is the exclusive or of the bytes, with the running value as the stream.\<close>

definition toy_digest_backend :: "(hash_algorithm \<times> u8) digest_backend" where
  "toy_digest_backend = \<lparr>
     backend_digest = (\<lambda>_ data. Inr [foldl (XOR) 0 data]),
     backend_new_digest = (\<lambda>alg. if alg = HMd5 then Inl (RipUnsupported ''MD5'') else Inr (alg, 0)),
     stream_update = (\<lambda>(alg, s) data. (alg, foldl (XOR) s data)),
     stream_finalize = (\<lambda>(alg, s). Inr [s])\<rparr>"

theorem digest_chunks_eq_witness:
  "digest_chunks toy_digest_backend Sha256 [[1, 2], [], [4]] = compute_digest toy_digest_backend Sha256 (concat [[1, 2], [], [4]])"
  by (rule digest_chunks_eq [where taken = "\<lambda>alg h seen. h = (alg, foldl (XOR) 0 seen)"
        and h = "digest_hasher_new (HSha256, 0)"])
    (auto simp: toy_digest_backend_def new_hasher_def split: if_splits)

text \<open>A registry started empty and built by any sequence of allow operations accepts a
  combination exactly when both of its algorithms were allowed, whatever the order and repetition
  of the operations; the signature algorithm is reported first.\<close>

theorem registry_validate_iff:
  "(registry_validate (build_registry ops registry_new) s d = Inr ()
      \<longleftrightarrow> Inr s \<in> set ops \<and> Inl d \<in> set ops)
   \<and> (Inr s \<notin> set ops \<longrightarrow>
        registry_validate (build_registry ops registry_new) s d = Inl (SignatureNotAllowed s))
   \<and> distinct (allowed_digests (build_registry ops registry_new))
   \<and> distinct (allowed_signatures (build_registry ops registry_new))"
  using build_registry_fields [of ops registry_new]
  by (auto simp: registry_validate_def is_signature_allowed_def is_digest_allowed_def registry_new_def)

theorem registry_validate_iff_witness:
  "registry_validate (build_registry [Inl Sha256] registry_new) RsaPss Sha256
     = Inl (SignatureNotAllowed RsaPss)"
  using registry_validate_iff [of "[Inl Sha256]" RsaPss Sha256] by simp

text \<open>The default registry admits every combination of the algorithms it can name; the standard one
  admits neither SHA-3 nor Ed25519.\<close>

theorem registry_default_admits:
  "registry_validate registry_default s d = Inr ()
   \<and> (registry_validate registry_standard s d = Inr () \<longleftrightarrow> \<not> is_sha3 d \<and> s \<noteq> Ed25519)"
proof -
  have all: "s' \<in> set sig_all" "d' \<in> set digest_all" for s' d'
    by (simp_all add: enum_sig_algorithm_def [symmetric] enum_digest_algorithm_def [symmetric] UNIV_enum [symmetric])
  show ?thesis
    by (cases s; cases d) (simp_all add: all registry_validate_def is_signature_allowed_def is_digest_allowed_def registry_default_def
        registry_allow_all_def registry_standard_def is_sha3_def)
qed

end
