(* ===== verification/Trust_Error.thy ===== *)
theory Trust_Error
  imports Name_Constraints X509_Ext Algorithm
begin

section \<open>Trust errors (\<open>TrustError\<close> of \<open>src/src/error.rs\<close>)\<close>

text \<open>
  The error type shared by signature verification, the trust store and the chain builder. The
  constructors are the source's variants; a variant's message string is a datatype with one
  constructor per message the code formats, holding the values it formats.
\<close>

datatype ec_curve = P256 | P384 | P521
datatype ecdsa_hash = EcSha1 | EcSha256 | EcSha384 | EcSha512

datatype key_algorithm = KRsa | KDsa | KEc ec_curve | KEd25519

datatype backend_signature =
    SRsaPkcs1v15 hash_algorithm
  | SRsaPss hash_algorithm
  | SEcdsa ec_curve hash_algorithm
  | SDsa hash_algorithm
  | SEd25519

text \<open>\<open>SignatureVerification\<close> messages.\<close>

datatype sig_msg =
    SigNotEcPublicKey oid
  | SigMissingNamedCurve
  | SigNamedCurveNotOid
  | SigUnsupportedCurve oid
  | SigSpkiDecode
  | SigCurveHash ec_curve ecdsa_hash
  | SigBackend string
  | SigInvalid backend_signature
  | SigPssInvalid
  | SigPssReencode
  | SigPssDecode
  | SigAlgorithmMismatch algorithm_identifier algorithm_identifier
  | SigTbsEncoding
  | SigSpkiEncoding
  | SigCmsHash digest_algorithm digest_algorithm
  | SigCmsPssHash digest_algorithm digest_algorithm

text \<open>\<open>UnsupportedAlgorithm\<close> messages.\<close>

datatype unsupported_msg =
    UnsBackend string
  | UnsMd5NeedsLegacy
  | UnsDsaNeedsLegacy
  | UnsSignatureOid oid
  | UnsPssMissingParameters
  | UnsPssHash oid
  | UnsPssMaskGen oid
  | UnsPssMgfHash "oid option" oid
  | UnsPssTrailer nat
  | UnsPssDigest digest_algorithm

text \<open>The labels the path validator passes to its checks.\<close>

datatype cert_label =
    CertificateAt nat
  | IssuerAt nat
  | IntermediateIndex nat
  | TrustAnchorLabel

text \<open>\<open>CertificateParse\<close> messages.\<close>

datatype parse_msg =
    ParseBasicConstraints der_error
  | ParseKuTlv der_error
  | ParseKuTrailing
  | ParseKuTag u8
  | ParseKuMissingUnused
  | ParseKuUnused u8
  | ParseKuNoContent
  | ParseKuPadding u8
  | ParseDerDecode
  | ParseDerEncode
  | ParsePemUtf8
  | ParseBase64
  | ParseNoPemBlocks
  | ParseAnchorLookup

datatype io_error = IoError string

datatype trust_error =
    CertificateParse parse_msg
  | AnchorFileParse rstr trust_error
  | NotADirectory rstr
  | EmptyChain
  | ChainBroken (te_index: nat) (expected_issuer: name) (found_subject: "name option")
  | NotYetValid nat datetime
  | Expired nat datetime
  | UntrustedRoot name
  | SignatureVerification sig_msg
  | ProfileViolation profile_msg
  | UnsupportedAlgorithm unsupported_msg
  | WeakAlgorithm oid
  | StoreNotConfigured string
  | Io io_error
  | IoAnchorFile rstr io_error
and profile_msg =
    PvNotCa cert_label
  | PvNoKeyCertSign cert_label
  | PvBasicConstraintsFor cert_label trust_error
  | PvBasicConstraintsBelow cert_label trust_error
  | PvPathLen u64 cert_label nat
  | PvDuplicate cert_label oid
  | PvCriticalCaEku cert_label
  | PvUnknownCritical cert_label oid
  | PvNameConstraint name name_constraint_error
  | PvPurpose cert_role x509_error

text \<open>
  \<open>found_subject = None\<close> is the text \<open>no matching certificate in pool\<close>. \<open>AnchorFileParse\<close> and
  \<open>IoAnchorFile\<close> are the \<open>CertificateParse\<close> and \<open>Io\<close> errors that the directory loader rebuilds with
  the name of the offending file.
\<close>

end
