(* ===== verification/Verify.thy ===== *)
theory Verify
  imports Trust_Error
begin

section \<open>Signature verification (\<open>src/src/crypto/verify.rs\<close>)\<close>

text \<open>
  Dispatch of a signature to the cryptographic backend by algorithm identifier, under the policy
  on weak digests. The backend (\<open>riptering\<close>) and the decoders of the \<open>der\<close> and \<open>spki\<close> crates are the
  fields of the record \<open>crypto\<close>; a loaded key is represented by the arguments it was loaded from,
  a verifier by the arguments it was made from. \<open>legacy_algorithms\<close> is the build feature of that
  name.
\<close>

definition OID_MGF1 :: oid where "OID_MGF1 = [1, 2, 840, 113549, 1, 1, 8]"
definition OID_EC_PUBLIC_KEY :: oid where "OID_EC_PUBLIC_KEY = [1, 2, 840, 10045, 2, 1]"
definition OID_CURVE_P256 :: oid where "OID_CURVE_P256 = [1, 2, 840, 10045, 3, 1, 7]"
definition OID_CURVE_P384 :: oid where "OID_CURVE_P384 = [1, 3, 132, 0, 34]"
definition OID_CURVE_P521 :: oid where "OID_CURVE_P521 = [1, 3, 132, 0, 35]"
definition SHA1_OID :: oid where "SHA1_OID = [1, 3, 14, 3, 2, 26]"

text \<open>Identifiers of the \<open>const_oid\<close> database used in the dispatch.\<close>

definition SHA_256_WITH_RSA_ENCRYPTION :: oid where
  "SHA_256_WITH_RSA_ENCRYPTION = [1, 2, 840, 113549, 1, 1, 11]"
definition SHA_384_WITH_RSA_ENCRYPTION :: oid where
  "SHA_384_WITH_RSA_ENCRYPTION = [1, 2, 840, 113549, 1, 1, 12]"
definition SHA_512_WITH_RSA_ENCRYPTION :: oid where
  "SHA_512_WITH_RSA_ENCRYPTION = [1, 2, 840, 113549, 1, 1, 13]"
definition ECDSA_WITH_SHA_256 :: oid where "ECDSA_WITH_SHA_256 = [1, 2, 840, 10045, 4, 3, 2]"
definition ECDSA_WITH_SHA_384 :: oid where "ECDSA_WITH_SHA_384 = [1, 2, 840, 10045, 4, 3, 3]"
definition ECDSA_WITH_SHA_512 :: oid where "ECDSA_WITH_SHA_512 = [1, 2, 840, 10045, 4, 3, 4]"

lemmas verify_oids = sig_oids OID_MGF1_def OID_EC_PUBLIC_KEY_def OID_CURVE_P256_def
  OID_CURVE_P384_def OID_CURVE_P521_def SHA1_OID_def SHA_256_WITH_RSA_ENCRYPTION_def
  SHA_384_WITH_RSA_ENCRYPTION_def SHA_512_WITH_RSA_ENCRYPTION_def ECDSA_WITH_SHA_256_def
  ECDSA_WITH_SHA_384_def ECDSA_WITH_SHA_512_def

subsection \<open>The backend and the decoders\<close>

datatype software_key = SoftwareKey key_algorithm bytes

datatype software_verifier =
    SoftwareVerifier backend_signature software_key
  | RsaPssWithSalt hash_algorithm nat software_key

text \<open>What the \<open>der\<close> reader finds of the four optional fields of \<open>RSASSA-PSS-params\<close>.\<close>

record pss_fields =
  pf_hash :: "algorithm_identifier option"
  pf_mask_gen :: "(oid \<times> algorithm_identifier option) option"
  pf_salt_len :: "nat option"
  pf_trailer :: "nat option"

record crypto =
  legacy_algorithms :: bool
  load_key :: "software_key \<Rightarrow> (riptering_error, unit) result"
  make_verifier :: "software_verifier \<Rightarrow> (riptering_error, unit) result"
  verify_der_signature :: "software_verifier \<Rightarrow> bytes \<Rightarrow> bytes \<Rightarrow> (riptering_error, bool) result"
  spki_algorithm_from_der :: "bytes \<Rightarrow> algorithm_identifier option"
  any_as_oid :: "any \<Rightarrow> oid option"
  any_to_der :: "any \<Rightarrow> bytes option"
  read_pss_fields :: "bytes \<Rightarrow> pss_fields option"

subsection \<open>ECDSA keys and the backend call\<close>

definition ec_named_curve :: "crypto \<Rightarrow> algorithm_identifier \<Rightarrow> (trust_error, ec_curve) result" where
  "ec_named_curve K alg =
     (if alg_oid alg \<noteq> OID_EC_PUBLIC_KEY
      then Inl (SignatureVerification (SigNotEcPublicKey (alg_oid alg)))
      else
        and_then (ok_or (SignatureVerification SigMissingNamedCurve) (alg_parameters alg)) (\<lambda>params.
        and_then (ok_or (SignatureVerification SigNamedCurveNotOid) (any_as_oid K params)) (\<lambda>curve_oid.
          if curve_oid = OID_CURVE_P256 then Inr P256
          else if curve_oid = OID_CURVE_P384 then Inr P384
          else if curve_oid = OID_CURVE_P521 then Inr P521
          else Inl (SignatureVerification (SigUnsupportedCurve curve_oid)))))"

fun map_backend_error :: "riptering_error \<Rightarrow> trust_error" where
  "map_backend_error (RipUnsupported s) = UnsupportedAlgorithm (UnsBackend s)"
| "map_backend_error (RipOther s) = SignatureVerification (SigBackend s)"

definition verify_with_backend ::
  "crypto \<Rightarrow> bytes \<Rightarrow> bytes \<Rightarrow> bytes \<Rightarrow> key_algorithm \<Rightarrow> backend_signature \<Rightarrow> nat option
    \<Rightarrow> (trust_error, unit) result" where
  "verify_with_backend K tbs sig spki_der key_alg sig_alg rsa_pss_salt_len =
     (let key = SoftwareKey key_alg spki_der;
          verifier = (case (sig_alg, rsa_pss_salt_len) of
             (SRsaPss hash, Some salt_len) \<Rightarrow> RsaPssWithSalt hash salt_len key
           | _ \<Rightarrow> SoftwareVerifier sig_alg key)
      in
        and_then (map_err map_backend_error (load_key K key)) (\<lambda>_.
        and_then (map_err map_backend_error (make_verifier K verifier)) (\<lambda>_.
        and_then (map_err map_backend_error (verify_der_signature K verifier tbs sig)) (\<lambda>ok.
          if ok then Inr () else Inl (SignatureVerification (SigInvalid sig_alg))))))"

text \<open>The conformant curve and hash pairs.\<close>

fun ecdsa_pair :: "ec_curve \<Rightarrow> ecdsa_hash \<Rightarrow> (ec_curve \<times> hash_algorithm) option" where
  "ecdsa_pair P256 EcSha256 = Some (P256, HSha256)"
| "ecdsa_pair P384 EcSha384 = Some (P384, HSha384)"
| "ecdsa_pair P521 EcSha512 = Some (P521, HSha512)"
| "ecdsa_pair P521 EcSha256 = Some (P521, HSha256)"
| "ecdsa_pair P521 EcSha384 = Some (P521, HSha384)"
| "ecdsa_pair P256 EcSha1 = Some (P256, HSha1)"
| "ecdsa_pair P384 EcSha1 = Some (P384, HSha1)"
| "ecdsa_pair _ _ = None"

definition verify_ecdsa_bound ::
  "crypto \<Rightarrow> bytes \<Rightarrow> bytes \<Rightarrow> bytes \<Rightarrow> ecdsa_hash \<Rightarrow> (trust_error, unit) result" where
  "verify_ecdsa_bound K tbs sig spki_der hash =
     and_then (ok_or (SignatureVerification SigSpkiDecode) (spki_algorithm_from_der K spki_der)) (\<lambda>alg.
     and_then (ec_named_curve K alg) (\<lambda>curve.
       case ecdsa_pair curve hash of
         None \<Rightarrow> Inl (SignatureVerification (SigCurveHash curve hash))
       | Some (c, h) \<Rightarrow> verify_with_backend K tbs sig spki_der (KEc c) (SEcdsa c h) None))"

definition verify_legacy_md5_rsa ::
  "crypto \<Rightarrow> bytes \<Rightarrow> bytes \<Rightarrow> bytes \<Rightarrow> (trust_error, unit) result" where
  "verify_legacy_md5_rsa K tbs sig spki_der =
     (if legacy_algorithms K then verify_with_backend K tbs sig spki_der KRsa (SRsaPkcs1v15 HMd5) None
      else Inl (UnsupportedAlgorithm UnsMd5NeedsLegacy))"

definition verify_dsa ::
  "crypto \<Rightarrow> bytes \<Rightarrow> bytes \<Rightarrow> bytes \<Rightarrow> hash_algorithm \<Rightarrow> (trust_error, unit) result" where
  "verify_dsa K tbs sig spki_der hash =
     (if legacy_algorithms K then verify_with_backend K tbs sig spki_der KDsa (SDsa hash) None
      else Inl (UnsupportedAlgorithm UnsDsaNeedsLegacy))"

subsection \<open>Policy and dispatch\<close>

record signature_policy =
  allow_legacy :: bool

definition policy_strict :: signature_policy where
  "policy_strict = \<lparr>allow_legacy = False\<rparr>"

definition policy_allow_legacy :: signature_policy where
  "policy_allow_legacy = \<lparr>allow_legacy = True\<rparr>"

definition policy_default :: signature_policy where
  "policy_default = policy_strict"

definition is_weak_signature_oid :: "oid \<Rightarrow> bool" where
  "is_weak_signature_oid oid \<longleftrightarrow>
     oid = OID_MD5_WITH_RSA \<or> oid = OID_SHA1_WITH_RSA \<or> oid = OID_SHA224_WITH_RSA
     \<or> oid = OID_ECDSA_WITH_SHA1 \<or> oid = OID_DSA_WITH_SHA1"

text \<open>The \<open>find_map\<close> over the digests a bare RSASSA-PSS identifier may mean.\<close>

fun verify_pss_any :: "crypto \<Rightarrow> bytes \<Rightarrow> bytes \<Rightarrow> bytes \<Rightarrow> hash_algorithm list \<Rightarrow> (trust_error, unit) result"
  where
  "verify_pss_any K tbs sig spki_der [] = Inl (SignatureVerification SigPssInvalid)"
| "verify_pss_any K tbs sig spki_der (h # hs) =
     (case verify_with_backend K tbs sig spki_der KRsa (SRsaPss h) None of
        Inr _ \<Rightarrow> Inr ()
      | Inl _ \<Rightarrow> verify_pss_any K tbs sig spki_der hs)"

definition verify_signature_by_oid_with_policy ::
  "crypto \<Rightarrow> bytes \<Rightarrow> bytes \<Rightarrow> bytes \<Rightarrow> oid \<Rightarrow> signature_policy \<Rightarrow> (trust_error, unit) result" where
  "verify_signature_by_oid_with_policy K tbs sig spki_der oid policy =
     (if \<not> allow_legacy policy \<and> is_weak_signature_oid oid then Inl (WeakAlgorithm oid)
      else if oid = OID_MD5_WITH_RSA then verify_legacy_md5_rsa K tbs sig spki_der
      else if oid = OID_SHA1_WITH_RSA
        then verify_with_backend K tbs sig spki_der KRsa (SRsaPkcs1v15 HSha1) None
      else if oid = OID_SHA224_WITH_RSA
        then verify_with_backend K tbs sig spki_der KRsa (SRsaPkcs1v15 HSha224) None
      else if oid = SHA_256_WITH_RSA_ENCRYPTION
        then verify_with_backend K tbs sig spki_der KRsa (SRsaPkcs1v15 HSha256) None
      else if oid = SHA_384_WITH_RSA_ENCRYPTION
        then verify_with_backend K tbs sig spki_der KRsa (SRsaPkcs1v15 HSha384) None
      else if oid = SHA_512_WITH_RSA_ENCRYPTION
        then verify_with_backend K tbs sig spki_der KRsa (SRsaPkcs1v15 HSha512) None
      else if oid = OID_RSASSA_PSS then verify_pss_any K tbs sig spki_der [HSha256, HSha384, HSha512]
      else if oid = OID_ECDSA_WITH_SHA1 then verify_ecdsa_bound K tbs sig spki_der EcSha1
      else if oid = OID_DSA_WITH_SHA1 then verify_dsa K tbs sig spki_der HSha1
      else if oid = OID_DSA_WITH_SHA256 then verify_dsa K tbs sig spki_der HSha256
      else if oid = ECDSA_WITH_SHA_256 then verify_ecdsa_bound K tbs sig spki_der EcSha256
      else if oid = ECDSA_WITH_SHA_384 then verify_ecdsa_bound K tbs sig spki_der EcSha384
      else if oid = ECDSA_WITH_SHA_512 then verify_ecdsa_bound K tbs sig spki_der EcSha512
      else if oid = OID_ED25519 then verify_with_backend K tbs sig spki_der KEd25519 SEd25519 None
      else Inl (UnsupportedAlgorithm (UnsSignatureOid oid)))"

definition verify_signature_by_oid ::
  "crypto \<Rightarrow> bytes \<Rightarrow> bytes \<Rightarrow> bytes \<Rightarrow> oid \<Rightarrow> (trust_error, unit) result" where
  "verify_signature_by_oid K tbs sig spki_der oid =
     verify_signature_by_oid_with_policy K tbs sig spki_der oid policy_default"

subsection \<open>RSASSA-PSS with parameters\<close>

record rsa_pss_params =
  pss_hash :: algorithm_identifier
  pss_mask_gen :: "oid \<times> algorithm_identifier option"
  pss_salt_len :: nat
  pss_trailer_field :: nat

text \<open>\<open>RsaPssParamsRef::decode_value\<close>: absent fields take the defaults of RFC 4055; the parameters
  of the default hash are an ASN.1 NULL.\<close>

definition pss_default_hash :: algorithm_identifier where
  "pss_default_hash = \<lparr>alg_oid = SHA1_OID, alg_parameters = Some (Any 0x05 [])\<rparr>"

definition rsa_pss_params_from_der :: "crypto \<Rightarrow> bytes \<Rightarrow> rsa_pss_params option" where
  "rsa_pss_params_from_der K d =
     map_option (\<lambda>f.
       \<lparr>pss_hash = (case pf_hash f of None \<Rightarrow> pss_default_hash | Some h \<Rightarrow> h),
        pss_mask_gen = (case pf_mask_gen f of None \<Rightarrow> (OID_MGF1, Some pss_default_hash) | Some m \<Rightarrow> m),
        pss_salt_len = (case pf_salt_len f of None \<Rightarrow> 20 | Some s \<Rightarrow> s),
        pss_trailer_field = (case pf_trailer f of None \<Rightarrow> 1 | Some t \<Rightarrow> t)\<rparr>)
     (read_pss_fields K d)"

definition verify_rsa_pss_signature_strict ::
  "crypto \<Rightarrow> bytes \<Rightarrow> bytes \<Rightarrow> bytes \<Rightarrow> any option \<Rightarrow> (trust_error, digest_algorithm) result" where
  "verify_rsa_pss_signature_strict K tbs sig spki_der parameters =
     and_then (ok_or (UnsupportedAlgorithm UnsPssMissingParameters) parameters) (\<lambda>params_any.
     and_then (ok_or (SignatureVerification SigPssReencode) (any_to_der K params_any)) (\<lambda>params_der.
     and_then (ok_or (SignatureVerification SigPssDecode) (rsa_pss_params_from_der K params_der)) (\<lambda>params.
     let hash_oid = alg_oid (pss_hash params); mgf1_hash_oid = map_option alg_oid (snd (pss_mask_gen params)) in
     and_then (ok_or (UnsupportedAlgorithm (UnsPssHash hash_oid)) (digest_from_oid hash_oid)) (\<lambda>hash.
       if fst (pss_mask_gen params) \<noteq> OID_MGF1
       then Inl (UnsupportedAlgorithm (UnsPssMaskGen (fst (pss_mask_gen params))))
       else if mgf1_hash_oid \<noteq> Some hash_oid
       then Inl (UnsupportedAlgorithm (UnsPssMgfHash mgf1_hash_oid hash_oid))
       else if pss_trailer_field params \<noteq> 1
       then Inl (UnsupportedAlgorithm (UnsPssTrailer (pss_trailer_field params)))
       else
         and_then (case hash of
             Sha256 \<Rightarrow> Inr HSha256
           | Sha384 \<Rightarrow> Inr HSha384
           | Sha512 \<Rightarrow> Inr HSha512
           | other \<Rightarrow> Inl (UnsupportedAlgorithm (UnsPssDigest other))) (\<lambda>backend_hash.
         and_then (verify_with_backend K tbs sig spki_der KRsa (SRsaPss backend_hash)
             (Some (pss_salt_len params))) (\<lambda>_.
           Inr hash))))))"

definition verify_signature_by_algid_with_policy ::
  "crypto \<Rightarrow> bytes \<Rightarrow> bytes \<Rightarrow> bytes \<Rightarrow> algorithm_identifier \<Rightarrow> signature_policy
    \<Rightarrow> (trust_error, unit) result" where
  "verify_signature_by_algid_with_policy K tbs sig spki_der sig_alg policy =
     (if alg_oid sig_alg = OID_RSASSA_PSS
      then and_then (verify_rsa_pss_signature_strict K tbs sig spki_der (alg_parameters sig_alg)) (\<lambda>_. Inr ())
      else verify_signature_by_oid_with_policy K tbs sig spki_der (alg_oid sig_alg) policy)"

definition verify_signature_by_algid ::
  "crypto \<Rightarrow> bytes \<Rightarrow> bytes \<Rightarrow> bytes \<Rightarrow> algorithm_identifier \<Rightarrow> (trust_error, unit) result" where
  "verify_signature_by_algid K tbs sig spki_der sig_alg =
     verify_signature_by_algid_with_policy K tbs sig spki_der sig_alg policy_default"

subsection \<open>Certificate signatures\<close>

definition verify_certificate_signature_with_policy ::
  "lib \<Rightarrow> crypto \<Rightarrow> certificate \<Rightarrow> certificate \<Rightarrow> signature_policy \<Rightarrow> (trust_error, unit) result" where
  "verify_certificate_signature_with_policy L K cert issuer_cert policy =
     (if signature_algorithm cert \<noteq> tbs_signature cert
      then Inl (SignatureVerification
        (SigAlgorithmMismatch (signature_algorithm cert) (tbs_signature cert)))
      else
        and_then (ok_or (SignatureVerification SigTbsEncoding) (tbs_to_der L cert)) (\<lambda>tbs_bytes.
        and_then (ok_or (SignatureVerification SigSpkiEncoding)
            (spki_to_der L (subject_public_key_info issuer_cert))) (\<lambda>spki_der.
          verify_signature_by_algid_with_policy K tbs_bytes (signature cert) spki_der
            (signature_algorithm cert) policy)))"

definition verify_certificate_signature ::
  "lib \<Rightarrow> crypto \<Rightarrow> certificate \<Rightarrow> certificate \<Rightarrow> (trust_error, unit) result" where
  "verify_certificate_signature L K cert issuer_cert =
     verify_certificate_signature_with_policy L K cert issuer_cert policy_default"

subsection \<open>Reference: what an algorithm identifier denotes\<close>

text \<open>
  The specification of the dispatch: which verifier a signature algorithm identifier denotes for
  a given public key. The hash is fixed by the identifier, or by the parameters for RSASSA-PSS;
  the curve is the one of the key.
\<close>

definition rsa_table :: "(oid \<times> hash_algorithm) list" where
  "rsa_table = [(OID_SHA1_WITH_RSA, HSha1), (OID_SHA224_WITH_RSA, HSha224),
     (SHA_256_WITH_RSA_ENCRYPTION, HSha256), (SHA_384_WITH_RSA_ENCRYPTION, HSha384),
     (SHA_512_WITH_RSA_ENCRYPTION, HSha512)]"

definition ecdsa_table :: "(oid \<times> ecdsa_hash) list" where
  "ecdsa_table = [(OID_ECDSA_WITH_SHA1, EcSha1), (ECDSA_WITH_SHA_256, EcSha256),
     (ECDSA_WITH_SHA_384, EcSha384), (ECDSA_WITH_SHA_512, EcSha512)]"

definition curve_table :: "(oid \<times> ec_curve) list" where
  "curve_table = [(OID_CURVE_P256, P256), (OID_CURVE_P384, P384), (OID_CURVE_P521, P521)]"

definition pss_table :: "(digest_algorithm \<times> hash_algorithm) list" where
  "pss_table = [(Sha256, HSha256), (Sha384, HSha384), (Sha512, HSha512)]"

inductive denotes :: "crypto \<Rightarrow> bytes \<Rightarrow> algorithm_identifier \<Rightarrow> software_verifier \<Rightarrow> bool"
  for K :: crypto and spki :: bytes and alg :: algorithm_identifier where
  denotes_rsa: "(alg_oid alg, h) \<in> set rsa_table \<Longrightarrow>
    denotes K spki alg (SoftwareVerifier (SRsaPkcs1v15 h) (SoftwareKey KRsa spki))"
| denotes_md5: "legacy_algorithms K \<Longrightarrow> alg_oid alg = OID_MD5_WITH_RSA \<Longrightarrow>
    denotes K spki alg (SoftwareVerifier (SRsaPkcs1v15 HMd5) (SoftwareKey KRsa spki))"
| denotes_dsa: "legacy_algorithms K \<Longrightarrow>
    (alg_oid alg, h) \<in> {(OID_DSA_WITH_SHA1, HSha1), (OID_DSA_WITH_SHA256, HSha256)} \<Longrightarrow>
    denotes K spki alg (SoftwareVerifier (SDsa h) (SoftwareKey KDsa spki))"
| denotes_ecdsa: "(alg_oid alg, eh) \<in> set ecdsa_table \<Longrightarrow>
    spki_algorithm_from_der K spki = Some key_alg \<Longrightarrow> alg_oid key_alg = OID_EC_PUBLIC_KEY \<Longrightarrow>
    alg_parameters key_alg = Some params \<Longrightarrow> any_as_oid K params = Some curve_oid \<Longrightarrow>
    (curve_oid, c) \<in> set curve_table \<Longrightarrow> ecdsa_pair c eh = Some (c, h) \<Longrightarrow>
    denotes K spki alg (SoftwareVerifier (SEcdsa c h) (SoftwareKey (KEc c) spki))"
| denotes_ed25519: "alg_oid alg = OID_ED25519 \<Longrightarrow>
    denotes K spki alg (SoftwareVerifier SEd25519 (SoftwareKey KEd25519 spki))"
| denotes_pss: "alg_oid alg = OID_RSASSA_PSS \<Longrightarrow> alg_parameters alg = Some p \<Longrightarrow>
    any_to_der K p = Some d \<Longrightarrow> rsa_pss_params_from_der K d = Some pp \<Longrightarrow>
    alg_oid (pss_hash pp) = digest_oid a \<Longrightarrow> (a, h) \<in> set pss_table \<Longrightarrow>
    pss_mask_gen pp = (OID_MGF1, Some mgf) \<Longrightarrow> alg_oid mgf = digest_oid a \<Longrightarrow>
    pss_trailer_field pp = 1 \<Longrightarrow>
    denotes K spki alg (RsaPssWithSalt h (pss_salt_len pp) (SoftwareKey KRsa spki))"

inductive_cases denotesE: "denotes K spki alg v"

fun verifier_key :: "software_verifier \<Rightarrow> software_key" where
  "verifier_key (SoftwareVerifier s k) = k"
| "verifier_key (RsaPssWithSalt h n k) = k"

definition backend_accepts :: "crypto \<Rightarrow> software_verifier \<Rightarrow> bytes \<Rightarrow> bytes \<Rightarrow> bool" where
  "backend_accepts K v tbs sig \<longleftrightarrow>
     load_key K (verifier_key v) = Inr () \<and> make_verifier K v = Inr ()
     \<and> verify_der_signature K v tbs sig = Inr True"

definition policy_admits :: "signature_policy \<Rightarrow> oid \<Rightarrow> bool" where
  "policy_admits policy oid \<longleftrightarrow> (if is_weak_signature_oid oid then allow_legacy policy else True)"

subsection \<open>The dispatch implements it\<close>

lemma backend_chain_iff:
  "and_then (map_err f a) (\<lambda>_. and_then (map_err f b) (\<lambda>_. and_then (map_err f c) (\<lambda>ok.
     if ok then Inr () else Inl e))) = Inr () \<longleftrightarrow> a = Inr () \<and> b = Inr () \<and> c = Inr True"
  by (cases a; cases b; cases c) auto

lemma verify_with_backend_iff:
  "verify_with_backend K tbs sig spki ka sa None = Inr () \<longleftrightarrow>
    backend_accepts K (SoftwareVerifier sa (SoftwareKey ka spki)) tbs sig"
  "verify_with_backend K tbs sig spki ka (SRsaPss h) (Some n) = Inr () \<longleftrightarrow>
    backend_accepts K (RsaPssWithSalt h n (SoftwareKey ka spki)) tbs sig"
proof -
  have "(case (sa, None :: nat option) of (SRsaPss hash, Some salt_len) \<Rightarrow> RsaPssWithSalt hash salt_len k
     | _ \<Rightarrow> SoftwareVerifier sa k) = SoftwareVerifier sa k" for k
    by (cases sa) auto
  then show "verify_with_backend K tbs sig spki ka sa None = Inr () \<longleftrightarrow>
    backend_accepts K (SoftwareVerifier sa (SoftwareKey ka spki)) tbs sig"
    by (simp only: verify_with_backend_def Let_def backend_chain_iff backend_accepts_def verifier_key.simps)
  show "verify_with_backend K tbs sig spki ka (SRsaPss h) (Some n) = Inr () \<longleftrightarrow>
    backend_accepts K (RsaPssWithSalt h n (SoftwareKey ka spki)) tbs sig"
    unfolding verify_with_backend_def Let_def backend_chain_iff
    by (simp only: backend_accepts_def verifier_key.simps prod.case backend_signature.case option.case)
qed

lemma curve_table_iff:
  "(oid, c) \<in> set curve_table \<longleftrightarrow>
    (if oid = OID_CURVE_P256 then c = P256 else if oid = OID_CURVE_P384 then c = P384
     else oid = OID_CURVE_P521 \<and> c = P521)"
  by (auto simp: curve_table_def) (simp_all add: verify_oids)

lemma ec_named_curve_iff:
  "ec_named_curve K alg = Inr c \<longleftrightarrow>
    alg_oid alg = OID_EC_PUBLIC_KEY \<and>
    (\<exists>params curve_oid. alg_parameters alg = Some params \<and> any_as_oid K params = Some curve_oid
       \<and> (curve_oid, c) \<in> set curve_table)"
proof (cases "alg_oid alg = OID_EC_PUBLIC_KEY")
  case True
  show ?thesis
  proof (cases "alg_parameters alg")
    case (Some params)
    with True show ?thesis
      by (cases "any_as_oid K params") (auto simp: ec_named_curve_def curve_table_iff)
  qed (simp add: True ec_named_curve_def)
qed (simp add: ec_named_curve_def)

lemma ecdsa_pair_curve: "ecdsa_pair c eh = Some (c', h) \<Longrightarrow> c' = c"
  by (cases c; cases eh) auto

lemma verify_ecdsa_bound_iff:
  "verify_ecdsa_bound K tbs sig spki eh = Inr () \<longleftrightarrow>
    (\<exists>key_alg c h. spki_algorithm_from_der K spki = Some key_alg \<and> ec_named_curve K key_alg = Inr c
       \<and> ecdsa_pair c eh = Some (c, h)
       \<and> backend_accepts K (SoftwareVerifier (SEcdsa c h) (SoftwareKey (KEc c) spki)) tbs sig)"
proof (cases "spki_algorithm_from_der K spki")
  case (Some key_alg)
  show ?thesis
  proof (cases "ec_named_curve K key_alg")
    case (Inr c)
    with Some show ?thesis
      by (cases "ecdsa_pair c eh")
        (auto simp: verify_ecdsa_bound_def verify_with_backend_iff dest: ecdsa_pair_curve)
  qed (simp add: Some verify_ecdsa_bound_def)
qed (simp add: verify_ecdsa_bound_def)

lemma denotes_ecdsa_iff:
  "(\<exists>v. denotes K spki alg v \<and> backend_accepts K v tbs sig) \<longleftrightarrow> verify_ecdsa_bound K tbs sig spki eh = Inr ()"
  if "(alg_oid alg, eh) \<in> set ecdsa_table"
proof
  assume "\<exists>v. denotes K spki alg v \<and> backend_accepts K v tbs sig"
  then obtain v where "denotes K spki alg v" and acc: "backend_accepts K v tbs sig" by blast
  then show "verify_ecdsa_bound K tbs sig spki eh = Inr ()"
  proof cases
    case (denotes_ecdsa eh' key_alg params curve_oid c h)
    moreover have "eh' = eh" using that denotes_ecdsa(2) by (auto simp: ecdsa_table_def verify_oids)
    ultimately show ?thesis using acc unfolding verify_ecdsa_bound_iff ec_named_curve_iff by blast
  qed (use that in \<open>auto simp: ecdsa_table_def rsa_table_def verify_oids\<close>)
next
  assume "verify_ecdsa_bound K tbs sig spki eh = Inr ()"
  then show "\<exists>v. denotes K spki alg v \<and> backend_accepts K v tbs sig"
    unfolding verify_ecdsa_bound_iff ec_named_curve_iff using that
    by (blast intro: denotes_ecdsa)
qed

lemma denotes_simple_iff:
  "(\<exists>v. denotes K spki alg v \<and> backend_accepts K v tbs sig) \<longleftrightarrow> backend_accepts K v0 tbs sig"
  if "denotes K spki alg v0" "alg_oid alg \<notin> fst ` set ecdsa_table" "alg_oid alg \<noteq> OID_RSASSA_PSS"
proof -
  have "v = v0" if "denotes K spki alg v" for v
    using that
  proof cases
    case (denotes_rsa h)
    from \<open>denotes K spki alg v0\<close> denotes_rsa show ?thesis
      by cases (use \<open>alg_oid alg \<notin> _\<close> in \<open>auto simp: rsa_table_def ecdsa_table_def verify_oids\<close>)
  next
    case denotes_md5
    from \<open>denotes K spki alg v0\<close> denotes_md5 show ?thesis
      by cases (use \<open>alg_oid alg \<notin> _\<close> in \<open>auto simp: rsa_table_def ecdsa_table_def verify_oids\<close>)
  next
    case (denotes_dsa h)
    from \<open>denotes K spki alg v0\<close> denotes_dsa show ?thesis
      by cases (use \<open>alg_oid alg \<notin> _\<close> in \<open>auto simp: rsa_table_def ecdsa_table_def verify_oids\<close>)
  next
    case denotes_ed25519
    from \<open>denotes K spki alg v0\<close> denotes_ed25519 show ?thesis
      by cases (use \<open>alg_oid alg \<notin> _\<close> in \<open>auto simp: rsa_table_def ecdsa_table_def verify_oids\<close>)
  qed (use \<open>alg_oid alg \<notin> _\<close> \<open>alg_oid alg \<noteq> _\<close> in \<open>force\<close>)+
  with that(1) show ?thesis by blast
qed

lemma dispatch_iff:
  assumes "alg_oid alg \<noteq> OID_RSASSA_PSS"
  shows "verify_signature_by_oid_with_policy K tbs sig spki (alg_oid alg) policy = Inr () \<longleftrightarrow>
    (allow_legacy policy \<or> \<not> is_weak_signature_oid (alg_oid alg))
    \<and> (\<exists>v. denotes K spki alg v \<and> backend_accepts K v tbs sig)"
proof (cases "\<not> allow_legacy policy \<and> is_weak_signature_oid (alg_oid alg)")
  case True
  then show ?thesis by (simp add: verify_signature_by_oid_with_policy_def)
next
  case gate: False
  note dispatch = verify_signature_by_oid_with_policy_def [of K tbs sig spki "alg_oid alg" policy]
  consider (rsa) h where "(alg_oid alg, h) \<in> set rsa_table"
    | (md5) "alg_oid alg = OID_MD5_WITH_RSA"
    | (dsa) h where "(alg_oid alg, h) \<in> {(OID_DSA_WITH_SHA1, HSha1), (OID_DSA_WITH_SHA256, HSha256)}"
    | (ecdsa) eh where "(alg_oid alg, eh) \<in> set ecdsa_table"
    | (ed) "alg_oid alg = OID_ED25519"
    | (other) "alg_oid alg \<notin> fst ` set rsa_table" "alg_oid alg \<notin> fst ` set ecdsa_table"
        "alg_oid alg \<notin> {OID_MD5_WITH_RSA, OID_DSA_WITH_SHA1, OID_DSA_WITH_SHA256, OID_ED25519}"
    by fastforce
  then show ?thesis
  proof cases
    case (rsa h)
    have "verify_signature_by_oid_with_policy K tbs sig spki (alg_oid alg) policy
        = verify_with_backend K tbs sig spki KRsa (SRsaPkcs1v15 h) None"
      using rsa gate unfolding dispatch by (auto simp: rsa_table_def verify_oids)
    moreover have "alg_oid alg \<notin> fst ` set ecdsa_table"
      using rsa by (auto simp: rsa_table_def ecdsa_table_def verify_oids)
    ultimately show ?thesis
      using denotes_simple_iff [OF denotes_rsa [OF rsa], where tbs = tbs and sig = sig] assms gate
      by (simp add: verify_with_backend_iff)
  next
    case md5
    then have r: "verify_signature_by_oid_with_policy K tbs sig spki (alg_oid alg) policy
        = verify_legacy_md5_rsa K tbs sig spki"
      using gate unfolding dispatch by auto
    have ne: "alg_oid alg \<notin> fst ` set ecdsa_table" using md5 by (simp add: ecdsa_table_def verify_oids)
    show ?thesis
    proof (cases "legacy_algorithms K")
      case True
      with r gate show ?thesis
        using denotes_simple_iff [OF denotes_md5 [OF True md5], where tbs = tbs and sig = sig] assms ne
        by (simp add: verify_legacy_md5_rsa_def verify_with_backend_iff)
    next
      case False
      have "\<not> denotes K spki alg v" for v
        using False md5 by (auto elim!: denotesE simp: rsa_table_def ecdsa_table_def verify_oids)
      with False r show ?thesis by (simp add: verify_legacy_md5_rsa_def)
    qed
  next
    case (dsa h)
    then have r: "verify_signature_by_oid_with_policy K tbs sig spki (alg_oid alg) policy
        = verify_dsa K tbs sig spki h"
      using gate unfolding dispatch by (auto simp: verify_oids)
    have ne: "alg_oid alg \<notin> fst ` set ecdsa_table" using dsa by (auto simp: ecdsa_table_def verify_oids)
    show ?thesis
    proof (cases "legacy_algorithms K")
      case True
      with r gate show ?thesis
        using denotes_simple_iff [OF denotes_dsa [OF True dsa], where tbs = tbs and sig = sig] assms ne
        by (simp add: verify_dsa_def verify_with_backend_iff)
    next
      case False
      have "\<not> denotes K spki alg v" for v
        using False dsa by (auto elim!: denotesE simp: rsa_table_def ecdsa_table_def verify_oids)
      with False r show ?thesis by (simp add: verify_dsa_def)
    qed
  next
    case (ecdsa eh)
    then have "verify_signature_by_oid_with_policy K tbs sig spki (alg_oid alg) policy
        = verify_ecdsa_bound K tbs sig spki eh"
      using gate unfolding dispatch by (auto simp: ecdsa_table_def verify_oids)
    with denotes_ecdsa_iff [OF ecdsa] gate show ?thesis by simp
  next
    case ed
    then have "verify_signature_by_oid_with_policy K tbs sig spki (alg_oid alg) policy
        = verify_with_backend K tbs sig spki KEd25519 SEd25519 None"
      using gate unfolding dispatch by (auto simp: verify_oids)
    moreover have "alg_oid alg \<notin> fst ` set ecdsa_table" using ed by (simp add: ecdsa_table_def verify_oids)
    ultimately show ?thesis
      using denotes_simple_iff [OF denotes_ed25519 [OF ed], where tbs = tbs and sig = sig] assms gate
      by (simp add: verify_with_backend_iff)
  next
    case other
    have "\<not> denotes K spki alg v" for v
      using other assms by (auto elim!: denotesE simp: image_iff)
    moreover have "verify_signature_by_oid_with_policy K tbs sig spki (alg_oid alg) policy \<noteq> Inr ()"
      using other assms gate unfolding dispatch by (simp add: rsa_table_def ecdsa_table_def)
    ultimately show ?thesis by blast
  qed
qed

lemma pss_hash_iff:
  "(case a of Sha256 \<Rightarrow> Inr HSha256 | Sha384 \<Rightarrow> Inr HSha384 | Sha512 \<Rightarrow> Inr HSha512
     | Sha3_256 \<Rightarrow> Inl e1 | Sha3_384 \<Rightarrow> Inl e2 | Sha3_512 \<Rightarrow> Inl e3) = Inr h
    \<longleftrightarrow> (a, h) \<in> set pss_table"
  by (cases a) (auto simp: pss_table_def)

lemma pss_iff:
  assumes "alg_oid alg = OID_RSASSA_PSS"
  shows "(\<exists>a. verify_rsa_pss_signature_strict K tbs sig spki (alg_parameters alg) = Inr a) \<longleftrightarrow>
    (\<exists>v. denotes K spki alg v \<and> backend_accepts K v tbs sig)"
proof
  assume "\<exists>a. verify_rsa_pss_signature_strict K tbs sig spki (alg_parameters alg) = Inr a"
  then obtain a p d pp h where "alg_parameters alg = Some p" "any_to_der K p = Some d"
      "rsa_pss_params_from_der K d = Some pp" "digest_from_oid (alg_oid (pss_hash pp)) = Some a"
      "fst (pss_mask_gen pp) = OID_MGF1"
      "map_option alg_oid (snd (pss_mask_gen pp)) = Some (alg_oid (pss_hash pp))"
      "pss_trailer_field pp = 1" "(a, h) \<in> set pss_table"
      "verify_with_backend K tbs sig spki KRsa (SRsaPss h) (Some (pss_salt_len pp)) = Inr ()"
    unfolding verify_rsa_pss_signature_strict_def Let_def and_then_Inr_iff ok_or_Inr_iff if_err_Inr_iff
      pss_hash_iff by auto
  then show "\<exists>v. denotes K spki alg v \<and> backend_accepts K v tbs sig"
    using assms unfolding verify_with_backend_iff digest_from_oid_iff
    by (intro exI [of _ "RsaPssWithSalt h (pss_salt_len pp) (SoftwareKey KRsa spki)"])
      (auto intro!: denotes_pss simp: prod_eq_iff)
next
  assume "\<exists>v. denotes K spki alg v \<and> backend_accepts K v tbs sig"
  then obtain v where "denotes K spki alg v" and acc: "backend_accepts K v tbs sig" by blast
  then show "\<exists>a. verify_rsa_pss_signature_strict K tbs sig spki (alg_parameters alg) = Inr a"
  proof cases
    case (denotes_pss p d pp a h mgf)
    then have "digest_from_oid (alg_oid (pss_hash pp)) = Some a" by (simp add: digest_from_oid_iff)
    moreover have "verify_with_backend K tbs sig spki KRsa (SRsaPss h) (Some (pss_salt_len pp)) = Inr ()"
      using acc denotes_pss by (simp add: verify_with_backend_iff)
    ultimately show ?thesis
      using denotes_pss by (auto simp: verify_rsa_pss_signature_strict_def pss_table_def)
  qed (use assms in \<open>auto simp: rsa_table_def ecdsa_table_def verify_oids\<close>)
qed

text \<open>The hash a verifier checks, if it has one.\<close>

fun verifier_hash :: "software_verifier \<Rightarrow> hash_algorithm option" where
  "verifier_hash (SoftwareVerifier (SRsaPkcs1v15 h) k) = Some h"
| "verifier_hash (SoftwareVerifier (SRsaPss h) k) = Some h"
| "verifier_hash (SoftwareVerifier (SEcdsa c h) k) = Some h"
| "verifier_hash (SoftwareVerifier (SDsa h) k) = Some h"
| "verifier_hash (SoftwareVerifier SEd25519 k) = None"
| "verifier_hash (RsaPssWithSalt h n k) = Some h"

lemma algid_iff:
  "verify_signature_by_algid_with_policy K tbs sig spki alg policy = Inr () \<longleftrightarrow>
    (allow_legacy policy \<or> \<not> is_weak_signature_oid (alg_oid alg))
    \<and> (\<exists>v. denotes K spki alg v \<and> backend_accepts K v tbs sig)"
proof (cases "alg_oid alg = OID_RSASSA_PSS")
  case True
  have "\<not> is_weak_signature_oid OID_RSASSA_PSS" by (simp add: is_weak_signature_oid_def verify_oids)
  with True show ?thesis
    using pss_iff [OF True, of K tbs sig spki]
    by (simp add: verify_signature_by_algid_with_policy_def and_then_Inr_iff)
next
  case False
  then show ?thesis
    using dispatch_iff [OF False] by (simp add: verify_signature_by_algid_with_policy_def)
qed

lemma denotes_strong:
  assumes "denotes K spki alg v" "\<not> is_weak_signature_oid (alg_oid alg)"
  shows "verifier_hash v \<in> {None, Some HSha256, Some HSha384, Some HSha512}"
  using assms(1)
proof cases
  case (denotes_ecdsa eh key_alg params curve_oid c h)
  have "eh \<noteq> EcSha1"
    using denotes_ecdsa(2) assms(2) by (auto simp: ecdsa_table_def is_weak_signature_oid_def verify_oids)
  with denotes_ecdsa show ?thesis by (cases c; cases eh) auto
qed (use assms(2) in \<open>auto simp: rsa_table_def pss_table_def is_weak_signature_oid_def verify_oids\<close>)

subsection \<open>Properties\<close>

text \<open>C7: a signature is accepted under a full algorithm identifier exactly when the policy admits
  the identifier and the backend accepts it with the verifier the identifier denotes for that key:
  the hash is the one the identifier (or the RSASSA-PSS parameters, with MGF1 on the same hash and
  the declared salt length) names, and for ECDSA the curve is the key's own and conforms to the
  hash. No other combination is ever tried.\<close>

theorem verify_signature_by_algid_iff:
  "verify_signature_by_algid_with_policy K tbs sig spki alg policy = Inr () \<longleftrightarrow>
    policy_admits policy (alg_oid alg)
    \<and> (\<exists>v. denotes K spki alg v \<and> backend_accepts K v tbs sig)"
  using algid_iff [of K tbs sig spki alg policy] by (simp add: policy_admits_def)

text \<open>C8: under the strict policy a signature on a weak digest is refused before the backend is
  consulted, and whatever is accepted was checked with SHA-256, SHA-384, SHA-512 or Ed25519.\<close>

theorem strict_policy_strong_digest:
  "(is_weak_signature_oid (alg_oid alg) \<longrightarrow>
     verify_signature_by_algid_with_policy K tbs sig spki alg policy_strict = Inl (WeakAlgorithm (alg_oid alg)))
   \<and> (verify_signature_by_algid_with_policy K tbs sig spki alg policy_strict = Inr () \<longrightarrow>
       (\<exists>v. denotes K spki alg v \<and> backend_accepts K v tbs sig
          \<and> verifier_hash v \<in> {None, Some HSha256, Some HSha384, Some HSha512}))"
proof (intro conjI impI)
  assume w: "is_weak_signature_oid (alg_oid alg)"
  then have "alg_oid alg \<noteq> OID_RSASSA_PSS" by (auto simp: is_weak_signature_oid_def verify_oids)
  with w show "verify_signature_by_algid_with_policy K tbs sig spki alg policy_strict
      = Inl (WeakAlgorithm (alg_oid alg))"
    by (simp add: verify_signature_by_algid_with_policy_def verify_signature_by_oid_with_policy_def
        policy_strict_def)
next
  assume "verify_signature_by_algid_with_policy K tbs sig spki alg policy_strict = Inr ()"
  then obtain v where "\<not> is_weak_signature_oid (alg_oid alg)" "denotes K spki alg v"
      "backend_accepts K v tbs sig"
    by (auto simp: algid_iff policy_strict_def)
  with denotes_strong show "\<exists>v. denotes K spki alg v \<and> backend_accepts K v tbs sig
      \<and> verifier_hash v \<in> {None, Some HSha256, Some HSha384, Some HSha512}"
    by blast
qed

text \<open>A backend that accepts exactly the empty signature, and an EC key on P-256.\<close>

definition toy_crypto :: crypto where
  "toy_crypto = \<lparr>legacy_algorithms = True, load_key = (\<lambda>_. Inr ()), make_verifier = (\<lambda>_. Inr ()),
     verify_der_signature = (\<lambda>_ _ sig. Inr (sig = [])),
     spki_algorithm_from_der = (\<lambda>_. Some \<lparr>alg_oid = OID_EC_PUBLIC_KEY, alg_parameters = Some (Any 6 [])\<rparr>),
     any_as_oid = (\<lambda>_. Some OID_CURVE_P256), any_to_der = (\<lambda>a. Some (any_body a)),
     read_pss_fields = (\<lambda>_. Some \<lparr>pf_hash = None, pf_mask_gen = None, pf_salt_len = None, pf_trailer = None\<rparr>)\<rparr>"

theorem strict_policy_strong_digest_witness:
  "verify_signature_by_algid_with_policy toy_crypto [1] [] [2]
     \<lparr>alg_oid = ECDSA_WITH_SHA_256, alg_parameters = None\<rparr> policy_strict = Inr ()
   \<and> (\<exists>v. denotes toy_crypto [2] \<lparr>alg_oid = ECDSA_WITH_SHA_256, alg_parameters = None\<rparr> v
        \<and> backend_accepts toy_crypto v [1] []
        \<and> verifier_hash v \<in> {None, Some HSha256, Some HSha384, Some HSha512})"
proof -
  have "verify_signature_by_algid_with_policy toy_crypto [1] [] [2]
     \<lparr>alg_oid = ECDSA_WITH_SHA_256, alg_parameters = None\<rparr> policy_strict = Inr ()"
    by (simp add: verify_signature_by_algid_with_policy_def verify_signature_by_oid_with_policy_def
        is_weak_signature_oid_def verify_ecdsa_bound_def ec_named_curve_def verify_with_backend_def
        toy_crypto_def verify_oids)
  then show ?thesis
    using strict_policy_strong_digest [of "\<lparr>alg_oid = ECDSA_WITH_SHA_256, alg_parameters = None\<rparr>"]
    by blast
qed

text \<open>A certificate's signature is accepted exactly when its outer algorithm identifier equals
  the signed one, identifier and parameters alike, and the signature over the encoded body verifies
  under the issuer's encoded key; an altered outer identifier fails whatever the backend says.\<close>

theorem verify_certificate_signature_iff:
  "verify_certificate_signature_with_policy L K cert issuer_cert policy = Inr () \<longleftrightarrow>
    signature_algorithm cert = tbs_signature cert
    \<and> policy_admits policy (alg_oid (tbs_signature cert))
    \<and> (\<exists>tbs spki v. tbs_to_der L cert = Some tbs
         \<and> spki_to_der L (subject_public_key_info issuer_cert) = Some spki
         \<and> denotes K spki (tbs_signature cert) v \<and> backend_accepts K v tbs (signature cert))"
  by (auto simp: verify_certificate_signature_with_policy_def and_then_Inr_iff ok_or_Inr_iff algid_iff
      policy_admits_def)

text \<open>The verifiers the dispatch uses never check a SHA-3 hash.\<close>

definition sha3_hashes :: "hash_algorithm set" where "sha3_hashes = {HSha3_256, HSha3_384, HSha3_512}"

lemma denotes_not_sha3: "denotes K spki alg v \<Longrightarrow> verifier_hash v \<notin> Some ` sha3_hashes"
proof (cases rule: denotesE, assumption)
  fix eh key_alg params curve_oid c h
  assume "ecdsa_pair c eh = Some (c, h)" "v = SoftwareVerifier (SEcdsa c h) (SoftwareKey (KEc c) spki)"
  then show ?thesis by (cases c; cases eh) (auto simp: sha3_hashes_def)
qed (auto simp: sha3_hashes_def rsa_table_def pss_table_def)

lemma pss_any_accepts:
  "verify_pss_any K tbs sig spki hs = Inr () \<Longrightarrow>
     \<exists>h\<in>set hs. backend_accepts K (SoftwareVerifier (SRsaPss h) (SoftwareKey KRsa spki)) tbs sig"
proof (induction hs)
  case (Cons h hs)
  then show ?case
    by (cases "verify_with_backend K tbs sig spki KRsa (SRsaPss h) None") (auto simp: verify_with_backend_iff)
qed simp

lemma accepted_not_sha3:
  "verify_signature_by_algid_with_policy K tbs sig spki alg policy = Inr () \<Longrightarrow>
     \<exists>v. backend_accepts K v tbs sig \<and> verifier_hash v \<notin> Some ` sha3_hashes"
  "verify_signature_by_oid_with_policy K tbs sig spki oid policy = Inr () \<Longrightarrow>
     \<exists>v. backend_accepts K v tbs sig \<and> verifier_hash v \<notin> Some ` sha3_hashes"
proof -
  show algid: "\<exists>v. backend_accepts K v tbs sig \<and> verifier_hash v \<notin> Some ` sha3_hashes"
    if "verify_signature_by_algid_with_policy K tbs sig spki alg policy = Inr ()" for alg
    using that denotes_not_sha3 unfolding algid_iff by blast
  assume acc: "verify_signature_by_oid_with_policy K tbs sig spki oid policy = Inr ()"
  show "\<exists>v. backend_accepts K v tbs sig \<and> verifier_hash v \<notin> Some ` sha3_hashes"
  proof (cases "oid = OID_RSASSA_PSS")
    case True
    with acc have "verify_pss_any K tbs sig spki [HSha256, HSha384, HSha512] = Inr ()"
      by (simp add: verify_signature_by_oid_with_policy_def is_weak_signature_oid_def verify_oids)
    from pss_any_accepts [OF this] obtain h where "h \<in> {HSha256, HSha384, HSha512}"
        "backend_accepts K (SoftwareVerifier (SRsaPss h) (SoftwareKey KRsa spki)) tbs sig" by auto
    moreover from this(1) have "h \<notin> sha3_hashes" by (auto simp: sha3_hashes_def)
    ultimately show ?thesis by (intro exI [of _ "SoftwareVerifier (SRsaPss h) (SoftwareKey KRsa spki)"]) auto
  next
    case False
    with acc algid [of "\<lparr>alg_oid = oid, alg_parameters = None\<rparr>"] show ?thesis
      by (simp add: verify_signature_by_algid_with_policy_def)
  qed
qed

text \<open>C40: No SHA-3 signature is accepted under any policy. The twelve identifiers of DSA, ECDSA and RSA with
  SHA3-224, SHA3-256, SHA3-384 and SHA3-512 are refused as unsupported by both functions, whatever their
  parameters; RSASSA-PSS parameters that decode to one of these hashes are refused as unsupported; and
  whatever either function accepts, the backend has accepted with a verifier whose hash is not a SHA-3 hash.\<close>

theorem sha3_signatures_unsupported:
  "(5 \<le> n \<and> n \<le> 16 \<and> oid = [2, 16, 840, 1, 101, 3, 4, 3, n] \<longrightarrow>
      verify_signature_by_oid_with_policy K tbs sig spki oid policy = Inl (UnsupportedAlgorithm (UnsSignatureOid oid))
      \<and> verify_signature_by_algid_with_policy K tbs sig spki \<lparr>alg_oid = oid, alg_parameters = params\<rparr> policy
          = Inl (UnsupportedAlgorithm (UnsSignatureOid oid)))
   \<and> (7 \<le> k \<and> k \<le> 10 \<and> any_to_der K p = Some d \<and> rsa_pss_params_from_der K d = Some pp
        \<and> alg_oid (pss_hash pp) = [2, 16, 840, 1, 101, 3, 4, 2, k] \<longrightarrow>
      (\<exists>m. verify_signature_by_algid_with_policy K tbs sig spki \<lparr>alg_oid = OID_RSASSA_PSS, alg_parameters = Some p\<rparr> policy
         = Inl (UnsupportedAlgorithm m)))
   \<and> (verify_signature_by_algid_with_policy K tbs sig spki alg policy = Inr ()
        \<or> verify_signature_by_oid_with_policy K tbs sig spki any_oid policy = Inr () \<longrightarrow>
      (\<exists>v. backend_accepts K v tbs sig \<and> verifier_hash v \<notin> Some ` {HSha3_256, HSha3_384, HSha3_512}))"
proof (intro conjI impI)
  assume n: "5 \<le> n \<and> n \<le> 16 \<and> oid = [2, 16, 840, 1, 101, 3, 4, 3, n]"
  then show by_oid: "verify_signature_by_oid_with_policy K tbs sig spki oid policy = Inl (UnsupportedAlgorithm (UnsSignatureOid oid))"
    unfolding verify_signature_by_oid_with_policy_def is_weak_signature_oid_def verify_oids by auto
  from n have "oid \<noteq> OID_RSASSA_PSS" by (simp add: verify_oids)
  with by_oid show "verify_signature_by_algid_with_policy K tbs sig spki \<lparr>alg_oid = oid, alg_parameters = params\<rparr> policy
      = Inl (UnsupportedAlgorithm (UnsSignatureOid oid))"
    by (simp add: verify_signature_by_algid_with_policy_def)
next
  assume h: "7 \<le> k \<and> k \<le> 10 \<and> any_to_der K p = Some d \<and> rsa_pss_params_from_der K d = Some pp
        \<and> alg_oid (pss_hash pp) = [2, 16, 840, 1, 101, 3, 4, 2, k]"
  have "a \<notin> {Sha256, Sha384, Sha512}" if "digest_from_oid [2, 16, 840, 1, 101, 3, 4, 2, k] = Some a" for a
    using that h by (auto simp: digest_from_oid_iff)
  with h show "\<exists>m. verify_signature_by_algid_with_policy K tbs sig spki \<lparr>alg_oid = OID_RSASSA_PSS, alg_parameters = Some p\<rparr> policy
         = Inl (UnsupportedAlgorithm m)"
    by (cases "digest_from_oid [2, 16, 840, 1, 101, 3, 4, 2, k]"; cases "the (digest_from_oid [2, 16, 840, 1, 101, 3, 4, 2, k])")
      (auto simp: verify_signature_by_algid_with_policy_def verify_rsa_pss_signature_strict_def Let_def)
next
  assume "verify_signature_by_algid_with_policy K tbs sig spki alg policy = Inr ()
        \<or> verify_signature_by_oid_with_policy K tbs sig spki any_oid policy = Inr ()"
  then show "\<exists>v. backend_accepts K v tbs sig \<and> verifier_hash v \<notin> Some ` {HSha3_256, HSha3_384, HSha3_512}"
    using accepted_not_sha3 unfolding sha3_hashes_def by blast
qed

text \<open>RSA with SHA3-256; RSASSA-PSS parameters that name SHA3-256, over a backend that reads them so.\<close>

theorem sha3_signatures_unsupported_witness:
  "verify_signature_by_oid_with_policy toy_crypto [] [] [] [2, 16, 840, 1, 101, 3, 4, 3, 14] policy_allow_legacy
     = Inl (UnsupportedAlgorithm (UnsSignatureOid [2, 16, 840, 1, 101, 3, 4, 3, 14]))
   \<and> (\<exists>m. verify_signature_by_algid_with_policy
        (toy_crypto\<lparr>read_pss_fields := (\<lambda>_. Some \<lparr>pf_hash = Some \<lparr>alg_oid = OID_SHA3_256, alg_parameters = None\<rparr>,
            pf_mask_gen = None, pf_salt_len = None, pf_trailer = None\<rparr>)\<rparr>) [] [] []
        \<lparr>alg_oid = OID_RSASSA_PSS, alg_parameters = Some (Any 0x30 [])\<rparr> policy_allow_legacy = Inl (UnsupportedAlgorithm m))"
proof
  show "verify_signature_by_oid_with_policy toy_crypto [] [] [] [2, 16, 840, 1, 101, 3, 4, 3, 14] policy_allow_legacy
     = Inl (UnsupportedAlgorithm (UnsSignatureOid [2, 16, 840, 1, 101, 3, 4, 3, 14]))"
    using sha3_signatures_unsupported [THEN conjunct1, of 14 "[2, 16, 840, 1, 101, 3, 4, 3, 14]" toy_crypto "[]" "[]" "[]" policy_allow_legacy]
    by simp
  let ?K = "toy_crypto\<lparr>read_pss_fields := (\<lambda>_. Some \<lparr>pf_hash = Some \<lparr>alg_oid = OID_SHA3_256, alg_parameters = None\<rparr>,
            pf_mask_gen = None, pf_salt_len = None, pf_trailer = None\<rparr>)\<rparr>"
  have "\<exists>pp. any_to_der ?K (Any 0x30 []) = Some [] \<and> rsa_pss_params_from_der ?K [] = Some pp
      \<and> alg_oid (pss_hash pp) = [2, 16, 840, 1, 101, 3, 4, 2, 8]"
    by (simp add: toy_crypto_def rsa_pss_params_from_der_def OID_SHA3_256_def)
  then show "\<exists>m. verify_signature_by_algid_with_policy ?K [] [] []
      \<lparr>alg_oid = OID_RSASSA_PSS, alg_parameters = Some (Any 0x30 [])\<rparr> policy_allow_legacy = Inl (UnsupportedAlgorithm m)"
    using sha3_signatures_unsupported [THEN conjunct2, THEN conjunct1, of 8 ?K "Any 0x30 []" "[]" _ "[]" "[]" "[]" policy_allow_legacy]
    by auto
qed

end
