(* ===== verification/Name_Constraint_Facts.thy ===== *)
theory Name_Constraint_Facts
  imports Name_Constraints
begin

section \<open>Name constraints: what the checks guarantee\<close>

text \<open>
  Specifications of the four matchers (label boundaries, mailbox hosts, CIDR containment,
  RDN prefixes compared as multisets), the meaning of an accepted name, and the monotonicity of
  the accumulated state, stated once for any accumulating policy (locale
  \<open>accumulating_policy\<close>) and interpreted on \<open>add_from_cert\<close> and \<open>check_cert\<close>.
\<close>

subsection \<open>Accumulated constraints: the interface\<close>

text \<open>
  What a path walk relies on: folding an issuer in only adds to the state, what an issuer adds
  does not depend on the state it is added to, and a check against more constraints implies the
  check against fewer.
\<close>

locale accumulating_policy =
  fixes init :: 'st
    and add :: "'st \<Rightarrow> 'c \<Rightarrow> 'st \<times> ('e, unit) result"
    and check :: "'st \<Rightarrow> 'c \<Rightarrow> ('e, unit) result"
    and covers :: "'st \<Rightarrow> 'st \<Rightarrow> bool"
  assumes covers_refl: "covers s s"
    and covers_trans: "covers s t \<Longrightarrow> covers t u \<Longrightarrow> covers s u"
    and add_covers: "covers s (fst (add s c))"
    and add_covers_own: "covers (fst (add init c)) (fst (add s c))"
    and check_covers: "covers s t \<Longrightarrow> check t x = Inr () \<Longrightarrow> check s x = Inr ()"
begin

definition accum :: "'c list \<Rightarrow> 'st \<Rightarrow> 'st" where
  "accum cs s = foldl (\<lambda>s c. fst (add s c)) s cs"

lemma accum_simps [simp]: "accum [] s = s" "accum (c # cs) s = accum cs (fst (add s c))"
  "accum (cs @ ds) s = accum ds (accum cs s)"
  by (simp_all add: accum_def)

lemma accum_covers: "covers s (accum cs s)"
proof (induction cs arbitrary: s)
  case Nil
  then show ?case by (simp add: covers_refl)
next
  case (Cons c cs)
  have "covers (fst (add s c)) (accum cs (fst (add s c)))" by (rule Cons.IH)
  with add_covers [of s c] show ?case by (simp add: covers_trans)
qed

lemma accum_covers_member: "c \<in> set cs \<Longrightarrow> covers (fst (add init c)) (accum cs s)"
proof -
  assume "c \<in> set cs"
  then obtain xs ys where "cs = xs @ c # ys" by (auto dest: split_list)
  moreover have "covers (fst (add (accum xs s) c)) (accum ys (fst (add (accum xs s) c)))"
    by (rule accum_covers)
  ultimately show ?thesis using add_covers_own covers_trans by fastforce
qed

lemma check_accum_member:
  "c \<in> set cs \<Longrightarrow> check (accum cs s) x = Inr () \<Longrightarrow> check (fst (add init c)) x = Inr ()"
  by (rule check_covers [OF accum_covers_member])

end

text \<open>One state covers another: it has all its groups and all its exclusions.\<close>

definition nc_covers :: "name_constraint_state \<Rightarrow> name_constraint_state \<Rightarrow> bool" where
  "nc_covers s t \<longleftrightarrow> set (permitted s) \<subseteq> set (permitted t) \<and> set (excluded s) \<subseteq> set (excluded t)"

text \<open>What an extension adds is the same for every state it is added to.\<close>

lemma add_subtrees_uniform:
  "\<exists>ps es r. \<forall>st. add_subtrees st pos
    = (\<lparr>permitted = permitted st @ ps, excluded = excluded st @ es\<rparr>, r)"
proof (induction pos rule: measure_induct_rule [of length])
  case (less pos)
  have stop: "\<exists>ps es r. \<forall>st. add_subtrees st pos
      = (\<lparr>permitted = permitted st @ ps, excluded = excluded st @ es\<rparr>, r)"
    if "\<And>st. add_subtrees st pos = (st, r)" for r
    by (rule exI [of _ "[]"], rule exI [of _ "[]"], rule exI [of _ r]) (simp add: that)
  show ?case
  proof (cases "pos = [] \<or> (\<exists>e. parse_tlv_with_rest pos = Inl e)")
    case True
    then consider "pos = []" | e where "pos \<noteq> []" "parse_tlv_with_rest pos = Inl e" by blast
    then show ?thesis by cases (rule stop, subst add_subtrees.simps, simp)+
  next
    case False
    then obtain t b rest where p: "pos \<noteq> []" "parse_tlv_with_rest pos = Inr (t, b, rest)"
      by (metis prod_cases3 sum.exhaust)
    obtain ps es r where IH: "\<And>st. add_subtrees st rest
        = (\<lparr>permitted = permitted st @ ps, excluded = excluded st @ es\<rparr>, r)"
      using less [of rest] parse_tlv_with_rest_shorter [OF p(2)] by blast
    consider bases where "t = 0xA0" "parse_general_subtrees b [] = Inr bases"
      | bases where "t = 0xA1" "parse_general_subtrees b [] = Inr bases"
      | e where "t = 0xA0 \<or> t = 0xA1" "parse_general_subtrees b [] = Inl e"
      | "t \<noteq> 0xA0" "t \<noteq> 0xA1"
      by (metis sum.exhaust)
    then show ?thesis
    proof cases
      case 1
      have "add_subtrees st pos
        = (\<lparr>permitted = permitted st @ bases # ps, excluded = excluded st @ es\<rparr>, r)" for st
        using p 1 by (subst add_subtrees.simps) (simp add: IH)
      then show ?thesis by blast
    next
      case 2
      have "add_subtrees st pos
        = (\<lparr>permitted = permitted st @ ps, excluded = excluded st @ bases @ es\<rparr>, r)" for st
        using p 2 by (subst add_subtrees.simps) (simp add: IH)
      then show ?thesis by blast
    next
      case 3
      show ?thesis using p 3 by (intro stop) (subst add_subtrees.simps, auto)
    next
      case 4
      show ?thesis using p 4 by (intro stop) (subst add_subtrees.simps, auto)
    qed
  qed
qed

lemma add_from_cert_cases:
  "(\<exists>r. \<forall>st. add_from_cert st cert = (st, r)) \<or> (\<exists>b. \<forall>st. add_from_cert st cert = add_subtrees st b)"
proof (cases "find_ext cert NAME_CONSTRAINTS_OID")
  case None
  then show ?thesis by (simp add: add_from_cert_def)
next
  case (Some ext)
  then have a: "add_from_cert st cert = add_from_extension_value st (extn_value ext)" for st
    by (simp add: add_from_cert_def)
  consider e where "parse_tlv (extn_value ext) = Inl e"
    | t b where "parse_tlv (extn_value ext) = Inr (t, b)" "t \<noteq> 0x30"
    | b where "parse_tlv (extn_value ext) = Inr (0x30, b)"
    by (metis prod.exhaust sum.exhaust)
  then show ?thesis
    by cases (auto simp: a add_from_extension_value_def)
qed

lemma add_from_cert_uniform:
  "\<exists>ps es r. \<forall>st. add_from_cert st cert
    = (\<lparr>permitted = permitted st @ ps, excluded = excluded st @ es\<rparr>, r)"
  using add_from_cert_cases [of cert]
proof
  assume "\<exists>r. \<forall>st. add_from_cert st cert = (st, r)"
  then obtain r where "\<And>st. add_from_cert st cert = (st, r)" by blast
  then show ?thesis by (intro exI [of _ "[]"] exI [of _ r]) simp
next
  assume "\<exists>b. \<forall>st. add_from_cert st cert = add_subtrees st b"
  then show ?thesis using add_subtrees_uniform by metis
qed

lemma check_name_iff:
  "check_name L st n = Inr u \<longleftrightarrow>
    (\<forall>ex\<in>set (excluded st). base_matches L ex n = Inr False)
    \<and> (\<forall>g\<in>set (permitted st). check_group L n g = Inr ())"
  by (auto simp: check_name_def check_excluded_def result_simps)

lemma collect_emails_prefix:
  "collect_emails L as names = Inr out \<Longrightarrow> \<exists>new. out = names @ new"
  by (induction as arbitrary: names) (fastforce split: if_splits option.splits)+

text \<open>Asking for the legacy e-mail names only adds names.\<close>

lemma collect_asserted_names_mono:
  assumes "collect_asserted_names L cert True = Inr names"
  shows "\<exists>few. collect_asserted_names L cert r = Inr few \<and> set few \<subseteq> set names"
proof (cases r)
  case True
  with assms show ?thesis by simp
next
  case False
  obtain der where d: "name_to_der L (subject cert) = Some der"
    using assms by (auto simp: collect_asserted_names_def result_simps)
  define own where "own = (if 2 < length der then [ADirectory der] else [])"
  show ?thesis
  proof (cases "find_ext cert SAN_OID")
    case None
    then have "collect_emails L (concat (subject cert)) own = Inr names"
      using assms d by (simp add: collect_asserted_names_def own_def Let_def)
    then have "set own \<subseteq> set names" by (auto dest: collect_emails_prefix)
    moreover have "collect_asserted_names L cert r = Inr own"
      using None False d by (simp add: collect_asserted_names_def own_def Let_def)
    ultimately show ?thesis by blast
  next
    case (Some ext)
    then have "collect_asserted_names L cert r = collect_asserted_names L cert True"
      by (simp add: collect_asserted_names_def)
    with assms show ?thesis by simp
  qed
qed

lemma check_cert_covers:
  assumes "nc_covers s t" "check_cert L t cert = Inr ()"
  shows "check_cert L s cert = Inr ()"
proof (cases "nc_is_empty s")
  case True
  then show ?thesis by (simp add: check_cert_def)
next
  case False
  let ?r = "\<lambda>st. list_ex is_rfc822_base (excluded st @ concat (permitted st))"
  have "\<not> nc_is_empty t" using False assms(1) by (auto simp: nc_is_empty_def nc_covers_def)
  then obtain names where n: "collect_asserted_names L cert (?r t) = Inr names"
    and ok: "\<forall>n\<in>set names. check_name L t n = Inr ()"
    using assms(2) by (auto simp: check_cert_def result_simps Let_def)
  have "?r s \<Longrightarrow> ?r t" using assms(1) by (fastforce simp: nc_covers_def list_ex_iff)
  then have "\<exists>few. collect_asserted_names L cert (?r s) = Inr few \<and> set few \<subseteq> set names"
    using n collect_asserted_names_mono [of L cert names "?r s"]
    by (cases "?r t"; cases "?r s") auto
  then obtain few where "collect_asserted_names L cert (?r s) = Inr few" "set few \<subseteq> set names"
    by blast
  moreover have "check_name L s n = Inr ()" if "check_name L t n = Inr ()" for n
    using that assms(1) by (auto simp: check_name_iff nc_covers_def)
  ultimately show ?thesis
    using False ok by (auto simp: check_cert_def result_simps Let_def)
qed

interpretation nc: accumulating_policy nc_default add_from_cert "check_cert L" nc_covers for L
proof
  fix s t u :: name_constraint_state and c x :: certificate
  show "nc_covers s s" by (simp add: nc_covers_def)
  show "nc_covers s t \<Longrightarrow> nc_covers t u \<Longrightarrow> nc_covers s u" by (auto simp: nc_covers_def)
  obtain ps es r where a: "\<And>st. add_from_cert st c
    = (\<lparr>permitted = permitted st @ ps, excluded = excluded st @ es\<rparr>, r)"
    using add_from_cert_uniform [of c] by blast
  show "nc_covers s (fst (add_from_cert s c))" by (simp add: a nc_covers_def)
  show "nc_covers (fst (add_from_cert nc_default c)) (fst (add_from_cert s c))"
    by (simp add: a nc_covers_def nc_default_def)
  show "nc_covers s t \<Longrightarrow> check_cert L t x = Inr () \<Longrightarrow> check_cert L s x = Inr ()"
    by (rule check_cert_covers)
qed

subsection \<open>Attribute sets as multisets\<close>

text \<open>Two attributes agree: same type, matching value.\<close>

definition atv_agree :: "lib \<Rightarrow> atv \<Rightarrow> atv \<Rightarrow> bool" where
  "atv_agree L b n \<longleftrightarrow>
     (case (b, n) of ((b_oid, b_tag, b_val), (n_oid, n_tag, n_val)) \<Rightarrow>
        n_oid = b_oid \<and> atv_value_matches L b_tag b_val n_tag n_val)"

lemma atv_value_matches_sym:
  "atv_value_matches L t v t' v' \<Longrightarrow> atv_value_matches L t' v' t v"
  by (auto simp: atv_value_matches_def split: option.splits if_splits)

lemma atv_value_matches_trans:
  "atv_value_matches L t v t' v' \<Longrightarrow> atv_value_matches L t' v' t'' v'' \<Longrightarrow>
    atv_value_matches L t v t'' v''"
  by (auto simp: atv_value_matches_def split: option.splits if_splits)

lemma atv_agree_sym: "atv_agree L a b \<Longrightarrow> atv_agree L b a"
  by (auto simp: atv_agree_def dest: atv_value_matches_sym split: prod.splits)

lemma atv_agree_trans: "atv_agree L a b \<Longrightarrow> atv_agree L b c \<Longrightarrow> atv_agree L a c"
  by (auto simp: atv_agree_def dest: atv_value_matches_trans split: prod.splits)

text \<open>The attributes not yet used.\<close>

definition unused :: "'a list \<Rightarrow> bool list \<Rightarrow> 'a list" where
  "unused ns us = map fst (filter (\<lambda>(n, u). \<not> u) (zip ns us))"

lemma unused_Cons [simp]: "unused (n # ns) (u # us) = (if u then [] else [n]) @ unused ns us"
  by (simp add: unused_def)

lemma unused_Nil [simp]: "unused [] us = []" "unused ns [] = []"
  by (simp_all add: unused_def)

lemma unused_fresh: "unused ns (replicate (length ns) False) = ns"
  by (induction ns) auto

lemma rdn_scan_Cons:
  "rdn_scan L b (n # ns) (u # us) =
    (if \<not> u \<and> atv_agree L b n then Some (True # us) else map_option ((#) u) (rdn_scan L b ns us))"
  by (cases b; cases n) (simp add: atv_agree_def)

declare rdn_scan.simps(1) [simp del]

lemma rdn_scan_Some:
  "rdn_scan L b ns us = Some us' \<Longrightarrow>
    length us' = length us \<and>
    (\<exists>n. atv_agree L b n \<and> mset (unused ns us) = add_mset n (mset (unused ns us')))"
proof (induction ns arbitrary: us us')
  case (Cons n ns)
  then obtain u vs where us: "us = u # vs" by (cases us) auto
  show ?case
  proof (cases "\<not> u \<and> atv_agree L b n")
    case True
    with Cons.prems us have "us' = True # vs" by (simp add: rdn_scan_Cons)
    with True us show ?thesis by (intro conjI exI [of _ n]) simp_all
  next
    case False
    with Cons.prems us obtain ws where w: "rdn_scan L b ns vs = Some ws" "us' = u # ws"
      by (auto simp: rdn_scan_Cons split: if_splits)
    from Cons.IH [OF w(1)] obtain m where "length ws = length vs" "atv_agree L b m"
      "mset (unused ns vs) = add_mset m (mset (unused ns ws))" by blast
    with w(2) us show ?thesis by (intro conjI exI [of _ m]) simp_all
  qed
qed simp

lemma rdn_scan_None:
  "length ns = length us \<Longrightarrow> rdn_scan L b ns us = None \<Longrightarrow> n \<in> set (unused ns us) \<Longrightarrow>
    \<not> atv_agree L b n"
  by (induction ns us rule: list_induct2) (auto simp: rdn_scan_Cons split: if_splits)

text \<open>Exchange: an agreeing partner of the first element can be chosen freely.\<close>

lemma agree_exchange:
  assumes "list_all2 (atv_agree L) (b # bs) (m # ms)" and "atv_agree L b n"
    and "n \<in># mset (m # ms)"
  shows "\<exists>ms'. add_mset n (mset ms') = mset (m # ms) \<and> list_all2 (atv_agree L) bs ms'"
proof (cases "n = m")
  case True
  with assms(1) show ?thesis by auto
next
  case False
  then have "n \<in> set ms" using assms(3) by auto
  then obtain r1 r2 where r: "ms = r1 @ n # r2" by (auto dest: split_list)
  with assms(1) obtain b1 bi b2 where b: "bs = b1 @ bi # b2" "list_all2 (atv_agree L) b1 r1"
    "atv_agree L bi n" "list_all2 (atv_agree L) b2 r2"
    by (auto simp: list_all2_append2 list_all2_Cons2)
  have "atv_agree L bi b" using b(3) assms(2) by (blast intro: atv_agree_sym atv_agree_trans)
  then have "atv_agree L bi m" using assms(1) by (auto intro: atv_agree_trans)
  with b have "list_all2 (atv_agree L) bs (r1 @ m # r2)"
    by (simp add: list_all2_appendI)
  moreover have "add_mset n (mset (r1 @ m # r2)) = mset (m # ms)" using r by simp
  ultimately show ?thesis by blast
qed

lemma rdn_pair_iff:
  "length ns = length us \<Longrightarrow> length (unused ns us) = length bs \<Longrightarrow>
    rdn_pair L bs ns us \<longleftrightarrow> (\<exists>ms. mset ms = mset (unused ns us) \<and> list_all2 (atv_agree L) bs ms)"
proof (induction bs arbitrary: us)
  case Nil
  then show ?case by simp
next
  case (Cons b bs)
  show ?case
  proof (cases "rdn_scan L b ns us")
    case None
    have "\<not> list_all2 (atv_agree L) (b # bs) ms" if "mset ms = mset (unused ns us)" for ms
    proof
      assume "list_all2 (atv_agree L) (b # bs) ms"
      then obtain m zs where "ms = m # zs" "atv_agree L b m" unfolding list_all2_Cons1 by blast
      then have "m \<in> set ms" "atv_agree L b m" by simp_all
      with that rdn_scan_None [OF Cons.prems(1) None] show False by (metis set_mset_mset)
    qed
    with None show ?thesis by auto
  next
    case (Some us')
    obtain n where n: "atv_agree L b n" "mset (unused ns us) = add_mset n (mset (unused ns us'))"
      using rdn_scan_Some [OF Some] by blast
    have len: "length ns = length us'" using Cons.prems(1) rdn_scan_Some [OF Some] by simp
    have "length (unused ns us) = Suc (length (unused ns us'))"
      using n(2) by (metis size_add_mset size_mset)
    with Cons.prems(2) have len': "length (unused ns us') = length bs" by simp
    have "(\<exists>ms. mset ms = mset (unused ns us') \<and> list_all2 (atv_agree L) bs ms)
      \<longleftrightarrow> (\<exists>ms. mset ms = mset (unused ns us) \<and> list_all2 (atv_agree L) (b # bs) ms)"
    proof
      assume "\<exists>ms. mset ms = mset (unused ns us') \<and> list_all2 (atv_agree L) bs ms"
      then obtain ms where "mset ms = mset (unused ns us')" "list_all2 (atv_agree L) bs ms" by blast
      with n show "\<exists>ms. mset ms = mset (unused ns us) \<and> list_all2 (atv_agree L) (b # bs) ms"
        by (intro exI [of _ "n # ms"]) simp
    next
      assume "\<exists>ms. mset ms = mset (unused ns us) \<and> list_all2 (atv_agree L) (b # bs) ms"
      then obtain m ms where m: "mset (m # ms) = mset (unused ns us)"
        "list_all2 (atv_agree L) (b # bs) (m # ms)" by (auto simp: list_all2_Cons1)
      then have "n \<in># mset (m # ms)" using n(2) by simp
      from agree_exchange [OF m(2) n(1) this] m(1) n(2)
      show "\<exists>ms. mset ms = mset (unused ns us') \<and> list_all2 (atv_agree L) bs ms" by auto
    qed
    with Some Cons.IH [OF len len'] show ?thesis by simp
  qed
qed

subsection \<open>Nothing of an accepted extension is skipped\<close>




text \<open>The names one SAN entry asserts.\<close>

definition san_entry_names :: "u8 \<times> bytes \<Rightarrow> asserted_name list" where
  "san_entry_names e =
     (case e of (t, v) \<Rightarrow>
        if t = GN_DNS then [ADns (to_ascii_lowercase v)]
        else if t = GN_RFC822 then [ARfc822 (to_ascii_lowercase v)]
        else if t = GN_IP then [AIp v]
        else if t = GN_DIRECTORY then [ADirectory v]
        else [])"

lemma collect_san_loop_inv:
  "collect_san_loop pos names = Inr out \<Longrightarrow>
    \<exists>es. pos = der.enc_all es \<and> out = names @ concat (map san_entry_names es)"
proof (induction pos arbitrary: names rule: measure_induct_rule [of length])
  case (less pos)
  show ?case
  proof (cases "pos = []")
    case True
    with less.prems show ?thesis
      by (intro exI [of _ "[]"]) (simp add: collect_san_loop.simps [of "[]"])
  next
    case False
    with less.prems obtain t v rest where
      p: "parse_tlv_with_rest pos = Inr (t, v, rest)"
      and r: "collect_san_loop rest (names @ san_entry_names (t, v)) = Inr out"
      by (subst (asm) collect_san_loop.simps)
        (auto simp: ia5_string_def san_entry_names_def split: sum.splits prod.splits if_splits)
    from less.IH [OF parse_tlv_with_rest_shorter [OF p] r] obtain es where
      "rest = der.enc_all es" "out = (names @ san_entry_names (t, v)) @ concat (map san_entry_names es)"
      by blast
    with p show ?thesis
      by (intro exI [of _ "(t, v) # es"]) (simp add: tlv_Inr_iff)
  qed
qed

lemma scan_group_result:
  "scan_group L n g has = Inr (h, m) \<Longrightarrow>
    (if m then \<exists>p\<in>set g. same_name_type p n \<and> base_matches L p n = Inr True
     else h \<longleftrightarrow> has \<or> (\<exists>p\<in>set g. same_name_type p n))"
proof (induction g arbitrary: has)
  case (Cons p g)
  show ?case
  proof (cases "same_name_type p n")
    case True
    with Cons.prems obtain m' where m': "base_matches L p n = Inr m'"
      "(if m' then Inr (True, True) else scan_group L n g True) = Inr (h, m)"
      by (auto simp: result_simps)
    with True Cons.IH [of True] show ?thesis by (cases m') (auto split: if_splits)
  next
    case False
    with Cons show ?thesis by (auto split: if_splits)
  qed
qed auto

lemma check_group_sound:
  assumes "check_group L n g = Inr ()"
  shows "(\<forall>p\<in>set g. \<not> same_name_type p n)
    \<or> (\<exists>p\<in>set g. same_name_type p n \<and> base_matches L p n = Inr True)"
proof -
  obtain h m where "scan_group L n g False = Inr (h, m)" "\<not> (h \<and> \<not> m)"
    using assms by (auto simp: check_group_def result_simps split: if_splits)
  with scan_group_result [of L n g False h m] show ?thesis by (auto split: if_splits)
qed

subsection \<open>Case folding\<close>

text \<open>On ASCII text the normalisation depends only on the lower-cased characters, provided the
  Unicode table folds ASCII letters as it does.\<close>

definition folds_ascii :: "lib \<Rightarrow> bool" where
  "folds_ascii L \<longleftrightarrow> (\<forall>c < 128. to_lowercase L c = [if 65 \<le> c \<and> c \<le> 90 then c + 32 else c])"

lemma unat_to_ascii_lower:
  assumes "b < 0x80"
  shows "unat (to_ascii_lower b) = (if 65 \<le> unat b \<and> unat b \<le> 90 then unat b + 32 else unat b)"
    "to_ascii_lower b < 0x80"
proof -
  have "unat b < 128" using assms by (simp add: word_less_nat_alt)
  then show "unat (to_ascii_lower b) = (if 65 \<le> unat b \<and> unat b \<le> 90 then unat b + 32 else unat b)"
    by (simp add: to_ascii_lower_def word_le_nat_alt unat_word_ariths)
  then show "to_ascii_lower b < 0x80"
    using \<open>unat b < 128\<close> by (simp add: word_less_nat_alt)
qed

lemma is_ascii_lowercase: "is_ascii s \<Longrightarrow> is_ascii (to_ascii_lowercase s)"
  by (simp add: is_ascii_def to_ascii_lowercase_def list_all_length unat_to_ascii_lower)

lemma normalize_lowercase:
  assumes "folds_ascii L" "is_ascii s"
  shows "normalize_loop L (map unat (to_ascii_lowercase s)) out p = normalize_loop L (map unat s) out p"
  using assms(2)
proof (induction s arbitrary: out p)
  case Nil
  then show ?case by (simp add: to_ascii_lowercase_def)
next
  case (Cons b s)
  then have b: "b < 0x80" and s: "is_ascii s" by (simp_all add: is_ascii_def)
  then have n: "unat b < 128" by (simp add: word_less_nat_alt)
  have "is_whitespace (unat (to_ascii_lower b)) = is_whitespace (unat b)"
    "to_lowercase L (unat (to_ascii_lower b)) = to_lowercase L (unat b)"
    using b n assms(1)
    by (auto simp: unat_to_ascii_lower is_whitespace_def folds_ascii_def)
  with Cons.IH [OF s] show ?case by (simp add: to_ascii_lowercase_def)
qed

subsection \<open>Properties\<close>

text \<open>DNSName matching is at label boundaries: the empty constraint matches every name, a
  constraint with a leading dot exactly the names ending in it, any other constraint itself and
  the names that end in it after a dot. A partial label (\<open>notexample.com\<close> for \<open>example.com\<close>)
  never matches.\<close>

theorem dns_matches_iff:
  "dns_matches base name \<longleftrightarrow>
     base = [] \<or> (\<exists>suf pre. base = 0x2E # suf \<and> name = pre @ 0x2E # suf)
     \<or> base \<noteq> [] \<and> hd base \<noteq> 0x2E \<and> (name = base \<or> (\<exists>pre. name = pre @ 0x2E # base))"
  unfolding dns_matches_def suffix_after_iff by (cases base) auto

text \<open>Rfc822Name matching looks at the host after the last \<open>@\<close>: a leading-dot constraint
  matches sub-domains only, a constraint with an \<open>@\<close> only that mailbox, a bare host only mailboxes
  on exactly that host.\<close>

theorem rfc822_matches_iff:
  assumes "host = (if 0x40 \<in> set name then rev (takeWhile (\<lambda>c. c \<noteq> 0x40) (rev name)) else name)"
  shows "rfc822_matches base name \<longleftrightarrow>
     base = [] \<or> (\<exists>suf pre. base = 0x2E # suf \<and> host = pre @ 0x2E # suf)
     \<or> base \<noteq> [] \<and> hd base \<noteq> 0x2E \<and> (if 0x40 \<in> set base then name = base else host = base)"
proof -
  have "host = (case rsplit_once 0x40 name of Some (_, h) \<Rightarrow> h | None \<Rightarrow> name)"
  proof (cases "rsplit_once 0x40 name")
    case None
    then have "0x40 \<notin> set name" by (simp add: rsplit_once_None_iff)
    with None show ?thesis using assms by simp
  next
    case (Some p)
    then obtain l r where lr: "rsplit_once 0x40 name = Some (l, r)" by (cases p) auto
    then have "name = l @ 0x40 # r" "0x40 \<notin> set r" by (simp_all add: rsplit_once_Some_iff)
    moreover from this have "takeWhile (\<lambda>c. c \<noteq> 0x40) (rev r @ 0x40 # rev l) = rev r"
      by (subst takeWhile_append2) auto
    ultimately show ?thesis using assms lr by simp
  qed
  then show ?thesis
    unfolding rfc822_matches_def Let_def suffix_after_iff by (cases base) auto
qed

theorem rfc822_matches_iff_witness:
  "rfc822_matches (ascii ''.example.com'') (ascii ''a@b.example.com'')
   \<and> \<not> rfc822_matches (ascii ''example.com'') (ascii ''a@b.example.com'')"
  using rfc822_matches_iff [of "ascii ''b.example.com''" "ascii ''a@b.example.com''" "ascii ''.example.com''"]
    rfc822_matches_iff [of "ascii ''b.example.com''" "ascii ''a@b.example.com''" "ascii ''example.com''"]
  by (simp add: ascii_def)

text \<open>IPAddress matching is containment under the mask: same address family, and address and
  name agree on every masked bit.\<close>

theorem ip_matches_iff:
  "ip_matches addr msk name \<longleftrightarrow>
     length name = length addr \<and> length msk = length addr
     \<and> (\<forall>i k. i < length addr \<longrightarrow> bit (msk ! i) k \<longrightarrow> bit (addr ! i) k = bit (name ! i) k)"
proof -
  have e: "a AND m = n AND m \<longleftrightarrow> (\<forall>k. bit m k \<longrightarrow> bit a k = bit n k)" for a m n :: u8
    unfolding bit_eq_iff bit_and_iff by (metis bit_imp_possible_bit)
  show ?thesis unfolding ip_matches_def e by (auto simp: list_all_length)
qed

theorem ip_matches_iff_witness:
  "ip_matches [10, 1, 0, 0] [255, 255, 0, 0] [10, 1, 7, 9]
   \<and> \<not> ip_matches [10, 1, 0, 0] [255, 255, 0, 0] [10, 2, 7, 9]"
proof -
  have "bit (255 :: u8) 0 \<and> bit (1 :: u8) 0 \<noteq> bit (2 :: u8) 0" by simp
  then show ?thesis
    using ip_matches_iff [of "[10, 1, 0, 0]" "[255, 255, 0, 0]" "[10, 2, 7, 9]"]
    by (auto simp: ip_matches_def)
qed

text \<open>Two RDNs match exactly when their attributes can be paired off one to one with equal
  types and matching values, whatever the SET order: the greedy pairing of the code never misses
  a complete pairing.\<close>

theorem rdn_matches_multiset:
  assumes "rdn_atvs b = Inr bs" "rdn_atvs n = Inr ns"
  shows "rdn_matches L b n = Inr (\<exists>ms. mset ms = mset ns \<and> list_all2 (atv_agree L) bs ms)"
proof (cases "length bs = length ns")
  case True
  then show ?thesis
    using assms rdn_pair_iff [of ns "replicate (length ns) False" bs L]
    by (simp add: rdn_matches_def unused_fresh)
next
  case False
  then have "\<not> (\<exists>ms. mset ms = mset ns \<and> list_all2 (atv_agree L) bs ms)"
    by (metis list_all2_lengthD mset_eq_length)
  with False assms show ?thesis by (simp add: rdn_matches_def)
qed

theorem rdn_matches_multiset_witness:
  "rdn_matches toy_lib [0x31, 8, 0x30, 6, 6, 1, 1, 0x13, 1, 0x41] [0x31, 8, 0x30, 6, 6, 1, 1, 0x0c, 1, 0x61]
    = Inr True"
proof -
  have b: "rdn_atvs [0x31, 8, 0x30, 6, 6, 1, 1, 0x13, 1, 0x41] = Inr [([1], 0x13, [0x41])]"
    by (simp add: tlv_eval rdn_atvs_def rdn_atvs_loop.simps directory_string_well_formed_def is_ascii_def)
  have n: "rdn_atvs [0x31, 8, 0x30, 6, 6, 1, 1, 0x0c, 1, 0x61] = Inr [([1], 0x0c, [0x61])]"
    by (simp add: tlv_eval rdn_atvs_def rdn_atvs_loop.simps directory_string_well_formed_def
        from_utf8_ok_def utf8_chars.simps)
  have "atv_agree toy_lib ([1], 0x13, [0x41]) ([1], 0x0c, [0x61])"
    by (simp add: atv_agree_def atv_value_matches_def DIRECTORY_STRING_TAGS_def
        normalize_directory_string_def utf8_chars.simps is_whitespace_def toy_lib_def)
  then have "list_all2 (atv_agree toy_lib) [([1], 0x13, [0x41])] [([1], 0x0c, [0x61])]" by simp
  then show ?thesis unfolding rdn_matches_multiset [OF b n] by blast
qed

text \<open>An attribute value in one of the interchangeable string types matches its re-encoding in
  another one with different letter case, so an excluded directory name cannot be evaded by
  re-casing or re-tagging an RDN. Hypothesis on the Unicode table: it folds ASCII letters.\<close>

theorem atv_value_matches_recased:
  assumes "folds_ascii L" "is_ascii s"
    and "t \<in> {0x0c, 0x13, 0x16}" "t' \<in> {0x0c, 0x13, 0x16}"
  shows "atv_value_matches L t s t' (to_ascii_lowercase s)"
  using assms(2-4) normalize_lowercase [OF assms(1,2)] is_ascii_lowercase [OF assms(2)]
  by (simp add: atv_value_matches_def DIRECTORY_STRING_TAGS_def normalize_directory_string_def
      utf8_chars_ascii)

theorem atv_value_matches_recased_witness:
  "atv_value_matches toy_lib 0x13 (ascii ''Example CA'') 0x0c (to_ascii_lowercase (ascii ''Example CA''))"
  by (rule atv_value_matches_recased)
    (simp_all add: toy_lib_def folds_ascii_def is_ascii_def ascii_def)

text \<open>C11: What an accepted certificate satisfies: every name it asserts avoids every excluded
  subtree, and in each issuer's group that constrains names of its type it lies in some permitted
  subtree.\<close>

theorem check_cert_sound:
  assumes "check_cert L st cert = Inr ()" "\<not> nc_is_empty st"
  shows "\<exists>names.
     collect_asserted_names L cert (list_ex is_rfc822_base (excluded st @ concat (permitted st)))
       = Inr names
     \<and> (\<forall>n\<in>set names.
          (\<forall>ex\<in>set (excluded st). base_matches L ex n = Inr False)
          \<and> (\<forall>g\<in>set (permitted st).
               (\<forall>p\<in>set g. \<not> same_name_type p n)
               \<or> (\<exists>p\<in>set g. same_name_type p n \<and> base_matches L p n = Inr True)))"
proof -
  obtain names where n: "collect_asserted_names L cert
      (list_ex is_rfc822_base (excluded st @ concat (permitted st))) = Inr names"
    and ok: "\<forall>n\<in>set names. check_name L st n = Inr ()"
    using assms by (auto simp: check_cert_def result_simps Let_def)
  from ok have "\<forall>n\<in>set names.
          (\<forall>ex\<in>set (excluded st). base_matches L ex n = Inr False)
          \<and> (\<forall>g\<in>set (permitted st).
               (\<forall>p\<in>set g. \<not> same_name_type p n)
               \<or> (\<exists>p\<in>set g. same_name_type p n \<and> base_matches L p n = Inr True))"
    unfolding check_name_iff using check_group_sound by blast
  with n show ?thesis by blast
qed

text \<open>A certificate with one SAN, a DNS name.\<close>

definition dns_cert :: "bytes \<Rightarrow> certificate" where
  "dns_cert host = \<lparr>serial_number = [1], tbs_signature = \<lparr>alg_oid = [], alg_parameters = None\<rparr>,
     issuer = [], not_before = 0, not_after = 100, subject = [],
     subject_public_key_info =
       \<lparr>spki_algorithm = \<lparr>alg_oid = [], alg_parameters = None\<rparr>, subject_public_key = [7]\<rparr>,
     extensions = Some [\<lparr>extn_id = SAN_OID, critical = False,
       extn_value = encode_tlv 0x30 (encode_tlv GN_DNS host)\<rparr>],
     signature_algorithm = \<lparr>alg_oid = [], alg_parameters = None\<rparr>, signature = []\<rparr>"

lemma dns_cert_names:
  assumes "is_ascii host" "length host < 2 ^ 31"
  shows "collect_asserted_names toy_lib (dns_cert host) r = Inr [ADns (to_ascii_lowercase host)]"
proof -
  have f: "tlv_fits GN_DNS host" using assms(2) by (simp add: tlv_fits_def GN_DNS_def)
  have "length (encode_tlv GN_DNS host) < 2 ^ 32"
    using assms(2) by (simp add: encode_tlv_def encode_der_length_def)
  then have "tlv_fits 0x30 (encode_tlv GN_DNS host)" by (simp add: tlv_fits_def)
  then have p: "parse_tlv (encode_tlv 0x30 (encode_tlv GN_DNS host)) = Inr (0x30, encode_tlv GN_DNS host)"
    by (rule parse_tlv_encode)
  have "collect_san_loop (encode_tlv GN_DNS host) [] = Inr [ADns (to_ascii_lowercase host)]"
    using assms(1) parse_encode_tlv_exact [OF f]
    by (simp add: collect_san_loop.simps [of "encode_tlv GN_DNS host"]
        collect_san_loop.simps [of "[]"] ia5_string_def)
  with p show ?thesis
    by (simp add: collect_asserted_names_def toy_lib_def dns_cert_def find_ext_def collect_san_names_def)
qed

theorem check_cert_sound_witness:
  "\<exists>names. collect_asserted_names toy_lib (dns_cert (ascii ''a.b'')) False = Inr names
     \<and> base_matches toy_lib (BDns (ascii ''b'')) (hd names) = Inr True"
proof -
  let ?st = "\<lparr>permitted = [[BDns (ascii ''b'')]], excluded = [BDns (ascii ''c'')]\<rparr>"
  have names: "collect_asserted_names toy_lib (dns_cert (ascii ''a.b'')) False = Inr [ADns (ascii ''a.b'')]"
    using dns_cert_names [of "ascii ''a.b''" False]
    by (simp add: is_ascii_def ascii_def to_ascii_lowercase_def to_ascii_lower_def)
  then have "check_cert toy_lib ?st (dns_cert (ascii ''a.b'')) = Inr ()"
    by (simp add: check_cert_def nc_is_empty_def check_name_def check_excluded_def check_group_def
        dns_matches_def ascii_def ends_with_def)
  then show ?thesis
    using check_cert_sound [of toy_lib ?st "dns_cert (ascii ''a.b'')"] names
    by (fastforce simp: nc_is_empty_def)
qed

text \<open>Adding constraints never broadens what is accepted: a certificate accepted after the CAs
  of a path were folded in (from any state) satisfies each of these CAs' own constraints alone.\<close>

theorem check_cert_each_issuer:
  assumes "ca \<in> set cas"
    and "check_cert L (foldl (\<lambda>s c. fst (add_from_cert s c)) st cas) cert = Inr ()"
  shows "check_cert L (fst (add_from_cert nc_default ca)) cert = Inr ()"
  using assms nc.check_accum_member by (simp add: nc.accum_def)

theorem check_cert_each_issuer_witness:
  "check_cert toy_lib (fst (add_from_cert nc_default (dns_cert [0x61]))) (dns_cert [0x62]) = Inr ()"
proof (rule check_cert_each_issuer [of _ "[dns_cert [0x61]]" _ nc_default])
  show "dns_cert [0x61] \<in> set [dns_cert [0x61]]" by simp
  show "check_cert toy_lib (foldl (\<lambda>s c. fst (add_from_cert s c)) nc_default [dns_cert [0x61]])
      (dns_cert [0x62]) = Inr ()"
    by (simp add: add_from_cert_def find_ext_def dns_cert_def SAN_OID_def NAME_CONSTRAINTS_OID_def
        check_cert_def nc_is_empty_def nc_default_def)
qed



end
