(* ===== verification/Trust_Store.thy ===== *)
theory Trust_Store
  imports Verify Name_Constraint_Facts
begin

section \<open>The trust store and path validation (\<open>src/src/trust/store.rs\<close>)\<close>

text \<open>
  The certificate-profile checks of the path validator, the store of trust anchors, and
  \<open>verify_chain_inner\<close> with its public variants. \<open>ltv\<close> is the build feature that compiles in the
  extension-role and name-constraint checks. Loading anchors from files is in \<open>Anchor_Loading\<close>.
\<close>

subsection \<open>Profile checks\<close>

definition basic_constraints :: "certificate \<Rightarrow> (trust_error, bool \<times> u64 option) result" where
  "basic_constraints cert =
     (case find_ext cert BASIC_CONSTRAINTS_OID of
        None \<Rightarrow> Inr (False, None)
      | Some ext \<Rightarrow>
          map_err (\<lambda>e. CertificateParse (ParseBasicConstraints e)) (parse_basic_constraints (extn_value ext)))"

definition is_self_issued :: "certificate \<Rightarrow> bool" where
  "is_self_issued cert \<longleftrightarrow> subject cert = issuer cert"

definition parse_key_cert_sign_bit :: "bytes \<Rightarrow> (trust_error, bool) result" where
  "parse_key_cert_sign_bit v =
     and_then (map_err (\<lambda>e. CertificateParse (ParseKuTlv e)) (parse_tlv_with_rest v))
       (\<lambda>(tag, body, rest).
         if rest \<noteq> [] then Inl (CertificateParse ParseKuTrailing)
         else if tag \<noteq> 0x03 then Inl (CertificateParse (ParseKuTag tag))
         else if body = [] then Inl (CertificateParse ParseKuMissingUnused)
         else if 7 < hd body then Inl (CertificateParse (ParseKuUnused (hd body)))
         else if tl body = [] then Inl (CertificateParse ParseKuNoContent)
         else if 0 < hd body \<and> last (tl body) AND (push_bit (unat (hd body)) 1 - 1) \<noteq> 0
         then Inl (CertificateParse (ParseKuPadding (hd body)))
         else Inr (drop_bit 2 (hd (tl body)) AND 1 = 1))"

definition cert_key_cert_sign :: "certificate \<Rightarrow> (trust_error, bool option) result" where
  "cert_key_cert_sign cert =
     (case find_ext cert KEY_USAGE_OID of
        None \<Rightarrow> Inr None
      | Some ext \<Rightarrow> and_then (parse_key_cert_sign_bit (extn_value ext)) (\<lambda>b. Inr (Some b)))"

definition validate_intermediate_ca_extensions ::
  "certificate \<Rightarrow> cert_label \<Rightarrow> (trust_error, unit) result" where
  "validate_intermediate_ca_extensions cert label =
     and_then (basic_constraints cert) (\<lambda>(is_ca, _).
       if \<not> is_ca then Inl (ProfileViolation (PvNotCa label))
       else and_then (cert_key_cert_sign cert) (\<lambda>ku.
         case ku of
           Some False \<Rightarrow> Inl (ProfileViolation (PvNoKeyCertSign label))
         | _ \<Rightarrow> Inr ()))"

text \<open>The counter is a \<open>u64\<close> that steps once per element of a slice, so it never wraps.\<close>

fun count_subordinate_cas :: "cert_label \<Rightarrow> certificate list \<Rightarrow> nat \<Rightarrow> (trust_error, nat) result" where
  "count_subordinate_cas label [] n = Inr n"
| "count_subordinate_cas label (cert # certs) n =
     and_then (map_err (\<lambda>e. ProfileViolation (PvBasicConstraintsBelow label e)) (basic_constraints cert))
       (\<lambda>(is_ca, _).
         count_subordinate_cas label certs (if is_ca \<and> \<not> is_self_issued cert then n + 1 else n))"

definition enforce_path_len ::
  "certificate \<Rightarrow> certificate list \<Rightarrow> cert_label \<Rightarrow> (trust_error, unit) result" where
  "enforce_path_len issuer_cert below label =
     and_then (map_err (\<lambda>e. ProfileViolation (PvBasicConstraintsFor label e)) (basic_constraints issuer_cert))
       (\<lambda>(_, path_len).
         case path_len of
           None \<Rightarrow> Inr ()
         | Some max_depth \<Rightarrow>
             and_then (count_subordinate_cas label below 0) (\<lambda>n.
               if unat max_depth < n then Inl (ProfileViolation (PvPathLen max_depth label n))
               else Inr ()))"

definition RECOGNIZED_CRITICAL_EXT_OIDS :: "oid list" where
  "RECOGNIZED_CRITICAL_EXT_OIDS = [[2, 5, 29, 19], [2, 5, 29, 15], [2, 5, 29, 37]]"

definition RECOGNIZED_CRITICAL_EXT_OIDS_LTV :: "oid list" where
  "RECOGNIZED_CRITICAL_EXT_OIDS_LTV =
     [[2, 5, 29, 17], [2, 5, 29, 31], [1, 3, 6, 1, 5, 5, 7, 1, 1], NAME_CONSTRAINTS_OID]"

definition reject_duplicate_extensions :: "certificate \<Rightarrow> cert_label \<Rightarrow> (trust_error, unit) result" where
  "reject_duplicate_extensions cert label =
     (case extensions cert of
        None \<Rightarrow> Inr ()
      | Some exts \<Rightarrow>
          (case first_duplicate {} exts of
             Some oid \<Rightarrow> Inl (ProfileViolation (PvDuplicate label oid))
           | None \<Rightarrow> Inr ()))"

text \<open>One iteration of the critical-extension loop.\<close>

definition check_critical ::
  "bool \<Rightarrow> certificate \<Rightarrow> cert_label \<Rightarrow> extension \<Rightarrow> (trust_error, unit) result" where
  "check_critical ltv cert label ext =
     (if \<not> critical ext then Inr ()
      else
        and_then
          (if extn_id ext = [2, 5, 29, 37] then and_then (basic_constraints cert) (\<lambda>(is_ca, _). Inr is_ca)
           else Inr False) (\<lambda>critical_ca_eku.
          if critical_ca_eku then Inl (ProfileViolation (PvCriticalCaEku label))
          else
            let recognized = extn_id ext \<in> set RECOGNIZED_CRITICAL_EXT_OIDS
                  \<or> ltv \<and> extn_id ext \<in> set RECOGNIZED_CRITICAL_EXT_OIDS_LTV in
            if \<not> recognized then Inl (ProfileViolation (PvUnknownCritical label (extn_id ext)))
            else Inr ()))"

definition reject_unknown_critical_extensions ::
  "bool \<Rightarrow> certificate \<Rightarrow> cert_label \<Rightarrow> (trust_error, unit) result" where
  "reject_unknown_critical_extensions ltv cert label =
     (case extensions cert of
        None \<Rightarrow> Inr ()
      | Some exts \<Rightarrow> try_for (check_critical ltv cert label) exts)"

subsection \<open>Name constraints along a path\<close>

definition name_constraint_to_trust_error :: "certificate \<Rightarrow> name_constraint_error \<Rightarrow> trust_error" where
  "name_constraint_to_trust_error cert e = ProfileViolation (PvNameConstraint (subject cert) e)"

fun nc_path_loop ::
  "lib \<Rightarrow> certificate list \<Rightarrow> nat list \<Rightarrow> name_constraint_state \<Rightarrow> (trust_error, unit) result" where
  "nc_path_loop L path [] st = Inr ()"
| "nc_path_loop L path (t # tops) st =
     (let (st', r) = add_from_cert st (path ! t) in
      and_then (map_err (name_constraint_to_trust_error (path ! t)) r) (\<lambda>_.
        if nc_is_empty st' then nc_path_loop L path tops st'
        else
          and_then (try_for (\<lambda>sub. map_err (name_constraint_to_trust_error sub) (check_cert L st' sub))
            (take t path)) (\<lambda>_.
          nc_path_loop L path tops st')))"

definition enforce_name_constraints_path :: "lib \<Rightarrow> certificate list \<Rightarrow> (trust_error, unit) result" where
  "enforce_name_constraints_path L path = nc_path_loop L path (rev [1..<length path]) nc_default"

subsection \<open>The store\<close>

record trust_anchor =
  ta_cert :: certificate
  ta_der :: bytes

record trust_store =
  anchors :: "trust_anchor list"
  ts_label :: "rstr option"
  ts_signature_policy :: signature_policy

definition store_new :: trust_store where
  "store_new = \<lparr>anchors = [], ts_label = None, ts_signature_policy = policy_default\<rparr>"

definition store_default :: trust_store where "store_default = store_new"

definition with_label :: "trust_store \<Rightarrow> rstr \<Rightarrow> trust_store" where
  "with_label s l = s\<lparr>ts_label := Some l\<rparr>"

definition with_signature_policy :: "trust_store \<Rightarrow> signature_policy \<Rightarrow> trust_store" where
  "with_signature_policy s p = s\<lparr>ts_signature_policy := p\<rparr>"

definition store_allow_legacy_signatures :: "trust_store \<Rightarrow> trust_store" where
  "store_allow_legacy_signatures s = s\<lparr>ts_signature_policy := policy_allow_legacy\<rparr>"

definition store_len :: "trust_store \<Rightarrow> nat" where
  "store_len s = length (anchors s)"

definition store_is_empty :: "trust_store \<Rightarrow> bool" where
  "store_is_empty s \<longleftrightarrow> anchors s = []"

text \<open>Mutating operations return the store they leave behind and their result.\<close>

definition add_der_certificate :: "lib \<Rightarrow> trust_store \<Rightarrow> bytes \<Rightarrow> trust_store \<times> (trust_error, unit) result" where
  "add_der_certificate L s der =
     (case cert_from_der L der of
        None \<Rightarrow> (s, Inl (CertificateParse ParseDerDecode))
      | Some cert \<Rightarrow> (s\<lparr>anchors := anchors s @ [\<lparr>ta_cert = cert, ta_der = der\<rparr>]\<rparr>, Inr ()))"

definition add_certificate :: "lib \<Rightarrow> trust_store \<Rightarrow> certificate \<Rightarrow> trust_store \<times> (trust_error, unit) result" where
  "add_certificate L s cert =
     (case cert_to_der L cert of
        None \<Rightarrow> (s, Inl (CertificateParse ParseDerEncode))
      | Some der \<Rightarrow> (s\<lparr>anchors := anchors s @ [\<lparr>ta_cert = cert, ta_der = der\<rparr>]\<rparr>, Inr ()))"

definition contains_der :: "trust_store \<Rightarrow> bytes \<Rightarrow> bool" where
  "contains_der s cert_der = list_ex (\<lambda>a. ta_der a = cert_der) (anchors s)"

definition find_issuer :: "trust_store \<Rightarrow> certificate \<Rightarrow> certificate option" where
  "find_issuer s cert = find (\<lambda>c. subject c = issuer cert) (map ta_cert (anchors s))"

definition find_all_issuers :: "trust_store \<Rightarrow> certificate \<Rightarrow> certificate list" where
  "find_all_issuers s cert = filter (\<lambda>c. subject c = issuer cert) (map ta_cert (anchors s))"

definition find_issuer_for_der :: "lib \<Rightarrow> trust_store \<Rightarrow> bytes \<Rightarrow> certificate option" where
  "find_issuer_for_der L s cert_der =
     (case cert_from_der L cert_der of None \<Rightarrow> None | Some cert \<Rightarrow> find_issuer s cert)"

definition store_certificates :: "trust_store \<Rightarrow> certificate list" where
  "store_certificates s = map ta_cert (anchors s)"

definition store_certificates_der :: "trust_store \<Rightarrow> bytes list" where
  "store_certificates_der s = map ta_der (anchors s)"

subsection \<open>Path validation\<close>

text \<open>The validity-window test, with the index it reports.\<close>

definition check_validity :: "datetime option \<Rightarrow> bool \<Rightarrow> nat \<Rightarrow> certificate \<Rightarrow> (trust_error, unit) result" where
  "check_validity validation_time positive_fraction i cert =
     (case validation_time of
        None \<Rightarrow> Inr ()
      | Some time \<Rightarrow>
          if time < not_before cert then Inl (NotYetValid i (not_before cert))
          else if not_after cert < time \<or> positive_fraction \<and> time = not_after cert
          then Inl (Expired i (not_after cert))
          else Inr ())"

text \<open>One step of the walk from \<open>chain[i]\<close> to its issuer \<open>chain[i + 1]\<close>.\<close>

definition verify_link ::
  "lib \<Rightarrow> crypto \<Rightarrow> signature_policy \<Rightarrow> certificate list \<Rightarrow> nat \<Rightarrow> (trust_error, unit) result" where
  "verify_link L K policy chain i =
     (let cert = chain ! i; issuer_cert = chain ! (i + 1) in
      if issuer cert \<noteq> subject issuer_cert
      then Inl (ChainBroken i (issuer cert) (Some (subject issuer_cert)))
      else
        and_then (verify_certificate_signature_with_policy L K cert issuer_cert policy) (\<lambda>_.
        and_then (validate_intermediate_ca_extensions issuer_cert (IssuerAt (i + 1))) (\<lambda>_.
          enforce_path_len issuer_cert (take (i + 1) chain) (IntermediateIndex (i + 1)))))"

text \<open>A candidate anchor for a chain that does not contain it.\<close>

definition verify_candidate ::
  "bool \<Rightarrow> lib \<Rightarrow> crypto \<Rightarrow> signature_policy \<Rightarrow> certificate list \<Rightarrow> datetime option \<Rightarrow> bool \<Rightarrow> certificate
    \<Rightarrow> (trust_error, certificate) result" where
  "verify_candidate ltv L K policy chain validation_time positive_fraction anchor =
     and_then (verify_certificate_signature_with_policy L K (last chain) anchor policy) (\<lambda>_.
     and_then (reject_duplicate_extensions anchor TrustAnchorLabel) (\<lambda>_.
     and_then (reject_unknown_critical_extensions ltv anchor TrustAnchorLabel) (\<lambda>_.
     and_then (validate_intermediate_ca_extensions anchor TrustAnchorLabel) (\<lambda>_.
     and_then (enforce_path_len anchor chain TrustAnchorLabel) (\<lambda>_.
     and_then (check_validity validation_time positive_fraction (length chain) anchor) (\<lambda>_.
     and_then (if ltv then enforce_name_constraints_path L (chain @ [anchor]) else Inr ()) (\<lambda>_.
       Inr anchor)))))))"

text \<open>The loop over the candidates: the first that validates, otherwise the last error. The source
  unwraps an optional last error, present because the list of candidates is not empty.\<close>

fun try_candidates ::
  "(certificate \<Rightarrow> (trust_error, certificate) result) \<Rightarrow> certificate list \<Rightarrow> trust_error option
    \<Rightarrow> (trust_error, certificate) result option" where
  "try_candidates f [] last_err = map_option Inl last_err"
| "try_candidates f (c # cs) last_err =
     (case f c of
        Inr anchor \<Rightarrow> Some (Inr anchor)
      | Inl e \<Rightarrow> try_candidates f cs (Some e))"

definition find_anchor ::
  "bool \<Rightarrow> lib \<Rightarrow> crypto \<Rightarrow> trust_store \<Rightarrow> certificate list \<Rightarrow> datetime option \<Rightarrow> bool
    \<Rightarrow> (trust_error, certificate) result" where
  "find_anchor ltv L K s chain validation_time positive_fraction =
     (let policy = ts_signature_policy s; final = last chain; candidates = find_all_issuers s final in
      and_then
        (if issuer final = subject final
         then and_then (ok_or (CertificateParse ParseAnchorLookup) (cert_to_der L final)) (\<lambda>last_der.
           Inr (find (\<lambda>a. ta_der a = last_der) (anchors s)))
         else Inr None) (\<lambda>direct.
        case direct of
          Some anchor \<Rightarrow>
            and_then (verify_certificate_signature_with_policy L K final final policy) (\<lambda>_.
            and_then (if ltv then enforce_name_constraints_path L chain else Inr ()) (\<lambda>_.
              Inr (ta_cert anchor)))
        | None \<Rightarrow>
            if candidates = [] then Inl (UntrustedRoot (issuer final))
            else the (try_candidates
              (verify_candidate ltv L K policy chain validation_time positive_fraction) candidates None)))"

definition verify_chain_inner ::
  "bool \<Rightarrow> lib \<Rightarrow> crypto \<Rightarrow> trust_store \<Rightarrow> certificate list \<Rightarrow> datetime option \<Rightarrow> cert_role option \<Rightarrow> bool
    \<Rightarrow> (trust_error, certificate) result" where
  "verify_chain_inner ltv L K s chain validation_time leaf_purpose positive_fraction =
     (if chain = [] then Inl EmptyChain
      else
        and_then (try_for (\<lambda>i.
            and_then (reject_duplicate_extensions (chain ! i) (CertificateAt i)) (\<lambda>_.
              reject_unknown_critical_extensions ltv (chain ! i) (CertificateAt i)))
          [0..<length chain]) (\<lambda>_.
        and_then (case leaf_purpose of
            Some role \<Rightarrow>
              if ltv then map_err (\<lambda>e. ProfileViolation (PvPurpose role e))
                (validate_extensions_for_role L (chain ! 0) role)
              else Inr ()
          | None \<Rightarrow> Inr ()) (\<lambda>_.
        and_then (try_for (\<lambda>i. check_validity validation_time positive_fraction i (chain ! i))
          [0..<length chain]) (\<lambda>_.
        and_then (try_for (verify_link L K (ts_signature_policy s) chain) [0..<length chain - 1]) (\<lambda>_.
          find_anchor ltv L K s chain validation_time positive_fraction)))))"

definition verify_chain ::
  "bool \<Rightarrow> lib \<Rightarrow> crypto \<Rightarrow> trust_store \<Rightarrow> certificate list \<Rightarrow> datetime option
    \<Rightarrow> (trust_error, certificate) result" where
  "verify_chain ltv L K s chain validation_time = verify_chain_inner ltv L K s chain validation_time None False"

text \<open>The two purpose variants exist in builds with \<open>ltv\<close> only.\<close>

definition verify_chain_for_purpose ::
  "lib \<Rightarrow> crypto \<Rightarrow> trust_store \<Rightarrow> certificate list \<Rightarrow> datetime option \<Rightarrow> cert_role
    \<Rightarrow> (trust_error, certificate) result" where
  "verify_chain_for_purpose L K s chain validation_time purpose =
     verify_chain_inner True L K s chain validation_time (Some purpose) False"

definition verify_chain_for_purpose_with_fraction ::
  "lib \<Rightarrow> crypto \<Rightarrow> trust_store \<Rightarrow> certificate list \<Rightarrow> datetime \<Rightarrow> cert_role \<Rightarrow> bool
    \<Rightarrow> (trust_error, certificate) result" where
  "verify_chain_for_purpose_with_fraction L K s chain time purpose positive_fraction =
     verify_chain_inner True L K s chain (Some time) (Some purpose) positive_fraction"

definition verify_timestamp_chain ::
  "bool \<Rightarrow> lib \<Rightarrow> crypto \<Rightarrow> trust_store \<Rightarrow> certificate list \<Rightarrow> datetime \<Rightarrow> bool
    \<Rightarrow> (trust_error, certificate) result" where
  "verify_timestamp_chain ltv L K s chain time positive_fraction =
     verify_chain_inner ltv L K s chain (Some time) (if ltv then Some TimestampSigner else None)
       positive_fraction"

end
