(* ===== verification/Path_Validation.thy ===== *)
theory Path_Validation
  imports Trust_Store
begin

section \<open>Path validation: what an accepted chain satisfies\<close>

text \<open>
  The abstract notion of a valid certification path (names, signatures, issuing authority, path
  length, critical extensions, validity windows, name constraints), and the refinement: what
  \<open>verify_chain_inner\<close> accepts is such a path ending in a configured anchor, and the order in which
  anchors are configured does not matter.
\<close>

subsection \<open>The specification\<close>

text \<open>basicConstraints asserts \<open>cA\<close>, with the given path length limit.\<close>

definition asserts_ca :: "certificate \<Rightarrow> u64 option \<Rightarrow> bool" where
  "asserts_ca cert pl \<longleftrightarrow>
     (\<exists>e. find_ext cert BASIC_CONSTRAINTS_OID = Some e \<and> parse_basic_constraints (extn_value e) = Inr (True, pl))"

definition may_issue :: "certificate \<Rightarrow> bool" where
  "may_issue cert \<longleftrightarrow>
     (\<exists>pl. asserts_ca cert pl)
     \<and> (\<forall>e. find_ext cert KEY_USAGE_OID = Some e \<longrightarrow>
          (\<exists>unused bits. extn_value e = encode_tlv 0x03 (unused # bits) \<and> unused \<le> 7
             \<and> 2 ^ unat unused dvd be_nat bits \<and> named_bit bits 5))"

text \<open>The certificates a path length constraint counts.\<close>

definition counted_ca :: "certificate \<Rightarrow> bool" where
  "counted_ca cert \<longleftrightarrow> (\<exists>pl. asserts_ca cert pl) \<and> subject cert \<noteq> issuer cert"

definition within_path_len :: "certificate \<Rightarrow> certificate list \<Rightarrow> bool" where
  "within_path_len cert below \<longleftrightarrow>
     (\<forall>p. asserts_ca cert (Some p) \<longrightarrow> length (filter counted_ca below) \<le> unat p)"

definition recognized_critical :: "bool \<Rightarrow> oid set" where
  "recognized_critical ltv =
     set RECOGNIZED_CRITICAL_EXT_OIDS \<union> (if ltv then set RECOGNIZED_CRITICAL_EXT_OIDS_LTV else {})"

definition good_profile :: "bool \<Rightarrow> certificate \<Rightarrow> bool" where
  "good_profile ltv cert \<longleftrightarrow>
     distinct (ext_ids cert)
     \<and> (\<forall>exts e. extensions cert = Some exts \<and> e \<in> set exts \<and> critical e \<longrightarrow>
          extn_id e \<in> recognized_critical ltv
          \<and> \<not> (extn_id e = EKU_OID \<and> (\<exists>pl. asserts_ca cert pl)))"

definition in_window :: "datetime option \<Rightarrow> bool \<Rightarrow> certificate \<Rightarrow> bool" where
  "in_window time_opt positive_fraction cert \<longleftrightarrow>
     (\<forall>t. time_opt = Some t \<longrightarrow>
        not_before cert \<le> t \<and> (if positive_fraction then t < not_after cert else t \<le> not_after cert))"

text \<open>Every constraint an issuer states is met by every certificate below it.\<close>

definition names_permitted :: "lib \<Rightarrow> certificate list \<Rightarrow> bool" where
  "names_permitted L path \<longleftrightarrow>
     (\<forall>i j. j < i \<and> i < length path \<longrightarrow>
        snd (add_from_cert nc_default (path ! i)) = Inr ()
        \<and> check_cert L (fst (add_from_cert nc_default (path ! i))) (path ! j) = Inr ())"

text \<open>A path \<open>[leaf, intermediate, ..., anchor]\<close>.\<close>

definition valid_path ::
  "bool \<Rightarrow> lib \<Rightarrow> crypto \<Rightarrow> signature_policy \<Rightarrow> datetime option \<Rightarrow> bool \<Rightarrow> certificate list \<Rightarrow> bool" where
  "valid_path ltv L K policy time_opt positive_fraction path \<longleftrightarrow>
     (\<forall>i. Suc i < length path \<longrightarrow>
        issuer (path ! i) = subject (path ! Suc i)
        \<and> verify_certificate_signature_with_policy L K (path ! i) (path ! Suc i) policy = Inr ()
        \<and> may_issue (path ! Suc i)
        \<and> within_path_len (path ! Suc i) (take (Suc i) path))
     \<and> (\<forall>cert\<in>set path. good_profile ltv cert \<and> in_window time_opt positive_fraction cert)
     \<and> (ltv \<longrightarrow> names_permitted L path)"

subsection \<open>The checks meet their specifications\<close>

lemma basic_constraints_ca: "basic_constraints cert = Inr (True, pl) \<longleftrightarrow> asserts_ca cert pl"
  by (auto simp: basic_constraints_def asserts_ca_def result_simps split: option.splits)

lemma basic_constraints_asserts:
  "basic_constraints cert = Inr (ca, pl) \<Longrightarrow> ca \<longleftrightarrow> (\<exists>pl. asserts_ca cert pl)"
  by (cases ca) (auto simp: basic_constraints_ca [symmetric])

lemma parse_key_cert_sign_bit_iff:
  "parse_key_cert_sign_bit v = Inr b \<longleftrightarrow>
    (\<exists>unused bits. v = encode_tlv 0x03 (unused # bits) \<and> unused \<le> 7 \<and> bits \<noteq> []
       \<and> length bits + 1 < 2 ^ 32 \<and> 2 ^ unat unused dvd be_nat bits \<and> b = named_bit bits 5)"
    (is "?L \<longleftrightarrow> ?R")
proof -
  have bit5: "drop_bit 2 (hd bits) AND 1 = 1 \<longleftrightarrow> named_bit bits 5" if "bits \<noteq> []" for bits
    using that by (cases bits) (simp_all add: bit_set_named [symmetric] bit_set_def)
  show ?thesis
  proof
    assume ?L
    then obtain tag body rest where p: "parse_tlv_with_rest v = Inr (tag, body, rest)"
      by (auto simp: parse_key_cert_sign_bit_def result_simps)
    with \<open>?L\<close> have g: "rest = []" "tag = 0x03" "body \<noteq> []" "\<not> 7 < hd body" "tl body \<noteq> []"
      "0 < hd body \<longrightarrow> last (tl body) AND (push_bit (unat (hd body)) 1 - 1) = 0"
      "b = (drop_bit 2 (hd (tl body)) AND 1 = 1)"
      by (simp_all add: parse_key_cert_sign_bit_def split: if_split_asm)
    define u bits where "u = hd body" and "bits = tl body"
    note g' = g(4-7) [folded u_def bits_def]
    have "unat u \<le> 7" using g'(1) by (simp add: word_less_nat_alt)
    moreover have "u = 0 \<or> 0 < u" by (simp add: word_neq_0_conv [symmetric])
    ultimately have "2 ^ unat u dvd be_nat bits" using g'(2,3) padding_zero_iff by auto
    moreover have "v = encode_tlv 0x03 (u # bits) \<and> length bits + 1 < 2 ^ 32"
      using p g(1-3) by (simp add: tlv_Inr_iff tlv_fits_def u_def bits_def)
    ultimately show ?R using g' bit5 by (intro exI [of _ u] exI [of _ bits]) (simp add: not_less)
  next
    assume ?R
    then obtain u bits where v: "v = encode_tlv 0x03 (u # bits)" "length bits + 1 < 2 ^ 32"
      and u: "u \<le> 7" "bits \<noteq> []" "2 ^ unat u dvd be_nat bits" "b = named_bit bits 5" by blast
    have "parse_tlv_with_rest v = Inr (0x03, u # bits, [])"
      using v by (simp add: parse_encode_tlv_exact tlv_fits_def)
    moreover have "last bits AND (push_bit (unat u) 1 - 1) = 0"
      using padding_zero_iff [OF u(2), of "unat u"] u(1,3) by (simp add: word_le_nat_alt)
    ultimately show ?L using u bit5 unfolding parse_key_cert_sign_bit_def by (simp add: not_less)
  qed
qed

lemma validate_intermediate_sound:
  assumes "validate_intermediate_ca_extensions cert label = Inr ()"
  shows "may_issue cert"
proof -
  from assms obtain pl ku where bc: "basic_constraints cert = Inr (True, pl)"
    and ku: "cert_key_cert_sign cert = Inr ku" "ku \<noteq> Some False"
    by (auto simp: validate_intermediate_ca_extensions_def result_simps
        split: if_splits option.splits bool.splits)
  have "\<exists>unused bits. extn_value e = encode_tlv 0x03 (unused # bits) \<and> unused \<le> 7
      \<and> 2 ^ unat unused dvd be_nat bits \<and> named_bit bits 5"
    if "find_ext cert KEY_USAGE_OID = Some e" for e
  proof -
    from ku that have "parse_key_cert_sign_bit (extn_value e) = Inr True"
      by (auto simp: cert_key_cert_sign_def result_simps)
    then show ?thesis unfolding parse_key_cert_sign_bit_iff by blast
  qed
  with bc show ?thesis unfolding may_issue_def basic_constraints_ca by blast
qed

lemma count_subordinate_cas_eq:
  "count_subordinate_cas label below n = Inr m \<Longrightarrow> m = n + length (filter counted_ca below)"
proof (induction below arbitrary: n)
  case Nil
  then show ?case by simp
next
  case (Cons cert below)
  from Cons.prems obtain ca pl where bc: "basic_constraints cert = Inr (ca, pl)"
    and rest: "count_subordinate_cas label below (if ca \<and> \<not> is_self_issued cert then n + 1 else n) = Inr m"
    by (auto simp: result_simps)
  have "counted_ca cert \<longleftrightarrow> ca \<and> \<not> is_self_issued cert"
    using basic_constraints_asserts [OF bc] by (auto simp: counted_ca_def is_self_issued_def)
  with Cons.IH [OF rest] show ?case by simp
qed

lemma enforce_path_len_sound:
  assumes "enforce_path_len cert below label = Inr ()"
  shows "within_path_len cert below"
proof -
  have "length (filter counted_ca below) \<le> unat p" if "asserts_ca cert (Some p)" for p
  proof -
    from that have "basic_constraints cert = Inr (True, Some p)" by (simp add: basic_constraints_ca)
    with assms obtain n where "count_subordinate_cas label below 0 = Inr n" "\<not> unat p < n"
      by (auto simp: enforce_path_len_def result_simps)
    with count_subordinate_cas_eq show ?thesis by fastforce
  qed
  then show ?thesis by (simp add: within_path_len_def)
qed

lemma good_profile_sound:
  assumes dup: "reject_duplicate_extensions cert label = Inr ()"
    and crit: "reject_unknown_critical_extensions ltv cert label' = Inr ()"
  shows "good_profile ltv cert"
proof -
  have "distinct (ext_ids cert)"
  proof (cases "extensions cert")
    case (Some exts)
    with dup have "first_duplicate {} exts = None"
      by (auto simp: reject_duplicate_extensions_def split: option.splits)
    with Some show ?thesis by (simp add: first_duplicate_None_iff ext_ids_def)
  qed (simp add: ext_ids_def)
  moreover have "extn_id e \<in> recognized_critical ltv \<and> \<not> (extn_id e = EKU_OID \<and> (\<exists>pl. asserts_ca cert pl))"
    if e: "extensions cert = Some exts" "e \<in> set exts" "critical e" for exts e
  proof -
    have c: "check_critical ltv cert label' e = Inr ()"
      using crit e by (simp add: reject_unknown_critical_extensions_def try_for_Inr_iff)
    then have "extn_id e \<in> recognized_critical ltv"
      using e(3) by (auto simp: check_critical_def recognized_critical_def Let_def result_simps
          split: if_splits)
    moreover have "\<not> (\<exists>pl. asserts_ca cert pl)" if "extn_id e = EKU_OID"
    proof -
      from c e(3) that obtain pl where "basic_constraints cert = Inr (False, pl)"
        by (auto simp: check_critical_def EKU_OID_def result_simps split: if_splits)
      from basic_constraints_asserts [OF this] show ?thesis by simp
    qed
    ultimately show ?thesis by blast
  qed
  ultimately show ?thesis by (auto simp: good_profile_def)
qed

lemma check_validity_iff:
  "check_validity time_opt frac i cert = Inr () \<longleftrightarrow> in_window time_opt frac cert"
  by (cases time_opt) (auto simp: check_validity_def in_window_def)

lemma nc_path_loop_sound:
  assumes "nc_path_loop L path tops st = Inr ()" "t \<in> set tops" "j < t" "t \<le> length path"
  shows "snd (add_from_cert nc_default (path ! t)) = Inr ()
    \<and> check_cert L (fst (add_from_cert nc_default (path ! t))) (path ! j) = Inr ()"
  using assms
proof (induction tops arbitrary: st)
  case Nil
  then show ?case by simp
next
  case (Cons u tops)
  obtain st' r where a: "add_from_cert st (path ! u) = (st', r)" by fastforce
  from Cons.prems(1) have r: "r = Inr ()" and rest: "nc_path_loop L path tops st' = Inr ()"
    and subs: "nc_is_empty st' \<or> (\<forall>sub\<in>set (take u path). check_cert L st' sub = Inr ())"
    by (auto simp: a result_simps split: if_splits)
  show ?case
  proof (cases "t = u")
    case True
    have "path ! j \<in> set (take u path)"
      using Cons.prems(3,4) True by (metis in_set_conv_nth length_take min.absorb2 nth_take)
    then have chk: "check_cert L st' (path ! j) = Inr ()" using subs by (auto simp: check_cert_def)
    have own: "nc_covers (fst (add_from_cert nc_default (path ! t))) st'"
      using nc.add_covers_own [of "path ! t" st] a True by simp
    obtain ps es r' where "\<And>st. add_from_cert st (path ! t)
        = (\<lparr>permitted = permitted st @ ps, excluded = excluded st @ es\<rparr>, r')"
      using add_from_cert_uniform [of "path ! t"] by blast
    with a r True have "snd (add_from_cert nc_default (path ! t)) = Inr ()" by simp
    with nc.check_covers [OF own chk] show ?thesis by blast
  next
    case False
    with Cons.IH [OF rest] Cons.prems show ?thesis by simp
  qed
qed

lemma enforce_name_constraints_sound:
  assumes "enforce_name_constraints_path L path = Inr ()"
  shows "names_permitted L path"
  using assms nc_path_loop_sound [of L path "rev [1..<length path]" nc_default]
  by (auto simp: enforce_name_constraints_path_def names_permitted_def)

subsection \<open>The walk and the anchor\<close>

lemma verify_link_sound:
  assumes "verify_link L K policy chain i = Inr ()"
  shows "issuer (chain ! i) = subject (chain ! Suc i)
    \<and> verify_certificate_signature_with_policy L K (chain ! i) (chain ! Suc i) policy = Inr ()
    \<and> may_issue (chain ! Suc i) \<and> within_path_len (chain ! Suc i) (take (Suc i) chain)"
  using assms validate_intermediate_sound enforce_path_len_sound
  by (auto simp: verify_link_def Let_def result_simps)

text \<open>What the checks before the anchor lookup establish.\<close>

lemma verify_chain_inner_parts:
  assumes "verify_chain_inner ltv L K s chain t purpose frac = Inr anchor"
  shows "chain \<noteq> []"
    and "\<forall>cert\<in>set chain. good_profile ltv cert \<and> in_window t frac cert"
    and "\<forall>i. Suc i < length chain \<longrightarrow>
        issuer (chain ! i) = subject (chain ! Suc i)
        \<and> verify_certificate_signature_with_policy L K (chain ! i) (chain ! Suc i) (ts_signature_policy s) = Inr ()
        \<and> may_issue (chain ! Suc i) \<and> within_path_len (chain ! Suc i) (take (Suc i) chain)"
    and "\<And>role. ltv \<Longrightarrow> purpose = Some role \<Longrightarrow> validate_extensions_for_role L (hd chain) role = Inr ()"
    and "find_anchor ltv L K s chain t frac = Inr anchor"
proof -
  show ne: "chain \<noteq> []" using assms by (auto simp: verify_chain_inner_def)
  note parts = assms [unfolded verify_chain_inner_def if_not_P [OF ne] and_then_Inr_iff, simplified]
  from parts show "find_anchor ltv L K s chain t frac = Inr anchor" by blast
  from parts have "\<forall>i<length chain. good_profile ltv (chain ! i) \<and> in_window t frac (chain ! i)"
    by (auto simp: try_for_Inr_iff and_then_Inr_iff check_validity_iff intro: good_profile_sound)
  then show "\<forall>cert\<in>set chain. good_profile ltv cert \<and> in_window t frac cert"
    by (metis in_set_conv_nth)
  from parts have "\<forall>i\<in>set [0..<length chain - 1]. verify_link L K (ts_signature_policy s) chain i = Inr ()"
    by (auto simp: try_for_Inr_iff)
  then show "\<forall>i. Suc i < length chain \<longrightarrow>
        issuer (chain ! i) = subject (chain ! Suc i)
        \<and> verify_certificate_signature_with_policy L K (chain ! i) (chain ! Suc i) (ts_signature_policy s) = Inr ()
        \<and> may_issue (chain ! Suc i) \<and> within_path_len (chain ! Suc i) (take (Suc i) chain)"
    using verify_link_sound [of L K "ts_signature_policy s" chain] by simp
  show "validate_extensions_for_role L (hd chain) role = Inr ()" if "ltv" "purpose = Some role" for role
    using parts that ne by (simp add: map_err_Inr_iff hd_conv_nth)
qed

lemma try_candidates_Inr:
  "try_candidates f cs e = Some (Inr a) \<Longrightarrow> \<exists>c\<in>set cs. f c = Inr a"
  by (induction cs arbitrary: e) (auto split: sum.splits)

lemma try_candidates_is_Some: "cs \<noteq> [] \<or> e \<noteq> None \<Longrightarrow> \<exists>r. try_candidates f cs e = Some r"
  by (induction cs arbitrary: e) (auto split: sum.splits)

lemma try_candidates_ok:
  "cs \<noteq> [] \<or> e \<noteq> None \<Longrightarrow> is_ok (the (try_candidates f cs e)) \<longleftrightarrow> (\<exists>c\<in>set cs. is_ok (f c))"
  by (induction cs arbitrary: e) (auto split: sum.splits)

lemma verify_candidate_sound:
  assumes "verify_candidate ltv L K policy chain t frac c = Inr anchor"
  shows "anchor = c" "verify_certificate_signature_with_policy L K (last chain) c policy = Inr ()"
    "good_profile ltv c" "may_issue c" "within_path_len c chain" "in_window t frac c"
    "ltv \<Longrightarrow> names_permitted L (chain @ [c])"
  using assms validate_intermediate_sound enforce_path_len_sound enforce_name_constraints_sound
  by (auto simp: verify_candidate_def and_then_Inr_iff check_validity_iff intro: good_profile_sound
      split: if_splits)

text \<open>The two ways an anchor is found.\<close>

lemma find_anchor_sound:
  assumes "find_anchor ltv L K s chain t frac = Inr anchor"
  shows "(\<exists>a\<in>set (anchors s). anchor = ta_cert a \<and> issuer (last chain) = subject (last chain)
           \<and> cert_to_der L (last chain) = Some (ta_der a)
           \<and> verify_certificate_signature_with_policy L K (last chain) (last chain) (ts_signature_policy s) = Inr ()
           \<and> (ltv \<longrightarrow> names_permitted L chain))
    \<or> (anchor \<in> set (store_certificates s) \<and> subject anchor = issuer (last chain)
         \<and> verify_candidate ltv L K (ts_signature_policy s) chain t frac anchor = Inr anchor)"
proof -
  let ?f = "verify_candidate ltv L K (ts_signature_policy s) chain t frac"
  from assms obtain direct where
    "(if issuer (last chain) = subject (last chain)
      then and_then (ok_or (CertificateParse ParseAnchorLookup) (cert_to_der L (last chain))) (\<lambda>last_der.
        Inr (find (\<lambda>a. ta_der a = last_der) (anchors s)))
      else Inr None) = Inr direct"
    and r: "(case direct of
          Some anchor \<Rightarrow>
            and_then (verify_certificate_signature_with_policy L K (last chain) (last chain)
              (ts_signature_policy s)) (\<lambda>_.
            and_then (if ltv then enforce_name_constraints_path L chain else Inr ()) (\<lambda>_.
              Inr (ta_cert anchor)))
        | None \<Rightarrow>
            if find_all_issuers s (last chain) = [] then Inl (UntrustedRoot (issuer (last chain)))
            else the (try_candidates ?f (find_all_issuers s (last chain)) None)) = Inr anchor"
    unfolding find_anchor_def Let_def by (subst (asm) and_then_Inr_iff) blast
  then have d: "issuer (last chain) = subject (last chain) \<and>
      (\<exists>der. cert_to_der L (last chain) = Some der \<and> direct = find (\<lambda>a. ta_der a = der) (anchors s))
      \<or> direct = None"
    by (auto simp: and_then_Inr_iff ok_or_Inr_iff split: if_splits)
  show ?thesis
  proof (cases direct)
    case (Some a)
    with d have "issuer (last chain) = subject (last chain)" "cert_to_der L (last chain) = Some (ta_der a)"
      "a \<in> set (anchors s)" by (auto simp: find_Some_iff2)
    moreover have "anchor = ta_cert a"
      "verify_certificate_signature_with_policy L K (last chain) (last chain) (ts_signature_policy s) = Inr ()"
      "ltv \<longrightarrow> names_permitted L chain"
      using r Some enforce_name_constraints_sound by (auto simp: and_then_Inr_iff split: if_splits)
    ultimately show ?thesis by blast
  next
    case None
    let ?cs = "find_all_issuers s (last chain)"
    from r None have ne: "?cs \<noteq> []" and v: "the (try_candidates ?f ?cs None) = Inr anchor"
      by (auto split: if_splits)
    from ne obtain res where "try_candidates ?f ?cs None = Some res"
      using try_candidates_is_Some by blast
    with v obtain c where c: "c \<in> set ?cs" "?f c = Inr anchor"
      using try_candidates_Inr [of ?f ?cs None anchor] by auto
    with verify_candidate_sound(1) [OF c(2)] show ?thesis
      by (auto simp: find_all_issuers_def store_certificates_def)
  qed
qed

lemma find_anchor_ok:
  "is_ok (find_anchor ltv L K s chain t frac) \<longleftrightarrow>
    (let policy = ts_signature_policy s; final = last chain;
         by_candidate = (\<exists>c\<in>set (find_all_issuers s final). is_ok (verify_candidate ltv L K policy chain t frac c)) in
     if issuer final = subject final
     then (\<exists>der. cert_to_der L final = Some der \<and>
            (if \<exists>a\<in>set (anchors s). ta_der a = der
             then is_ok (verify_certificate_signature_with_policy L K final final policy)
               \<and> (ltv \<longrightarrow> is_ok (enforce_name_constraints_path L chain))
             else by_candidate))
     else by_candidate)"
proof -
  let ?n = "if find_all_issuers s (last chain) = [] then Inl (UntrustedRoot (issuer (last chain)))
    else the (try_candidates (verify_candidate ltv L K (ts_signature_policy s) chain t frac)
      (find_all_issuers s (last chain)) None)"
  have n: "is_ok ?n \<longleftrightarrow> (\<exists>c\<in>set (find_all_issuers s (last chain)).
      is_ok (verify_candidate ltv L K (ts_signature_policy s) chain t frac c))"
    by (simp add: try_candidates_ok)
  show ?thesis
  proof (cases "issuer (last chain) = subject (last chain)")
    case True
    show ?thesis
    proof (cases "cert_to_der L (last chain)")
      case None
      with True show ?thesis by (simp add: find_anchor_def Let_def)
    next
      case (Some der)
      show ?thesis
      proof (cases "find (\<lambda>a. ta_der a = der) (anchors s)")
        case None
        then have "\<not> (\<exists>a\<in>set (anchors s). ta_der a = der)" by (auto simp: find_None_iff)
        with True Some None n show ?thesis by (simp add: find_anchor_def Let_def)
      next
        case (Some a)
        then have "\<exists>a\<in>set (anchors s). ta_der a = der"
          using find_None_iff [of "\<lambda>a. ta_der a = der" "anchors s"] by auto
        with True Some \<open>cert_to_der L (last chain) = Some der\<close> show ?thesis
          by (simp add: find_anchor_def Let_def is_ok_iff and_then_Inr_iff)
      qed
    qed
  next
    case False
    with n show ?thesis by (simp add: find_anchor_def Let_def)
  qed
qed

subsection \<open>Properties\<close>

lemma valid_path_snoc:
  assumes ne: "chain \<noteq> []"
    and links: "\<forall>i. Suc i < length chain \<longrightarrow>
        issuer (chain ! i) = subject (chain ! Suc i)
        \<and> verify_certificate_signature_with_policy L K (chain ! i) (chain ! Suc i) policy = Inr ()
        \<and> may_issue (chain ! Suc i) \<and> within_path_len (chain ! Suc i) (take (Suc i) chain)"
    and certs: "\<forall>cert\<in>set chain. good_profile ltv cert \<and> in_window t frac cert"
    and name: "subject anchor = issuer (last chain)"
    and cand: "verify_candidate ltv L K policy chain t frac anchor = Inr anchor"
  shows "valid_path ltv L K policy t frac (chain @ [anchor])"
proof -
  note c = verify_candidate_sound [OF cand]
  have "issuer ((chain @ [anchor]) ! i) = subject ((chain @ [anchor]) ! Suc i)
      \<and> verify_certificate_signature_with_policy L K ((chain @ [anchor]) ! i) ((chain @ [anchor]) ! Suc i) policy = Inr ()
      \<and> may_issue ((chain @ [anchor]) ! Suc i)
      \<and> within_path_len ((chain @ [anchor]) ! Suc i) (take (Suc i) (chain @ [anchor]))"
    if i: "Suc i < length (chain @ [anchor])" for i
  proof (cases "Suc i < length chain")
    case True
    with links show ?thesis by (simp add: nth_append)
  next
    case False
    with i have "Suc i = length chain" by simp
    moreover from this ne have "chain ! i = last chain" by (metis diff_Suc_1 last_conv_nth)
    ultimately show ?thesis using name c by (simp add: nth_append)
  qed
  with certs c show ?thesis by (auto simp: valid_path_def)
qed

text \<open>The chain leads to the anchor, and its leaf meets the requested role: the anchor completes the
  chain, or it is the chain's own last certificate.\<close>

definition trusted_path ::
  "bool \<Rightarrow> lib \<Rightarrow> crypto \<Rightarrow> trust_store \<Rightarrow> certificate list \<Rightarrow> datetime option \<Rightarrow> cert_role option \<Rightarrow> bool \<Rightarrow> certificate \<Rightarrow> bool" where
  "trusted_path ltv L K s chain t purpose frac anchor \<longleftrightarrow>
     anchor \<in> set (store_certificates s)
     \<and> (valid_path ltv L K (ts_signature_policy s) t frac (chain @ [anchor])
        \<or> (valid_path ltv L K (ts_signature_policy s) t frac chain
           \<and> is_self_issued (last chain)
           \<and> verify_certificate_signature_with_policy L K (last chain) (last chain) (ts_signature_policy s) = Inr ()
           \<and> (\<exists>a\<in>set (anchors s). ta_cert a = anchor \<and> cert_to_der L (last chain) = Some (ta_der a))))
     \<and> (\<forall>role. ltv \<and> purpose = Some role \<longrightarrow> distinct (ext_ids (hd chain)) \<and> role_profile L (hd chain) role)"

lemma verify_chain_inner_trusted:
  assumes "verify_chain_inner ltv L K s chain t purpose frac = Inr anchor"
  shows "trusted_path ltv L K s chain t purpose frac anchor"
proof -
  note parts = verify_chain_inner_parts [OF assms]
  have role: "\<forall>role. ltv \<and> purpose = Some role \<longrightarrow>
      distinct (ext_ids (hd chain)) \<and> role_profile L (hd chain) role"
    using parts(4) role_check_iff by (auto simp: validate_role_unfold)
  from find_anchor_sound [OF parts(5)] show ?thesis
  proof
    assume "\<exists>a\<in>set (anchors s). anchor = ta_cert a \<and> issuer (last chain) = subject (last chain)
           \<and> cert_to_der L (last chain) = Some (ta_der a)
           \<and> verify_certificate_signature_with_policy L K (last chain) (last chain) (ts_signature_policy s) = Inr ()
           \<and> (ltv \<longrightarrow> names_permitted L chain)"
    with parts role show ?thesis unfolding trusted_path_def
      by (auto simp: valid_path_def is_self_issued_def store_certificates_def)
  next
    assume "anchor \<in> set (store_certificates s) \<and> subject anchor = issuer (last chain)
         \<and> verify_candidate ltv L K (ts_signature_policy s) chain t frac anchor = Inr anchor"
    with valid_path_snoc [OF parts(1,3,2)] role show ?thesis unfolding trusted_path_def by blast
  qed
qed

text \<open>C1: A chain the validator accepts is a valid certification path that ends in a configured
  trust anchor: consecutive names match, every signature verifies under its issuer's key and the
  store's policy, every issuer is a CA allowed to sign certificates and within its path length,
  no certificate has duplicate or unrecognised critical extensions or is outside its validity
  window, and every certificate satisfies the name constraints of every certificate above it. The
  anchor is either appended to the chain, or it is the chain's own last certificate, self-issued,
  self-signed and stored byte for byte. The leaf meets the profile of the requested role.\<close>

theorem verify_chain_inner_sound:
  assumes "verify_chain_inner ltv L K s chain t purpose frac = Inr anchor"
  shows "anchor \<in> set (store_certificates s)
    \<and> (valid_path ltv L K (ts_signature_policy s) t frac (chain @ [anchor])
       \<or> (valid_path ltv L K (ts_signature_policy s) t frac chain
          \<and> is_self_issued (last chain)
          \<and> verify_certificate_signature_with_policy L K (last chain) (last chain) (ts_signature_policy s) = Inr ()
          \<and> (\<exists>a\<in>set (anchors s). ta_cert a = anchor \<and> cert_to_der L (last chain) = Some (ta_der a))))
    \<and> (\<forall>role. ltv \<and> purpose = Some role \<longrightarrow>
         distinct (ext_ids (hd chain)) \<and> role_profile L (hd chain) role)"
  using verify_chain_inner_trusted [OF assms] unfolding trusted_path_def .

text \<open>A leaf issued by a root, both signed with Ed25519, and a store that holds the root.\<close>

definition toy_name :: "u8 \<Rightarrow> name" where
  "toy_name b = [[\<lparr>attr_oid = [2, 5, 4, 3], attr_value = Any 0x13 [b]\<rparr>]]"

definition ed_alg :: algorithm_identifier where
  "ed_alg = \<lparr>alg_oid = OID_ED25519, alg_parameters = None\<rparr>"

definition ed_cert :: "u8 \<Rightarrow> u8 \<Rightarrow> extension list option \<Rightarrow> certificate" where
  "ed_cert subj iss exts =
     (toy_cert (toy_name subj) (toy_name iss) [subj] exts)\<lparr>signature_algorithm := ed_alg, tbs_signature := ed_alg\<rparr>"

lemma ed_cert_simps [simp]:
  "issuer (ed_cert u i e) = toy_name i" "subject (ed_cert u i e) = toy_name u"
  "serial_number (ed_cert u i e) = [u]" "extensions (ed_cert u i e) = e"
  "not_before (ed_cert u i e) = 0" "not_after (ed_cert u i e) = 100"
  "signature_algorithm (ed_cert u i e) = ed_alg" "tbs_signature (ed_cert u i e) = ed_alg"
  "signature (ed_cert u i e) = []"
  "subject_public_key_info (ed_cert u i e) =
    \<lparr>spki_algorithm = \<lparr>alg_oid = [], alg_parameters = None\<rparr>, subject_public_key = [7]\<rparr>"
  by (simp_all add: ed_cert_def)

lemma toy_name_inject [simp]: "toy_name a = toy_name b \<longleftrightarrow> a = b"
  by (simp add: toy_name_def)

lemma ed_signature_ok: "verify_certificate_signature_with_policy toy_lib toy_crypto (ed_cert u i e) c policy = Inr ()"
  by (simp add: verify_certificate_signature_with_policy_def verify_signature_by_algid_with_policy_def
      verify_signature_by_oid_with_policy_def is_weak_signature_oid_def verify_with_backend_def
      toy_lib_def toy_crypto_def ed_alg_def verify_oids)

definition ca_ext :: extension where
  "ca_ext = \<lparr>extn_id = BASIC_CONSTRAINTS_OID, critical = True, extn_value = [0x30, 3, 1, 1, 0xFF]\<rparr>"

definition toy_root :: certificate where "toy_root = ed_cert 1 1 (Some [ca_ext])"
definition toy_leaf :: certificate where "toy_leaf = ed_cert 2 1 None"

definition toy_store :: trust_store where
  "toy_store = store_new\<lparr>anchors := [\<lparr>ta_cert = toy_root, ta_der = [1]\<rparr>]\<rparr>"

lemma toy_bc:
  "parse_basic_constraints [0x30, 3, 1, 1, 0xFF] = Inr (True, None)"
  by (simp add: parse_basic_constraints_def bc_read_ca_def bc_read_path_len_def tlv_eval)

lemmas path_eval = find_ext_def basic_constraints_def cert_key_cert_sign_def
  validate_intermediate_ca_extensions_def enforce_path_len_def reject_duplicate_extensions_def
  reject_unknown_critical_extensions_def check_critical_def check_validity_def
  RECOGNIZED_CRITICAL_EXT_OIDS_def BASIC_CONSTRAINTS_OID_def KEY_USAGE_OID_def NAME_CONSTRAINTS_OID_def

lemma toy_chain_accepted:
  "verify_chain_inner True toy_lib toy_crypto toy_store [toy_leaf] (Some 50) (Some EndEntity) False
     = Inr toy_root"
proof -
  have nc: "enforce_name_constraints_path toy_lib [toy_leaf, toy_root] = Inr ()"
    by (simp add: enforce_name_constraints_path_def toy_root_def ca_ext_def add_from_cert_def path_eval
        nc_is_empty_def nc_default_def)
  have cand: "verify_candidate True toy_lib toy_crypto policy_strict [toy_leaf] (Some 50) False toy_root = Inr toy_root"
    using nc by (simp add: verify_candidate_def toy_leaf_def ed_signature_ok)
      (simp add: toy_root_def ca_ext_def path_eval toy_bc)
  have role: "validate_extensions_for_role toy_lib toy_leaf EndEntity = Inr ()"
    by (simp add: validate_extensions_for_role_def validate_end_entity_def toy_leaf_def
        check_basic_constraints_def check_key_usage_def find_extension_value_def)
  have "find_anchor True toy_lib toy_crypto toy_store [toy_leaf] (Some 50) False = Inr toy_root"
    using cand by (simp add: find_anchor_def toy_leaf_def toy_store_def store_new_def find_all_issuers_def
        toy_root_def policy_default_def)
  with role show ?thesis
    by (simp add: verify_chain_inner_def) (simp add: toy_leaf_def path_eval)
qed

theorem verify_chain_inner_sound_witness:
  "toy_root \<in> set (store_certificates toy_store)
   \<and> distinct (ext_ids toy_leaf) \<and> role_profile toy_lib toy_leaf EndEntity"
  using verify_chain_inner_sound [OF toy_chain_accepted] by simp

text \<open>C34: Whether a chain is accepted depends on which anchors are configured and not on their
  order: a candidate of the right name that fails never hides another one that would succeed.\<close>

theorem anchor_order_irrelevant:
  assumes "mset (anchors s) = mset (anchors s')" "ts_signature_policy s = ts_signature_policy s'"
  shows "is_ok (verify_chain_inner ltv L K s chain t purpose frac)
    \<longleftrightarrow> is_ok (verify_chain_inner ltv L K s' chain t purpose frac)"
proof -
  have eq: "set (anchors s) = set (anchors s')" using assms(1) by (metis set_mset_mset)
  have "is_ok (find_anchor ltv L K s chain t frac) \<longleftrightarrow> is_ok (find_anchor ltv L K s' chain t frac)"
    unfolding find_anchor_ok by (simp add: find_all_issuers_def eq assms(2))
  then show ?thesis by (simp add: verify_chain_inner_def assms(2))
qed

theorem anchor_order_irrelevant_witness:
  "is_ok (verify_chain_inner True toy_lib toy_crypto
     (store_new\<lparr>anchors := [\<lparr>ta_cert = toy_leaf, ta_der = [2]\<rparr>, \<lparr>ta_cert = toy_root, ta_der = [1]\<rparr>]\<rparr>)
     [toy_leaf] None None False)
   \<longleftrightarrow> is_ok (verify_chain_inner True toy_lib toy_crypto
     (store_new\<lparr>anchors := [\<lparr>ta_cert = toy_root, ta_der = [1]\<rparr>, \<lparr>ta_cert = toy_leaf, ta_der = [2]\<rparr>]\<rparr>)
     [toy_leaf] None None False)"
  by (rule anchor_order_irrelevant) simp_all

end
