(* ===== verification/Chain_Build.thy ===== *)
theory Chain_Build
  imports Path_Validation
begin

section \<open>Chain building and store sets (\<open>chain_build.rs\<close> and \<open>store_set.rs\<close> of \<open>src/src/trust\<close>)\<close>

text \<open>
  The walk from a leaf through an unordered pool of certificates, and the set of stores for the
  three validation purposes.
\<close>

subsection \<open>The walk\<close>

text \<open>\<open>Name::to_der\<close> with \<open>unwrap_or_default\<close>.\<close>

definition name_der_or_default :: "lib \<Rightarrow> name \<Rightarrow> bytes" where
  "name_der_or_default L n = (case name_to_der L n of None \<Rightarrow> [] | Some d \<Rightarrow> d)"

text \<open>The scan of the pool for an issuer of \<open>current\<close>: the first candidate whose signature check
  passes, with the last error of a candidate of the right name.\<close>

fun scan_pool ::
  "lib \<Rightarrow> crypto \<Rightarrow> signature_policy \<Rightarrow> certificate \<Rightarrow> bytes list \<Rightarrow> certificate list \<Rightarrow> trust_error option
    \<Rightarrow> (trust_error, (certificate \<times> bytes) option \<times> trust_error option) result" where
  "scan_pool L K policy current visited [] err = Inr (None, err)"
| "scan_pool L K policy current visited (candidate # pool) err =
     (if subject candidate \<noteq> issuer current then scan_pool L K policy current visited pool err
      else
        (case cert_to_der L candidate of
           None \<Rightarrow> Inl (CertificateParse ParseDerEncode)
         | Some candidate_der \<Rightarrow>
             if candidate_der \<in> set visited then scan_pool L K policy current visited pool err
             else
               (case verify_certificate_signature_with_policy L K current candidate policy of
                  Inr _ \<Rightarrow> Inr (Some (candidate, candidate_der), err)
                | Inl e \<Rightarrow> scan_pool L K policy current visited pool (Some e))))"

fun build_loop ::
  "lib \<Rightarrow> crypto \<Rightarrow> signature_policy \<Rightarrow> certificate list \<Rightarrow> bytes list \<Rightarrow> nat \<Rightarrow> certificate list \<Rightarrow> bytes list
    \<Rightarrow> certificate \<Rightarrow> (trust_error, certificate list) result" where
  "build_loop L K policy pool anchor_subjects 0 chain visited current = Inr chain"
| "build_loop L K policy pool anchor_subjects (Suc n) chain visited current =
     (let issuer_name_der = name_der_or_default L (issuer current);
          subject_name_der = name_der_or_default L (subject current) in
      if issuer_name_der = subject_name_der then Inr chain
      else if issuer_name_der \<in> set anchor_subjects then Inr chain
      else
        and_then (scan_pool L K policy current visited pool None) (\<lambda>(found, matching_issuer_error).
          case found of
            Some (candidate, candidate_der) \<Rightarrow>
              build_loop L K policy pool anchor_subjects n (chain @ [candidate]) (visited @ [candidate_der])
                candidate
          | None \<Rightarrow>
              (case matching_issuer_error of
                 Some e \<Rightarrow> Inl e
               | None \<Rightarrow> Inl (ChainBroken (length chain - 1) (issuer current) None))))"

definition build_chain_from_pool_with_policy ::
  "lib \<Rightarrow> crypto \<Rightarrow> certificate \<Rightarrow> certificate list \<Rightarrow> bytes list \<Rightarrow> nat option \<Rightarrow> signature_policy
    \<Rightarrow> (trust_error, certificate list) result" where
  "build_chain_from_pool_with_policy L K leaf pool anchor_subjects max_depth policy =
     (let max_depth' = (case max_depth of None \<Rightarrow> 10 | Some d \<Rightarrow> d) in
      and_then (ok_or (CertificateParse ParseDerEncode) (cert_to_der L leaf)) (\<lambda>leaf_der.
        build_loop L K policy pool anchor_subjects max_depth' [leaf] [leaf_der] leaf))"

definition build_chain_from_pool ::
  "lib \<Rightarrow> crypto \<Rightarrow> certificate \<Rightarrow> certificate list \<Rightarrow> bytes list \<Rightarrow> nat option
    \<Rightarrow> (trust_error, certificate list) result" where
  "build_chain_from_pool L K leaf pool anchor_subjects max_depth =
     build_chain_from_pool_with_policy L K leaf pool anchor_subjects max_depth policy_default"

definition trust_anchor_subjects :: "lib \<Rightarrow> trust_store \<Rightarrow> bytes list" where
  "trust_anchor_subjects L s = List.map_filter (\<lambda>c. name_to_der L (subject c)) (store_certificates s)"

subsection \<open>Store sets\<close>

datatype store_kind = KSignature | KTimestamp | KSvt

fun store_kind_display :: "store_kind \<Rightarrow> string" where
  "store_kind_display KSignature = ''sig''"
| "store_kind_display KTimestamp = ''tsa''"
| "store_kind_display KSvt = ''svt''"

record trust_store_set =
  set_sig :: "trust_store option"
  set_tsa :: "trust_store option"
  set_svt :: "trust_store option"

definition set_new :: trust_store_set where
  "set_new = \<lparr>set_sig = None, set_tsa = None, set_svt = None\<rparr>"

definition set_default :: trust_store_set where "set_default = set_new"

definition with_sig_store :: "trust_store_set \<Rightarrow> trust_store \<Rightarrow> trust_store_set" where
  "with_sig_store ss store = ss\<lparr>set_sig := Some store\<rparr>"

definition with_tsa_store :: "trust_store_set \<Rightarrow> trust_store \<Rightarrow> trust_store_set" where
  "with_tsa_store ss store = ss\<lparr>set_tsa := Some store\<rparr>"

definition with_svt_store :: "trust_store_set \<Rightarrow> trust_store \<Rightarrow> trust_store_set" where
  "with_svt_store ss store = ss\<lparr>set_svt := Some store\<rparr>"

fun set_get :: "trust_store_set \<Rightarrow> store_kind \<Rightarrow> trust_store option" where
  "set_get ss KSignature = set_sig ss"
| "set_get ss KTimestamp = set_tsa ss"
| "set_get ss KSvt = set_svt ss"

text \<open>\<open>get_mut\<close>, with what the caller does through the reference.\<close>

fun set_get_mut :: "trust_store_set \<Rightarrow> store_kind \<Rightarrow> (trust_store \<Rightarrow> trust_store) \<Rightarrow> trust_store_set" where
  "set_get_mut ss KSignature f = ss\<lparr>set_sig := map_option f (set_sig ss)\<rparr>"
| "set_get_mut ss KTimestamp f = ss\<lparr>set_tsa := map_option f (set_tsa ss)\<rparr>"
| "set_get_mut ss KSvt f = ss\<lparr>set_svt := map_option f (set_svt ss)\<rparr>"

definition has_any :: "trust_store_set \<Rightarrow> bool" where
  "has_any ss \<longleftrightarrow> set_sig ss \<noteq> None \<or> set_tsa ss \<noteq> None \<or> set_svt ss \<noteq> None"

fun set_set :: "trust_store_set \<Rightarrow> store_kind \<Rightarrow> trust_store \<Rightarrow> trust_store_set" where
  "set_set ss KSignature store = ss\<lparr>set_sig := Some store\<rparr>"
| "set_set ss KTimestamp store = ss\<lparr>set_tsa := Some store\<rparr>"
| "set_set ss KSvt store = ss\<lparr>set_svt := Some store\<rparr>"

subsection \<open>Slots by kind: the interface\<close>

text \<open>A container with one optional slot per key: what a read gives after a write, and after an
  update in place.\<close>

locale slots =
  fixes empty :: 's
    and get :: "'s \<Rightarrow> 'k \<Rightarrow> 'v option"
    and put :: "'s \<Rightarrow> 'k \<Rightarrow> 'v \<Rightarrow> 's"
    and upd :: "'s \<Rightarrow> 'k \<Rightarrow> ('v \<Rightarrow> 'v) \<Rightarrow> 's"
  assumes get_empty: "get empty k = None"
    and get_put: "get (put s k v) k' = (if k = k' then Some v else get s k')"
    and get_upd: "get (upd s k f) k' = (if k = k' then map_option f (get s k) else get s k')"
begin

definition write_all :: "('k \<times> 'v) list \<Rightarrow> 's \<Rightarrow> 's" where
  "write_all ws s = foldl (\<lambda>s (k, v). put s k v) s ws"

lemma get_write_all:
  "get (write_all ws s) k = (case map_of (rev ws) k of None \<Rightarrow> get s k | Some v \<Rightarrow> Some v)"
proof (induction ws arbitrary: s)
  case Nil
  then show ?case by (simp add: write_all_def)
next
  case (Cons w ws)
  obtain k' v where w: "w = (k', v)" by (cases w)
  have "write_all (w # ws) s = write_all ws (put s k' v)" by (simp add: write_all_def w)
  then show ?case using Cons.IH [of "put s k' v"]
    by (auto simp: w get_put map_add_def split: option.splits)
qed

lemma upd_put: "get (upd (put s k v) k f) k' = get (put s k (f v)) k'"
  by (simp add: get_upd get_put)

end

interpretation stores: slots set_new set_get set_set set_get_mut
proof
  fix ss :: trust_store_set and k k' :: store_kind and v f
  show "set_get set_new k = None" by (cases k) (simp_all add: set_new_def)
  show "set_get (set_set ss k v) k' = (if k = k' then Some v else set_get ss k')"
    by (cases k; cases k') simp_all
  show "set_get (set_get_mut ss k f) k' = (if k = k' then map_option f (set_get ss k) else set_get ss k')"
    by (cases k; cases k') simp_all
qed

subsection \<open>What the walk builds\<close>

definition linked :: "lib \<Rightarrow> crypto \<Rightarrow> signature_policy \<Rightarrow> certificate list \<Rightarrow> bool" where
  "linked L K policy chain \<longleftrightarrow>
     (\<forall>i. Suc i < length chain \<longrightarrow>
        issuer (chain ! i) = subject (chain ! Suc i)
        \<and> verify_certificate_signature_with_policy L K (chain ! i) (chain ! Suc i) policy = Inr ())"

text \<open>The walk is complete at a self-issued certificate or below an anchor.\<close>

definition complete_at :: "lib \<Rightarrow> bytes list \<Rightarrow> certificate \<Rightarrow> bool" where
  "complete_at L anchor_subjects cert \<longleftrightarrow>
     name_der_or_default L (issuer cert) = name_der_or_default L (subject cert)
     \<or> name_der_or_default L (issuer cert) \<in> set anchor_subjects"

lemma scan_pool_found:
  "scan_pool L K policy current visited pool err = Inr (Some (c, d), err') \<Longrightarrow>
    c \<in> set pool \<and> subject c = issuer current \<and> cert_to_der L c = Some d \<and> d \<notin> set visited
    \<and> verify_certificate_signature_with_policy L K current c policy = Inr ()"
  by (induction pool arbitrary: err) (auto split: if_splits option.splits sum.splits)

lemma scan_pool_none:
  "scan_pool L K policy current visited pool err = Inr (None, err') \<Longrightarrow> cand \<in> set pool \<Longrightarrow>
    subject cand = issuer current \<Longrightarrow> cert_to_der L cand = Some d \<Longrightarrow>
    d \<in> set visited \<or> \<not> is_ok (verify_certificate_signature_with_policy L K current cand policy)"
  by (induction pool arbitrary: err) (auto split: if_splits option.splits sum.splits)

lemma linked_snoc:
  assumes "linked L K policy chain" "chain \<noteq> []" "issuer (last chain) = subject c"
    "verify_certificate_signature_with_policy L K (last chain) c policy = Inr ()"
  shows "linked L K policy (chain @ [c])"
proof -
  have "issuer ((chain @ [c]) ! i) = subject ((chain @ [c]) ! Suc i)
      \<and> verify_certificate_signature_with_policy L K ((chain @ [c]) ! i) ((chain @ [c]) ! Suc i) policy = Inr ()"
    if i: "Suc i < length (chain @ [c])" for i
  proof (cases "Suc i < length chain")
    case True
    with assms(1) show ?thesis by (simp add: linked_def nth_append)
  next
    case False
    with i have l: "Suc i = length chain" by simp
    with assms(2) have "chain ! i = last chain" by (metis diff_Suc_1 last_conv_nth)
    with l assms(3,4) show ?thesis by (simp add: nth_append)
  qed
  then show ?thesis by (simp add: linked_def)
qed

lemma build_loop_inv:
  assumes "build_loop L K policy pool tas n chain visited current = Inr out"
    and "chain \<noteq> []" "last chain = current" "map (cert_to_der L) chain = map Some visited"
    and "distinct visited" "linked L K policy chain"
  shows "\<exists>ext. out = chain @ ext \<and> set ext \<subseteq> set pool \<and> linked L K policy out \<and> length ext \<le> n
    \<and> distinct (map (cert_to_der L) out) \<and> (length ext = n \<or> complete_at L tas (last out))"
  using assms
proof (induction n arbitrary: chain visited current)
  case 0
  then show ?case by (simp add: distinct_map)
next
  case (Suc n)
  have d: "distinct (map (cert_to_der L) chain)"
    using Suc.prems(4,5) by (simp add: distinct_map)
  show ?case
  proof (cases "complete_at L tas current")
    case True
    with Suc.prems(1) have "out = chain" by (auto simp: complete_at_def Let_def split: if_splits)
    with True Suc.prems d show ?thesis by simp
  next
    case False
    then obtain c cd err where sc: "scan_pool L K policy current visited pool None = Inr (Some (c, cd), err)"
      and rest: "build_loop L K policy pool tas n (chain @ [c]) (visited @ [cd]) c = Inr out"
      using Suc.prems(1)
      by (auto simp: complete_at_def Let_def and_then_Inr_iff split: option.splits)
    note f = scan_pool_found [OF sc]
    have "linked L K policy (chain @ [c])"
      using f Suc.prems by (intro linked_snoc) auto
    then obtain ext where "out = (chain @ [c]) @ ext" "set ext \<subseteq> set pool" "linked L K policy out"
      "length ext \<le> n" "distinct (map (cert_to_der L) out)"
      "length ext = n \<or> complete_at L tas (last out)"
      using Suc.IH [OF rest] f Suc.prems(4,5) by auto
    with f show ?thesis by (intro exI [of _ "c # ext"]) auto
  qed
qed

lemma build_chain_inv:
  assumes "build_chain_from_pool_with_policy L K leaf pool tas max_depth policy = Inr chain"
  shows "\<exists>ext. chain = leaf # ext \<and> set ext \<subseteq> set pool \<and> linked L K policy chain
    \<and> length ext \<le> (case max_depth of None \<Rightarrow> 10 | Some d \<Rightarrow> d)
    \<and> distinct (map (cert_to_der L) chain)
    \<and> (length ext = (case max_depth of None \<Rightarrow> 10 | Some d \<Rightarrow> d) \<or> complete_at L tas (last chain))"
proof -
  from assms obtain leaf_der where "cert_to_der L leaf = Some leaf_der"
    and "build_loop L K policy pool tas (case max_depth of None \<Rightarrow> 10 | Some d \<Rightarrow> d) [leaf] [leaf_der] leaf = Inr chain"
    by (auto simp: build_chain_from_pool_with_policy_def Let_def and_then_Inr_iff ok_or_Inr_iff)
  from build_loop_inv [OF this(2)] this(1) show ?thesis by (simp add: linked_def)
qed

subsection \<open>Properties\<close>

text \<open>C14: A chain the builder returns starts with the leaf, continues with certificates of the
  pool only, has matching names and verifying signatures at every link, repeats no certificate and
  is at most one longer than the depth limit (10 by default). If it is shorter than the limit
  allows, its last certificate is self-issued or issued under the name of a trust anchor.\<close>

theorem build_chain_sound:
  assumes "build_chain_from_pool_with_policy L K leaf pool tas max_depth policy = Inr chain"
  shows "\<exists>ext. chain = leaf # ext \<and> set ext \<subseteq> set pool \<and> linked L K policy chain
    \<and> length ext \<le> (case max_depth of None \<Rightarrow> 10 | Some d \<Rightarrow> d)
    \<and> distinct (map (cert_to_der L) chain)
    \<and> (length ext = (case max_depth of None \<Rightarrow> 10 | Some d \<Rightarrow> d) \<or> complete_at L tas (last chain))"
  using build_chain_inv [OF assms] .

lemma toy_walk:
  "build_chain_from_pool_with_policy toy_lib toy_crypto (ed_cert 3 2 None) [toy_root, ed_cert 2 1 None]
     (trust_anchor_subjects toy_lib toy_store) None policy_strict = Inr [ed_cert 3 2 None, ed_cert 2 1 None]"
proof -
  have der: "cert_to_der toy_lib (ed_cert u i e) = Some [u]" for u i e by (simp add: toy_lib_def)
  have name: "name_der_or_default toy_lib (toy_name b) = [0x30, 0, b]" for b
    by (simp add: name_der_or_default_def toy_lib_def toy_name_def)
  have subjects: "trust_anchor_subjects toy_lib toy_store = [[0x30, 0, 1]]"
    by (simp add: trust_anchor_subjects_def store_certificates_def toy_store_def toy_root_def
        List.map_filter_simps toy_lib_def toy_name_def)
  have "scan_pool toy_lib toy_crypto policy_strict (ed_cert 3 2 None) [[3]] [toy_root, ed_cert 2 1 None] None
      = Inr (Some (ed_cert 2 1 None, [2]), None)"
    by (simp add: ed_signature_ok toy_root_def der)
  moreover have "build_loop toy_lib toy_crypto policy_strict pool [[0x30, 0, 1]] (Suc n) chain visited (ed_cert 2 1 None)
      = Inr chain" for pool n chain visited
    by (simp add: name)
  ultimately have "build_loop toy_lib toy_crypto policy_strict [toy_root, ed_cert 2 1 None] [[0x30, 0, 1]] (Suc (Suc n))
      [ed_cert 3 2 None] [[3]] (ed_cert 3 2 None) = Inr [ed_cert 3 2 None, ed_cert 2 1 None]" for n
    by (simp add: name del: scan_pool.simps)
  from this [of 8] show ?thesis
    by (simp add: build_chain_from_pool_with_policy_def der subjects del: scan_pool.simps build_loop.simps)
qed

theorem build_chain_sound_witness:
  "linked toy_lib toy_crypto policy_strict [ed_cert 3 2 None, ed_cert 2 1 None]
   \<and> distinct (map (cert_to_der toy_lib) [ed_cert 3 2 None, ed_cert 2 1 None])"
  using build_chain_sound [OF toy_walk] by blast

text \<open>After any sequence of writes to a store set, reading a kind gives the store last written
  for it, and nothing if none was; the three kinds never interfere.\<close>

theorem store_set_last_write:
  "set_get (foldl (\<lambda>ss (k, v). set_set ss k v) set_new ws) k = map_of (rev ws) k"
  using stores.get_write_all [of ws set_new k] stores.get_empty [of k]
  by (simp add: stores.write_all_def split: option.splits)

end
