(* ===== verification/Anchor_Loading.thy ===== *)
theory Anchor_Loading
  imports Trust_Store "HOL-Library.List_Lexorder"
begin

section \<open>Loading trust anchors (\<open>src/src/trust/store.rs\<close>)\<close>

text \<open>
  PEM bundles, anchor files and anchor directories. The file system is data: the result of reading
  a file, the listing of a directory with the result of reading each entry. The Base64 decoder is
  a parameter. A loader that fails part way leaves the anchors it had already added in the store.
\<close>

subsection \<open>String functions of \<open>std\<close>\<close>

definition starts_with :: "'a list \<Rightarrow> 'a list \<Rightarrow> bool" where
  "starts_with s pre \<longleftrightarrow> take (length pre) s = pre"

fun find_sub :: "'a list \<Rightarrow> 'a list \<Rightarrow> nat option" where
  "find_sub pat [] = (if pat = [] then Some 0 else None)"
| "find_sub pat (x # xs) =
     (if starts_with (x # xs) pat then Some 0 else map_option Suc (find_sub pat xs))"

definition is_ascii_whitespace :: "u8 \<Rightarrow> bool" where
  "is_ascii_whitespace b \<longleftrightarrow> b \<in> {0x20, 0x09, 0x0A, 0x0C, 0x0D}"

definition trim_ascii_start :: "bytes \<Rightarrow> bytes" where
  "trim_ascii_start s = dropWhile is_ascii_whitespace s"

text \<open>\<open>str::lines\<close>: a line ends at a line feed, which takes a carriage return before it along.\<close>

function str_lines :: "bytes \<Rightarrow> bytes list" where
  "str_lines s =
     (if s = [] then []
      else case dropWhile (\<lambda>b. b \<noteq> 0x0A) s of
             [] \<Rightarrow> [s]
           | _ # rest \<Rightarrow>
               (let line = takeWhile (\<lambda>b. b \<noteq> 0x0A) s in
                (case strip_suffix_char 0x0D line of None \<Rightarrow> line | Some l \<Rightarrow> l) # str_lines rest))"
  by pat_completeness auto
termination
proof (relation "measure length", simp)
  fix s rest :: bytes and x
  assume "dropWhile (\<lambda>b. b \<noteq> 0x0A) s = x # rest"
  then have "Suc (length rest) \<le> length s" by (metis length_Cons length_dropWhile_le)
  then show "(rest, s) \<in> measure length" by simp
qed

declare str_lines.simps [simp del]

subsection \<open>PEM\<close>

definition PEM_ARMOR :: bytes where "PEM_ARMOR = ascii ''-----BEGIN''"
definition PEM_BEGIN :: bytes where "PEM_BEGIN = ascii ''-----BEGIN CERTIFICATE-----''"
definition PEM_END :: bytes where "PEM_END = ascii ''-----END CERTIFICATE-----''"

definition pem_body :: "bytes \<Rightarrow> bytes" where
  "pem_body pem_block = concat (filter (\<lambda>line. \<not> starts_with line (ascii ''-----'')) (str_lines pem_block))"

function pem_loop ::
  "lib \<Rightarrow> (bytes \<Rightarrow> bytes option) \<Rightarrow> trust_store \<Rightarrow> bool \<Rightarrow> bytes
    \<Rightarrow> trust_store \<times> (trust_error, bool) result" where
  "pem_loop L b64 s found_any remaining =
     (case find_sub PEM_BEGIN remaining of
        None \<Rightarrow> (s, Inr found_any)
      | Some begin_pos \<Rightarrow>
          let block_start = drop begin_pos remaining in
          (case find_sub PEM_END block_start of
             None \<Rightarrow> (s, Inr found_any)
           | Some end_pos \<Rightarrow>
               let fin = end_pos + length PEM_END; pem_block = take fin block_start in
               (case b64 (pem_body pem_block) of
                  None \<Rightarrow> (s, Inl (CertificateParse ParseBase64))
                | Some der_bytes \<Rightarrow>
                    (case add_der_certificate L s der_bytes of
                       (s', Inl e) \<Rightarrow> (s', Inl e)
                     | (s', Inr _) \<Rightarrow> pem_loop L b64 s' True (drop fin block_start)))))"
  by pat_completeness auto

lemma find_sub_bound: "find_sub pat s = Some i \<Longrightarrow> i + length pat \<le> length s"
proof (induction s arbitrary: i)
  case Nil
  then show ?case by (simp split: if_splits)
next
  case (Cons x xs)
  show ?case
  proof (cases "starts_with (x # xs) pat")
    case True
    then have "length pat \<le> length (x # xs)" by (metis length_take min.cobounded1 starts_with_def)
    with True Cons.prems show ?thesis by simp
  next
    case False
    with Cons show ?thesis by auto
  qed
qed

termination pem_loop
proof (relation "measure (\<lambda>(_, _, _, _, r). length r)", simp)
  fix L :: lib and b64 s found remaining i block_start j fin pem_block der p s' r u
  assume a: "find_sub PEM_BEGIN remaining = Some i" "block_start = drop i remaining"
    "find_sub PEM_END block_start = Some j" "fin = j + length PEM_END"
  have "length PEM_END = 25" by (simp add: PEM_END_def ascii_def)
  moreover have "length (drop fin block_start) = length remaining - i - (j + length PEM_END)"
    using a by simp
  ultimately have "length (drop fin block_start) < length remaining"
    using find_sub_bound [OF a(3)] a(2) by simp
  then show "((L, b64, s', True, drop fin block_start), L, b64, s, found, remaining)
      \<in> measure (\<lambda>(_, _, _, _, r). length r)" by simp
qed

declare pem_loop.simps [simp del]

definition add_pem_data ::
  "lib \<Rightarrow> (bytes \<Rightarrow> bytes option) \<Rightarrow> trust_store \<Rightarrow> bytes \<Rightarrow> trust_store \<times> (trust_error, unit) result" where
  "add_pem_data L b64 s pem_data =
     (if \<not> from_utf8_ok pem_data then (s, Inl (CertificateParse ParsePemUtf8))
      else case pem_loop L b64 s False pem_data of
             (s', Inl e) \<Rightarrow> (s', Inl e)
           | (s', Inr found_any) \<Rightarrow>
               if \<not> found_any then (s', Inl (CertificateParse ParseNoPemBlocks)) else (s', Inr ()))"

definition add_anchor_file_data ::
  "lib \<Rightarrow> (bytes \<Rightarrow> bytes option) \<Rightarrow> trust_store \<Rightarrow> bytes \<Rightarrow> trust_store \<times> (trust_error, unit) result" where
  "add_anchor_file_data L b64 s data =
     (if starts_with (trim_ascii_start data) PEM_ARMOR then add_pem_data L b64 s data
      else add_der_certificate L s data)"

subsection \<open>Files and directories\<close>

definition from_pem_file ::
  "lib \<Rightarrow> (bytes \<Rightarrow> bytes option) \<Rightarrow> (io_error, bytes) result \<Rightarrow> (trust_error, trust_store) result" where
  "from_pem_file L b64 file =
     and_then (map_err Io file) (\<lambda>data.
       case add_pem_data L b64 store_new data of
         (_, Inl e) \<Rightarrow> Inl e
       | (store, Inr _) \<Rightarrow> Inr store)"

text \<open>A directory entry: its name, its path, its extension (\<open>Path::extension\<close>) and what reading
  the file gives.\<close>

record dir_entry =
  file_name :: bytes
  de_path :: rstr
  de_extension :: "char32 list option"
  de_read :: "(io_error, bytes) result"

datatype directory = Directory (dir_path: rstr) (is_dir: bool)
  (listing: "(io_error, (io_error, dir_entry) result list) result")

definition is_candidate :: "lib \<Rightarrow> dir_entry \<Rightarrow> bool" where
  "is_candidate L entry =
     (case de_extension entry of
        None \<Rightarrow> False
      | Some ext \<Rightarrow>
          concat (map (to_lowercase L) ext) \<in>
            {[0x70, 0x65, 0x6D], [0x63, 0x72, 0x74], [0x63, 0x65, 0x72]})"

text \<open>\<open>collect::<io::Result<Vec<_>>>\<close>.\<close>

fun collect_ok :: "('e, 'a) result list \<Rightarrow> ('e, 'a list) result" where
  "collect_ok [] = Inr []"
| "collect_ok (r # rs) = and_then r (\<lambda>x. and_then (collect_ok rs) (\<lambda>xs. Inr (x # xs)))"

fun load_strict ::
  "lib \<Rightarrow> (bytes \<Rightarrow> bytes option) \<Rightarrow> trust_store \<Rightarrow> dir_entry list \<Rightarrow> (trust_error, trust_store) result" where
  "load_strict L b64 s [] = Inr s"
| "load_strict L b64 s (entry # entries) =
     (if is_candidate L entry then
        and_then (map_err (IoAnchorFile (de_path entry)) (de_read entry)) (\<lambda>data.
          case add_anchor_file_data L b64 s data of
            (_, Inl e) \<Rightarrow> Inl (AnchorFileParse (de_path entry) e)
          | (s', Inr _) \<Rightarrow> load_strict L b64 s' entries)
      else load_strict L b64 s entries)"

definition from_pem_directory ::
  "lib \<Rightarrow> (bytes \<Rightarrow> bytes option) \<Rightarrow> directory \<Rightarrow> (trust_error, trust_store) result" where
  "from_pem_directory L b64 dir =
     (if \<not> is_dir dir then Inl (NotADirectory (dir_path dir))
      else
        and_then (map_err Io (listing dir)) (\<lambda>raw.
        and_then (map_err Io (collect_ok raw)) (\<lambda>entries.
          load_strict L b64 store_new (sort_key file_name entries))))"

datatype skip_reason = SkipEntry io_error | SkipRead io_error | SkipParse trust_error

fun load_lenient ::
  "lib \<Rightarrow> (bytes \<Rightarrow> bytes option) \<Rightarrow> trust_store \<Rightarrow> (rstr \<times> skip_reason) list \<Rightarrow> dir_entry list
    \<Rightarrow> trust_store \<times> (rstr \<times> skip_reason) list" where
  "load_lenient L b64 s skipped [] = (s, skipped)"
| "load_lenient L b64 s skipped (entry # entries) =
     (if is_candidate L entry then
        (case de_read entry of
           Inr data \<Rightarrow>
             (case add_anchor_file_data L b64 s data of
                (s', Inl e) \<Rightarrow> load_lenient L b64 s' (skipped @ [(de_path entry, SkipParse e)]) entries
              | (s', Inr _) \<Rightarrow> load_lenient L b64 s' skipped entries)
         | Inl e \<Rightarrow> load_lenient L b64 s (skipped @ [(de_path entry, SkipRead e)]) entries)
      else load_lenient L b64 s skipped entries)"

definition entries_ok :: "('e, 'a) result list \<Rightarrow> 'a list" where
  "entries_ok raw = List.map_filter (\<lambda>r. case r of Inr x \<Rightarrow> Some x | Inl _ \<Rightarrow> None) raw"

definition entries_err :: "rstr \<Rightarrow> (io_error, 'a) result list \<Rightarrow> (rstr \<times> skip_reason) list" where
  "entries_err path raw = List.map_filter (\<lambda>r. case r of Inl e \<Rightarrow> Some (path, SkipEntry e) | Inr _ \<Rightarrow> None) raw"

definition from_pem_directory_lenient ::
  "lib \<Rightarrow> (bytes \<Rightarrow> bytes option) \<Rightarrow> directory
    \<Rightarrow> (trust_error, trust_store \<times> (rstr \<times> skip_reason) list) result" where
  "from_pem_directory_lenient L b64 dir =
     (if \<not> is_dir dir then Inl (NotADirectory (dir_path dir))
      else
        and_then (map_err Io (listing dir)) (\<lambda>raw.
          Inr (load_lenient L b64 store_new (entries_err (dir_path dir) raw)
            (sort_key file_name (entries_ok raw)))))"

subsection \<open>Strict and lenient loading agree\<close>

lemma collect_ok_iff: "collect_ok rs = Inr xs \<longleftrightarrow> rs = map Inr xs"
  by (induction rs arbitrary: xs) (auto simp: and_then_Inr_iff)

lemma entries_map_Inr: "entries_ok (map Inr xs) = xs" "entries_err p (map Inr xs) = []"
  by (induction xs) (simp_all add: entries_ok_def entries_err_def List.map_filter_simps)

lemma entries_err_Nil: "entries_err p raw = [] \<Longrightarrow> raw = map Inr (entries_ok raw)"
  by (induction raw) (auto simp: entries_ok_def entries_err_def List.map_filter_simps split: sum.splits)

lemma load_lenient_keeps: "\<exists>more. snd (load_lenient L b64 s skipped entries) = skipped @ more"
proof (induction entries arbitrary: s skipped)
  case Nil
  then show ?case by simp
next
  case (Cons entry entries)
  have snoc: "\<exists>more. snd (load_lenient L b64 st (skipped @ [x]) entries) = skipped @ more" for st x
    using Cons.IH [of st "skipped @ [x]"] by auto
  show ?case using Cons.IH snoc by (auto split: sum.splits prod.splits)
qed

lemma load_lenient_skipped_ne:
  "skipped \<noteq> [] \<Longrightarrow> snd (load_lenient L b64 s skipped entries) \<noteq> []"
  using load_lenient_keeps [of L b64 s skipped entries] by auto

lemma load_strict_lenient:
  "load_strict L b64 s entries = Inr s' \<longleftrightarrow> load_lenient L b64 s [] entries = (s', [])"
proof (induction entries arbitrary: s)
  case Nil
  then show ?case by simp
next
  case (Cons entry entries)
  have ne: "load_lenient L b64 st [x] entries \<noteq> (s', [])" for st x
    using load_lenient_skipped_ne [of "[x]" L b64 st entries] by (metis list.distinct(1) snd_conv)
  show ?case
    using Cons.IH ne by (auto split: sum.splits prod.splits)
qed

subsection \<open>PEM bundles\<close>

definition base64_char :: "u8 \<Rightarrow> bool" where
  "base64_char b \<longleftrightarrow>
     0x41 \<le> b \<and> b \<le> 0x5A \<or> 0x61 \<le> b \<and> b \<le> 0x7A \<or> 0x30 \<le> b \<and> b \<le> 0x39
     \<or> b = 0x2B \<or> b = 0x2F \<or> b = 0x3D"

text \<open>A printed bundle: every block has its own line ending, LF or CRLF, and its Base64 text on as many lines
  as the printer chose, of any length.\<close>

definition eols :: "bytes set" where "eols = {[0x0A], [0x0D, 0x0A]}"

definition wrapped :: "bytes \<Rightarrow> bytes list \<Rightarrow> bytes" where
  "wrapped eol lines = concat (map (\<lambda>l. l @ eol) lines)"

definition pem_block_of :: "bytes \<Rightarrow> bytes list \<Rightarrow> bytes" where
  "pem_block_of eol lines = PEM_BEGIN @ eol @ wrapped eol lines @ PEM_END"

definition pem_bundle :: "(bytes \<times> bytes list) list \<Rightarrow> bytes" where
  "pem_bundle blocks = concat (map (\<lambda>(eol, lines). pem_block_of eol lines @ eol) blocks)"

definition block_text :: "bytes \<times> bytes list \<Rightarrow> bool" where
  "block_text = (\<lambda>(eol, lines). eol \<in> eols \<and> list_all (list_all base64_char) lines)"

text \<open>A block prints a certificate when the Base64 decoder reads its lines, put together, as that certificate.\<close>

definition prints :: "(bytes \<Rightarrow> bytes option) \<Rightarrow> bytes \<times> bytes list \<Rightarrow> bytes \<Rightarrow> bool" where
  "prints b64 block d \<longleftrightarrow> block_text block \<and> b64 (concat (snd block)) = Some d"

lemma find_sub_skip:
  "pat \<noteq> [] \<Longrightarrow> hd pat \<notin> set xs \<Longrightarrow>
    find_sub pat (xs @ ys) = map_option (\<lambda>i. length xs + i) (find_sub pat ys)"
proof (induction xs)
  case Nil
  then show ?case by (simp add: option.map_ident)
next
  case (Cons x xs)
  then have "\<not> starts_with ((x # xs) @ ys) pat"
    by (cases pat) (auto simp: starts_with_def)
  with Cons show ?case by (simp add: option.map_comp comp_def)
qed

lemma find_sub_here: "find_sub pat (pat @ ys) = Some 0"
proof (cases "pat @ ys")
  case (Cons x xs)
  then have "starts_with (x # xs) pat" by (metis append_eq_conv_conj starts_with_def)
  with Cons show ?thesis by simp
qed simp

lemma not_dash: "base64_char b \<Longrightarrow> b \<noteq> 0x2D \<and> b \<noteq> 0x0A \<and> b \<noteq> 0x0D"
  by (auto simp: base64_char_def)

lemma wrapped_chars:
  "list_all (list_all base64_char) lines \<Longrightarrow> eol \<in> eols \<Longrightarrow> b \<in> set (wrapped eol lines) \<Longrightarrow>
     base64_char b \<or> b = 0x0A \<or> b = 0x0D"
  by (auto simp: wrapped_def list_all_iff eols_def split: if_splits)

lemma find_end_in_block:
  assumes "list_all (list_all base64_char) lines" "eol \<in> eols"
  shows "find_sub PEM_END (pem_block_of eol lines @ rest)
    = Some (length PEM_BEGIN + length eol + length (wrapped eol lines))"
proof -
  let ?body = "wrapped eol lines"
  have "hd PEM_END = 0x2D" by (simp add: PEM_END_def ascii_def)
  then have "hd PEM_END \<notin> set ?body" using wrapped_chars [OF assms] not_dash by force
  then have body: "find_sub PEM_END (?body @ PEM_END @ rest) = Some (length ?body)"
    by (subst find_sub_skip) (simp_all add: find_sub_here, simp add: PEM_END_def ascii_def)
  have "length PEM_BEGIN = 27" by (simp add: PEM_BEGIN_def ascii_def)
  moreover have "find_sub PEM_END (PEM_BEGIN @ eol @ ?body @ PEM_END @ rest) = Some (27 + length eol + length ?body)"
    using assms(2) body by (auto simp: eols_def PEM_BEGIN_def PEM_END_def ascii_def starts_with_def)
  ultimately show ?thesis by (simp add: pem_block_of_def)
qed

lemma str_lines_line:
  assumes "0x0A \<notin> set line" "0x0D \<notin> set line" "eol \<in> eols"
  shows "str_lines (line @ eol @ rest) = line # str_lines rest"
proof -
  obtain cr where cr: "eol = cr @ [0x0A]" "cr = [] \<or> cr = [0x0D]" using assms(3) by (auto simp: eols_def)
  have "dropWhile (\<lambda>b. b \<noteq> 0x0A) ((line @ cr) @ 0x0A # rest) = 0x0A # rest"
    using assms(1) cr(2) by (subst dropWhile_append2) auto
  moreover have "takeWhile (\<lambda>b. b \<noteq> 0x0A) ((line @ cr) @ 0x0A # rest) = line @ cr"
    using assms(1) cr(2) by (subst takeWhile_append2) auto
  moreover have "(case strip_suffix_char 0x0D (line @ cr) of None \<Rightarrow> line @ cr | Some l \<Rightarrow> l) = line"
  proof (cases "cr = []")
    case True
    have "strip_suffix_char 0x0D line = None"
      using assms(2) by (metis last_in_set strip_suffix_char_def)
    with True show ?thesis by simp
  next
    case False
    with cr(2) show ?thesis by (simp add: strip_suffix_char_def)
  qed
  ultimately have "str_lines ((line @ cr) @ 0x0A # rest) = line # str_lines rest"
    by (simp add: str_lines.simps [of "(line @ cr) @ 0x0A # rest"] del: append_assoc)
  with cr(1) show ?thesis by simp
qed

lemma str_lines_last: "s \<noteq> [] \<Longrightarrow> 0x0A \<notin> set s \<Longrightarrow> str_lines s = [s]"
proof -
  assume "s \<noteq> []" "0x0A \<notin> set s"
  then have "dropWhile (\<lambda>b. b \<noteq> 0x0A) s = []" by (auto simp: dropWhile_eq_Nil_conv)
  with \<open>s \<noteq> []\<close> show ?thesis
    by (simp add: str_lines.simps [of s] del: dropWhile_eq_Nil_conv)
qed

lemma str_lines_wrapped:
  "list_all (list_all base64_char) lines \<Longrightarrow> eol \<in> eols \<Longrightarrow>
     str_lines (wrapped eol lines @ rest) = lines @ str_lines rest"
proof (induction lines)
  case (Cons l lines)
  then have "0x0A \<notin> set l" "0x0D \<notin> set l" using not_dash by (auto simp: list_all_iff)
  from str_lines_line [OF this Cons.prems(2), of "wrapped eol lines @ rest"] Cons show ?case
    by (simp add: wrapped_def)
qed (simp add: wrapped_def)

lemma pem_body_block:
  assumes "list_all (list_all base64_char) lines" "eol \<in> eols"
  shows "pem_body (pem_block_of eol lines) = concat lines"
proof -
  have b: "0x0A \<notin> set PEM_BEGIN" "0x0D \<notin> set PEM_BEGIN" "0x0A \<notin> set PEM_END" "PEM_END \<noteq> []"
    by (simp_all add: PEM_BEGIN_def PEM_END_def ascii_def)
  have "str_lines (pem_block_of eol lines) = PEM_BEGIN # lines @ [PEM_END]"
    using str_lines_line [OF b(1,2) assms(2), of "wrapped eol lines @ PEM_END"] str_lines_wrapped [OF assms, of PEM_END]
      str_lines_last [OF b(4,3)] by (simp add: pem_block_of_def)
  moreover have "starts_with PEM_BEGIN (ascii ''-----'')" "starts_with PEM_END (ascii ''-----'')"
    by (simp_all add: starts_with_def PEM_BEGIN_def PEM_END_def ascii_def)
  moreover have "\<not> starts_with l (ascii ''-----'')" if "l \<in> set lines" for l
  proof -
    from that assms(1) have "list_all base64_char l" by (simp add: list_all_iff)
    then have "0x2D \<notin> set l" using not_dash by (auto simp: list_all_iff)
    then show ?thesis by (cases l) (auto simp: starts_with_def ascii_def)
  qed
  then have "filter (\<lambda>line. \<not> starts_with line (ascii ''-----'')) lines = lines" by (simp add: filter_id_conv)
  ultimately show ?thesis by (simp add: pem_body_def)
qed

text \<open>Adding certificates one by one until one fails.\<close>

fun add_all :: "lib \<Rightarrow> trust_store \<Rightarrow> bytes list \<Rightarrow> trust_store \<times> (trust_error, unit) result" where
  "add_all L s [] = (s, Inr ())"
| "add_all L s (d # ds) =
     (case add_der_certificate L s d of
        (s', Inl e) \<Rightarrow> (s', Inl e)
      | (s', Inr _) \<Rightarrow> add_all L s' ds)"

lemma pem_loop_block:
  assumes "prints b64 (eol, lines) d"
  shows "pem_loop L b64 s found (pem_block_of eol lines @ rest) =
    (case add_der_certificate L s d of
       (s', Inl e) \<Rightarrow> (s', Inl e)
     | (s', Inr _) \<Rightarrow> pem_loop L b64 s' True rest)"
proof -
  from assms have a: "list_all (list_all base64_char) lines" "eol \<in> eols" "b64 (concat lines) = Some d"
    by (simp_all add: prints_def block_text_def)
  have lens: "length PEM_BEGIN + length eol + length (wrapped eol lines) + length PEM_END = length (pem_block_of eol lines)"
    by (simp add: pem_block_of_def)
  have "find_sub PEM_BEGIN (pem_block_of eol lines @ rest) = Some 0"
    by (simp add: pem_block_of_def find_sub_here)
  moreover note find_end_in_block [OF a(1,2), of rest]
  ultimately show ?thesis
    using a(3) pem_body_block [OF a(1,2)]
    by (subst pem_loop.simps) (simp only: Let_def lens option.case drop_0 append_eq_conv_conj
        take_append take_all_iff diff_self_eq_0 take_0 append_Nil2 order_refl append_eq_conv_conj
        append_take_drop_id, simp)
qed

lemma pem_loop_newline: "eol \<in> eols \<Longrightarrow> pem_loop L b64 s found (eol @ rest) = pem_loop L b64 s found rest"
proof -
  assume "eol \<in> eols"
  then have "find_sub PEM_BEGIN (eol @ rest) = map_option (\<lambda>i. length eol + i) (find_sub PEM_BEGIN rest)"
    by (intro find_sub_skip) (auto simp: PEM_BEGIN_def ascii_def eols_def)
  then show ?thesis
    by (subst (1 2) pem_loop.simps) (cases "find_sub PEM_BEGIN rest"; simp)
qed

lemma pem_loop_bundle:
  assumes "list_all2 (prints b64) blocks ds"
  shows "pem_loop L b64 s found (pem_bundle blocks) =
    (case add_all L s ds of
       (s', Inl e) \<Rightarrow> (s', Inl e)
     | (s', Inr _) \<Rightarrow> (s', Inr (found \<or> ds \<noteq> [])))"
  using assms
proof (induction blocks ds arbitrary: s found rule: list_all2_induct)
  case Nil
  have "find_sub PEM_BEGIN [] = None" by (simp add: PEM_BEGIN_def ascii_def)
  then show ?case by (simp add: pem_bundle_def pem_loop.simps)
next
  case (Cons block blocks d ds)
  obtain eol lines where b: "block = (eol, lines)" by (cases block)
  then have "pem_bundle (block # blocks) = pem_block_of eol lines @ eol @ pem_bundle blocks"
    by (simp add: pem_bundle_def)
  moreover from Cons(1) b have "prints b64 (eol, lines) d" "eol \<in> eols" by (simp_all add: prints_def block_text_def)
  ultimately show ?case using Cons
    by (simp add: pem_loop_block pem_loop_newline split: sum.splits prod.splits)
qed

lemma bundle_ascii:
  assumes "\<forall>block\<in>set blocks. block_text block"
  shows "from_utf8_ok (pem_bundle blocks)"
proof (rule ascii_from_utf8_ok)
  have char: "b < 0x80" if "base64_char b \<or> b = 0x0A \<or> b = 0x0D" for b
    using that by (auto simp: base64_char_def word_less_nat_alt word_le_nat_alt)
  have "b < 0x80" if "block_text (eol, lines)" "b \<in> set (pem_block_of eol lines @ eol)" for eol lines b
  proof -
    from that have t: "list_all (list_all base64_char) lines" "eol \<in> eols" by (simp_all add: block_text_def)
    from that(2) consider "b \<in> set PEM_BEGIN" | "b \<in> set PEM_END" | "b \<in> set eol" | "b \<in> set (wrapped eol lines)"
      by (auto simp: pem_block_of_def)
    then show ?thesis
    proof cases
      case 4
      with char wrapped_chars [OF t] show ?thesis by blast
    qed (use t in \<open>auto simp: eols_def PEM_BEGIN_def PEM_END_def ascii_def\<close>)
  qed
  with assms show "is_ascii (pem_bundle blocks)"
    unfolding pem_bundle_def is_ascii_def list_all_iff by fastforce
qed

lemma prints_block_text: "list_all2 (prints b64) blocks ds \<Longrightarrow> \<forall>block\<in>set blocks. block_text block"
  by (induction rule: list_all2_induct) (auto simp: prints_def)

lemma add_pem_bundle:
  assumes "ds \<noteq> []" "list_all2 (prints b64) blocks ds"
  shows "add_pem_data L b64 s (pem_bundle blocks) = add_all L s ds"
proof -
  have "from_utf8_ok (pem_bundle blocks)" using prints_block_text [OF assms(2)] by (rule bundle_ascii)
  with assms show ?thesis
    by (simp add: add_pem_data_def pem_loop_bundle split: sum.splits prod.splits)
qed

lemma add_all_ok:
  "\<forall>d\<in>set ds. cert_from_der L d \<noteq> None \<Longrightarrow>
    add_all L s ds =
      (s\<lparr>anchors := anchors s @ map (\<lambda>d. \<lparr>ta_cert = the (cert_from_der L d), ta_der = d\<rparr>) ds\<rparr>, Inr ())"
  by (induction ds arbitrary: s) (auto simp: add_der_certificate_def)

subsection \<open>Properties\<close>

text \<open>C37: The strict directory loader succeeds exactly when the lenient one skips nothing, and
  then both give the same store: no unreadable entry, unreadable file or malformed anchor is
  dropped silently.\<close>

theorem from_pem_directory_strict_iff:
  "from_pem_directory L b64 dir = Inr store \<longleftrightarrow> from_pem_directory_lenient L b64 dir = Inr (store, [])"
proof (cases "is_dir dir \<and> is_ok (listing dir)")
  case True
  then obtain raw where raw: "is_dir dir" "listing dir = Inr raw" by (auto simp: is_ok_iff)
  show ?thesis
  proof (cases "entries_err (dir_path dir) raw = []")
    case True
    then obtain xs where xs: "raw = map Inr xs" using entries_err_Nil by blast
    then have "collect_ok raw = Inr xs" by (simp add: collect_ok_iff)
    with raw xs show ?thesis
      by (simp add: from_pem_directory_def from_pem_directory_lenient_def entries_map_Inr load_strict_lenient)
  next
    case False
    then have "raw \<noteq> map Inr xs" for xs by (auto simp: entries_map_Inr)
    then have "collect_ok raw \<noteq> Inr xs" for xs by (simp add: collect_ok_iff)
    moreover have "snd (load_lenient L b64 store_new (entries_err (dir_path dir) raw)
        (sort_key file_name (entries_ok raw))) \<noteq> []"
      using False by (rule load_lenient_skipped_ne)
    ultimately show ?thesis
      using raw by (auto simp: from_pem_directory_def from_pem_directory_lenient_def and_then_Inr_iff
          map_err_Inr_iff)
  qed
next
  case False
  then show ?thesis
    by (cases "listing dir") (auto simp: from_pem_directory_def from_pem_directory_lenient_def)
qed

text \<open>C38: A PEM bundle of certificates loads exactly those certificates, in order, after whatever
  the store held: adding a printed bundle appends one anchor per block, with the block's own DER bytes. The
  blocks may be wrapped to lines of any length, ended by LF or CRLF; the hypothesis is that the Base64
  decoder reads the lines of each block, put together, as its certificate.\<close>

theorem pem_bundle_roundtrip:
  assumes "ds \<noteq> []" "list_all2 (prints b64) blocks ds"
    and "\<forall>d\<in>set ds. cert_from_der L d \<noteq> None"
  shows "\<exists>s'. add_pem_data L b64 s (pem_bundle blocks) = (s', Inr ())
    \<and> store_certificates_der s' = store_certificates_der s @ ds
    \<and> store_certificates s' = store_certificates s @ map (the \<circ> cert_from_der L) ds
    \<and> ts_signature_policy s' = ts_signature_policy s"
  using assms add_pem_bundle [of ds b64 blocks L s] add_all_ok [of ds L s]
  by (simp add: store_certificates_def store_certificates_der_def comp_def)

text \<open>A decoder that maps A to 0, B to 1 and so on; the first certificate is printed on three lines that end with
  CRLF, the second on one.\<close>

definition toy_b64 :: "bytes \<Rightarrow> bytes option" where
  "toy_b64 e = Some (map (\<lambda>b. b - 0x41) e)"

theorem pem_bundle_roundtrip_witness:
  "\<exists>s'. add_pem_data (toy_lib\<lparr>cert_from_der := \<lambda>d. Some (toy_cert [] [] d None)\<rparr>) toy_b64 store_new
      (pem_bundle [([0x0D, 0x0A], [ascii ''BC'', ascii ''DE'', ascii ''F'']), ([0x0A], [ascii ''D''])]) = (s', Inr ())
    \<and> store_certificates_der s' = [[1, 2, 3, 4, 5], [3]]"
  using pem_bundle_roundtrip [of "[[1, 2, 3, 4, 5], [3]]" toy_b64
      "[([0x0D, 0x0A], [ascii ''BC'', ascii ''DE'', ascii ''F'']), ([0x0A], [ascii ''D''])]"
      "toy_lib\<lparr>cert_from_der := \<lambda>d. Some (toy_cert [] [] d None)\<rparr>" store_new]
  by (auto simp: prints_def block_text_def eols_def toy_b64_def ascii_def base64_char_def store_new_def
      store_certificates_der_def)

text \<open>The lenient loader reports a bundle whose second certificate does not decode as skipped,
  but keeps the anchor of the first: a skipped file may still have contributed trust anchors.\<close>

theorem lenient_keeps_partial_file:
  assumes "is_candidate L entry" "de_read entry = Inr (pem_bundle [block1, block2])"
    and "prints b64 block1 d1" "prints b64 block2 d2"
    and "cert_from_der L d1 = Some c1" "cert_from_der L d2 = None"
  shows "\<exists>store. from_pem_directory_lenient L b64 (Directory p True (Inr [Inr entry]))
      = Inr (store, [(de_path entry, SkipParse (CertificateParse ParseDerDecode))])
    \<and> contains_der store d1"
proof -
  let ?pem = "pem_bundle [block1, block2]"
  have armor: "starts_with (trim_ascii_start ?pem) PEM_ARMOR"
  proof -
    have "\<exists>r. ?pem = PEM_ARMOR @ r"
      by (cases block1) (simp add: pem_bundle_def pem_block_of_def PEM_BEGIN_def PEM_ARMOR_def ascii_def)
    moreover have "trim_ascii_start (PEM_ARMOR @ r) = PEM_ARMOR @ r" for r
      by (simp add: PEM_ARMOR_def ascii_def trim_ascii_start_def is_ascii_whitespace_def)
    ultimately show ?thesis by (metis append_eq_conv_conj starts_with_def)
  qed
  have "add_anchor_file_data L b64 store_new ?pem = add_all L store_new [d1, d2]"
    using assms(3,4) armor add_pem_bundle [of "[d1, d2]" b64 "[block1, block2]" L store_new]
    by (simp add: add_anchor_file_data_def)
  also have "\<dots> = (store_new\<lparr>anchors := [\<lparr>ta_cert = c1, ta_der = d1\<rparr>]\<rparr>,
      Inl (CertificateParse ParseDerDecode))"
    using assms(5,6) by (simp add: add_der_certificate_def store_new_def)
  finally show ?thesis
    using assms(1,2)
    by (simp add: from_pem_directory_lenient_def entries_ok_def entries_err_def List.map_filter_simps
        contains_der_def)
qed

theorem lenient_keeps_partial_file_witness:
  "\<exists>store. from_pem_directory_lenient
      (toy_lib\<lparr>cert_from_der := \<lambda>d. if d = [1] then Some (toy_cert [] [] d None) else None\<rparr>) toy_b64
      (Directory [] True (Inr [Inr \<lparr>file_name = [0x61], de_path = [0x61], de_extension = Some [0x70, 0x65, 0x6D],
         de_read = Inr (pem_bundle [([0x0A], [ascii ''B'']), ([0x0A], [ascii ''C''])])\<rparr>]))
      = Inr (store, [([0x61], SkipParse (CertificateParse ParseDerDecode))])
    \<and> contains_der store [1]"
  using lenient_keeps_partial_file [of
      "toy_lib\<lparr>cert_from_der := \<lambda>d. if d = [1] then Some (toy_cert [] [] d None) else None\<rparr>"
      "\<lparr>file_name = [0x61], de_path = [0x61], de_extension = Some [0x70, 0x65, 0x6D],
         de_read = Inr (pem_bundle [([0x0A], [ascii ''B'']), ([0x0A], [ascii ''C''])])\<rparr>"
      "([0x0A], [ascii ''B''])" "([0x0A], [ascii ''C''])" toy_b64 "[1]" "[2]" "toy_cert [] [] [1] None" "[]"]
  by (simp add: is_candidate_def toy_lib_def prints_def block_text_def eols_def toy_b64_def ascii_def base64_char_def)

end
