(* ===== verification/Net.thy ===== *)
theory Net
  imports Prelude
begin

section \<open>Fetching attacker-influenced URLs (\<open>src/src/net.rs\<close>)\<close>

text \<open>
  The guard every CRL, OCSP and issuer fetch passes: the scheme and the addresses a host resolves to.
  An IPv4 address is its four octets, an IPv6 address its eight segments. URL parsing (the \<open>url\<close>
  crate) and name resolution are parameters; the HTTP client is in the theory \<open>Http_Client\<close>.
\<close>

type_synonym u16 = "16 word"

datatype ipv4 = Ipv4 u8 u8 u8 u8
datatype ipv6 = Ipv6 u16 u16 u16 u16 u16 u16 u16 u16
datatype ip_addr = V4 ipv4 | V6 ipv6

subsection \<open>The address classifier\<close>

text \<open>The predicates of \<open>std::net::Ipv4Addr\<close> and \<open>Ipv6Addr\<close>.\<close>

fun v4_is_loopback :: "ipv4 \<Rightarrow> bool" where "v4_is_loopback (Ipv4 a b c d) = (a = 127)"
fun v4_is_private :: "ipv4 \<Rightarrow> bool" where
  "v4_is_private (Ipv4 a b c d) \<longleftrightarrow> a = 10 \<or> a = 172 \<and> 16 \<le> b \<and> b \<le> 31 \<or> a = 192 \<and> b = 168"
fun v4_is_link_local :: "ipv4 \<Rightarrow> bool" where "v4_is_link_local (Ipv4 a b c d) \<longleftrightarrow> a = 169 \<and> b = 254"
definition v4_is_unspecified :: "ipv4 \<Rightarrow> bool" where "v4_is_unspecified v \<longleftrightarrow> v = Ipv4 0 0 0 0"
definition v4_is_broadcast :: "ipv4 \<Rightarrow> bool" where "v4_is_broadcast v \<longleftrightarrow> v = Ipv4 255 255 255 255"
fun v4_is_documentation :: "ipv4 \<Rightarrow> bool" where
  "v4_is_documentation (Ipv4 a b c d) \<longleftrightarrow>
     a = 192 \<and> b = 0 \<and> c = 2 \<or> a = 198 \<and> b = 51 \<and> c = 100 \<or> a = 203 \<and> b = 0 \<and> c = 113"
fun v4_is_multicast :: "ipv4 \<Rightarrow> bool" where "v4_is_multicast (Ipv4 a b c d) \<longleftrightarrow> 224 \<le> a \<and> a \<le> 239"

definition v6_is_loopback :: "ipv6 \<Rightarrow> bool" where "v6_is_loopback v \<longleftrightarrow> v = Ipv6 0 0 0 0 0 0 0 1"
definition v6_is_unspecified :: "ipv6 \<Rightarrow> bool" where "v6_is_unspecified v \<longleftrightarrow> v = Ipv6 0 0 0 0 0 0 0 0"
fun v6_is_multicast :: "ipv6 \<Rightarrow> bool" where
  "v6_is_multicast (Ipv6 a b c d e f g h) \<longleftrightarrow> a AND 0xff00 = 0xff00"

text \<open>\<open>to_be_bytes\<close> of a segment, and \<open>to_ipv4_mapped\<close>: \<open>::ffff:a.b.c.d\<close>.\<close>

definition seg_hi :: "u16 \<Rightarrow> u8" where "seg_hi s = ucast (drop_bit 8 s)"
definition seg_lo :: "u16 \<Rightarrow> u8" where "seg_lo s = ucast s"

fun to_ipv4_mapped :: "ipv6 \<Rightarrow> ipv4 option" where
  "to_ipv4_mapped (Ipv6 a b c d e f g h) =
     (if a = 0 \<and> b = 0 \<and> c = 0 \<and> d = 0 \<and> e = 0 \<and> f = 0xffff
      then Some (Ipv4 (seg_hi g) (seg_lo g) (seg_hi h) (seg_lo h)) else None)"

fun is_disallowed_ipv4 :: "ipv4 \<Rightarrow> bool" where
  "is_disallowed_ipv4 (Ipv4 a b c d) =
     (v4_is_loopback (Ipv4 a b c d)
      \<or> v4_is_private (Ipv4 a b c d)
      \<or> v4_is_link_local (Ipv4 a b c d)
      \<or> v4_is_unspecified (Ipv4 a b c d)
      \<or> v4_is_broadcast (Ipv4 a b c d)
      \<or> v4_is_documentation (Ipv4 a b c d)
      \<or> v4_is_multicast (Ipv4 a b c d)
      \<or> a = 0
      \<or> (a = 100 \<and> b AND 0xc0 = 0x40)
      \<or> (a = 192 \<and> b = 0 \<and> c = 0)
      \<or> (a = 198 \<and> b AND 0xfe = 18)
      \<or> 240 \<le> a)"

fun is_disallowed_ip :: "ip_addr \<Rightarrow> bool" where
  "is_disallowed_ip (V4 v4) = is_disallowed_ipv4 v4"
| "is_disallowed_ip (V6 (Ipv6 a b c d e f g h)) =
     (case to_ipv4_mapped (Ipv6 a b c d e f g h) of
        Some v4 \<Rightarrow> is_disallowed_ipv4 v4
      | None \<Rightarrow>
          v6_is_loopback (Ipv6 a b c d e f g h)
          \<or> v6_is_unspecified (Ipv6 a b c d e f g h)
          \<or> v6_is_multicast (Ipv6 a b c d e f g h)
          \<or> a AND 0xfe00 = 0xfc00
          \<or> a AND 0xffc0 = 0xfe80
          \<or> a AND 0xffc0 = 0xfec0
          \<or> (a = 0x2001 \<and> b = 0x0db8)
          \<or> (a = 0x3fff \<and> b AND 0xf000 = 0)
          \<or> (a = 0x0100 \<and> [b, c, d] = [0, 0, 0]))"

subsection \<open>Address literals\<close>

text \<open>The address parser of \<open>std::net\<close>. A reader returns what it read and the rest of the input;
  \<open>None\<close> leaves the position where it was.\<close>

definition to_digit :: "nat \<Rightarrow> u8 \<Rightarrow> nat option" where
  "to_digit radix b =
     (let n = unat b;
          v = (if 48 \<le> n \<and> n \<le> 57 then Some (n - 48)
               else if 97 \<le> n \<and> n \<le> 122 then Some (n - 87)
               else if 65 \<le> n \<and> n \<le> 90 then Some (n - 55)
               else None)
      in case v of Some d \<Rightarrow> if d < radix then Some d else None | None \<Rightarrow> None)"

text \<open>The digits at the front: the value so far, the count, the limits of the type and of the count.\<close>

fun read_digits :: "nat \<Rightarrow> nat \<Rightarrow> nat \<Rightarrow> nat \<Rightarrow> nat \<Rightarrow> rstr \<Rightarrow> (nat \<times> nat \<times> rstr) option" where
  "read_digits radix bound max_digits acc count [] = Some (acc, count, [])"
| "read_digits radix bound max_digits acc count (b # rest) =
     (case to_digit radix b of
        None \<Rightarrow> Some (acc, count, b # rest)
      | Some d \<Rightarrow>
          if bound \<le> acc * radix \<or> bound \<le> acc * radix + d then None
          else if max_digits < count + 1 then None
          else read_digits radix bound max_digits (acc * radix + d) (count + 1) rest)"

definition read_number :: "nat \<Rightarrow> nat \<Rightarrow> nat \<Rightarrow> bool \<Rightarrow> rstr \<Rightarrow> (nat \<times> rstr) option" where
  "read_number radix bound max_digits allow_zero_prefix s =
     (case read_digits radix bound max_digits 0 0 s of
        None \<Rightarrow> None
      | Some (v, count, rest) \<Rightarrow>
          if count = 0 then None
          else if \<not> allow_zero_prefix \<and> hd s = 0x30 \<and> 1 < count then None
          else Some (v, rest))"

definition read_separator :: "u8 \<Rightarrow> nat \<Rightarrow> (rstr \<Rightarrow> ('a \<times> rstr) option) \<Rightarrow> rstr \<Rightarrow> ('a \<times> rstr) option" where
  "read_separator sep index inner s =
     (if 0 < index then Option.bind (strip_prefix_char sep s) inner else inner s)"

definition read_octet :: "nat \<Rightarrow> rstr \<Rightarrow> (u8 \<times> rstr) option" where
  "read_octet index s =
     map_option (\<lambda>(v, rest). (of_nat v, rest)) (read_separator 0x2E index (read_number 10 256 3 False) s)"

definition read_ipv4_addr :: "rstr \<Rightarrow> (ipv4 \<times> rstr) option" where
  "read_ipv4_addr s =
     Option.bind (read_octet 0 s) (\<lambda>(a, s).
     Option.bind (read_octet 1 s) (\<lambda>(b, s).
     Option.bind (read_octet 2 s) (\<lambda>(c, s).
     Option.bind (read_octet 3 s) (\<lambda>(d, s). Some (Ipv4 a b c d, s)))))"

fun ipv4_segments :: "ipv4 \<Rightarrow> u16 list" where
  "ipv4_segments (Ipv4 a b c d) = [ucast a * 256 + ucast b, ucast c * 256 + ucast d]"

text \<open>\<open>read_groups\<close>: up to \<open>limit\<close> groups from index \<open>i\<close> on, and whether they end in an embedded
  IPv4 address.\<close>

function read_groups :: "nat \<Rightarrow> nat \<Rightarrow> rstr \<Rightarrow> u16 list \<times> bool \<times> rstr" where
  "read_groups limit i s =
     (if limit \<le> i then ([], False, s)
      else
        case (if i < limit - 1 then read_separator 0x3A i read_ipv4_addr s else None) of
          Some (v4, rest) \<Rightarrow> (ipv4_segments v4, True, rest)
        | None \<Rightarrow>
            (case read_separator 0x3A i (read_number 16 65536 4 True) s of
               None \<Rightarrow> ([], False, s)
             | Some (g, rest) \<Rightarrow>
                 (let (gs, v4, rest') = read_groups limit (i + 1) rest in (of_nat g # gs, v4, rest'))))"
  by pat_completeness auto
termination by (relation "measure (\<lambda>(limit, i, _). limit - i)") auto

declare read_groups.simps [simp del]

definition ipv6_of_segments :: "u16 list \<Rightarrow> ipv6" where
  "ipv6_of_segments gs = Ipv6 (gs ! 0) (gs ! 1) (gs ! 2) (gs ! 3) (gs ! 4) (gs ! 5) (gs ! 6) (gs ! 7)"

definition read_ipv6_addr :: "rstr \<Rightarrow> (ipv6 \<times> rstr) option" where
  "read_ipv6_addr s =
     (let (head, head_ipv4, s1) = read_groups 8 0 s in
      if length head = 8 then Some (ipv6_of_segments head, s1)
      else if head_ipv4 then None
      else
        Option.bind (strip_prefix_char 0x3A s1) (\<lambda>s2.
        Option.bind (strip_prefix_char 0x3A s2) (\<lambda>s3.
          let (tail, _, s4) = read_groups (8 - (length head + 1)) 0 s3 in
          Some (ipv6_of_segments (head @ replicate (8 - length head - length tail) 0 @ tail), s4))))"

definition read_ip_addr :: "rstr \<Rightarrow> (ip_addr \<times> rstr) option" where
  "read_ip_addr s =
     (case read_ipv4_addr s of
        Some (v4, rest) \<Rightarrow> Some (V4 v4, rest)
      | None \<Rightarrow> map_option (\<lambda>(v6, rest). (V6 v6, rest)) (read_ipv6_addr s))"

text \<open>\<open>str::parse::<IpAddr>\<close>: the whole string is one address.\<close>

definition parse_ip_addr :: "rstr \<Rightarrow> ip_addr option" where
  "parse_ip_addr s =
     (case read_ip_addr s of
        Some (ip, rest) \<Rightarrow> if rest = [] then Some ip else None
      | None \<Rightarrow> None)"

definition unbracket :: "rstr \<Rightarrow> rstr" where
  "unbracket host =
     (case Option.bind (strip_prefix_char 0x5B host) (strip_suffix_char 0x5D) of
        Some h \<Rightarrow> h
      | None \<Rightarrow> host)"

subsection \<open>The guard\<close>

text \<open>What \<open>reqwest::Url\<close> tells of a parsed URL, and the outside world: URL parsing and resolution.\<close>

record url =
  url_scheme :: rstr
  url_host_str :: "rstr option"
  url_port_or_known_default :: "nat option"

record resolver =
  url_parse :: "rstr \<Rightarrow> url option"
  to_socket_addrs :: "rstr \<Rightarrow> nat \<Rightarrow> ip_addr list option"

datatype url_guard_error =
    UrlParse rstr | UrlScheme rstr | UrlNoHost | UrlResolution rstr | UrlNoAddresses rstr
  | UrlNonPublic rstr "ip_addr option"

definition validate_resolved_addresses :: "rstr \<Rightarrow> ip_addr list \<Rightarrow> (url_guard_error, ip_addr list) result" where
  "validate_resolved_addresses host addrs =
     (if addrs = [] then Inl (UrlNoAddresses host)
      else
        and_then (try_for (\<lambda>addr. if is_disallowed_ip addr then Inl (UrlNonPublic host (Some addr)) else Inr ()) addrs)
          (\<lambda>_. Inr addrs))"

definition resolve_public_host :: "resolver \<Rightarrow> rstr \<Rightarrow> nat \<Rightarrow> (url_guard_error, ip_addr list) result" where
  "resolve_public_host R host port =
     and_then (ok_or (UrlResolution host) (to_socket_addrs R host port)) (validate_resolved_addresses host)"

definition ascii_http :: rstr where "ascii_http = [0x68, 0x74, 0x74, 0x70]"
definition ascii_https :: rstr where "ascii_https = [0x68, 0x74, 0x74, 0x70, 0x73]"

definition validate_fetch_url :: "resolver \<Rightarrow> rstr \<Rightarrow> (url_guard_error, unit) result" where
  "validate_fetch_url R u =
     and_then (ok_or (UrlParse u) (url_parse R u)) (\<lambda>parsed.
       if url_scheme parsed \<noteq> ascii_http \<and> url_scheme parsed \<noteq> ascii_https then Inl (UrlScheme (url_scheme parsed))
       else
       and_then (ok_or UrlNoHost (url_host_str parsed)) (\<lambda>host.
         let host_bare = unbracket host in
         case parse_ip_addr host_bare of
           Some ip \<Rightarrow> if is_disallowed_ip ip then Inl (UrlNonPublic host_bare None) else Inr ()
         | None \<Rightarrow>
             (let port = (case url_port_or_known_default parsed of Some p \<Rightarrow> p | None \<Rightarrow> 0) in
              and_then (resolve_public_host R host_bare port) (\<lambda>_. Inr ()))))"

subsection \<open>Responses\<close>

text \<open>What a request returns: the status, the announced length, and the successive results of
  \<open>Response::chunk\<close> (\<open>None\<close> is a read error; the body ends with the list). \<open>http_get\<close> is \<open>None\<close>
  when \<open>send\<close> fails, \<open>guard_timeout\<close> says that the guard's name resolution exceeds the timeout.\<close>

record http_response =
  http_success :: bool
  http_content_length :: "nat option"
  http_chunks :: "bytes option list"

record net_env =
  net_resolver :: resolver
  guard_timeout :: "rstr \<Rightarrow> bool"
  http_get :: "rstr \<Rightarrow> http_response option"

datatype fetch_error =
    FetchGuardTimeout
  | FetchGuard url_guard_error
  | FetchSend
  | FetchStatus
  | FetchAnnounced nat
  | FetchRead
  | FetchTooLarge
  | FetchCachedTooLarge
  | FetchNotDer
  | FetchParse

subsection \<open>Address blocks\<close>

text \<open>The address as a number, and the blocks the guard refuses, as base and prefix length.\<close>

fun ipv4_value :: "ipv4 \<Rightarrow> nat" where
  "ipv4_value (Ipv4 a b c d) = ((unat a * 256 + unat b) * 256 + unat c) * 256 + unat d"

definition seg_cat :: "nat \<Rightarrow> u16 \<Rightarrow> nat" where "seg_cat v s = v * 65536 + unat s"

fun ipv6_value :: "ipv6 \<Rightarrow> nat" where
  "ipv6_value (Ipv6 a b c d e f g h) = foldl seg_cat 0 [a, b, c, d, e, f, g, h]"

definition in_block :: "nat \<Rightarrow> nat \<Rightarrow> nat \<times> nat \<Rightarrow> bool" where
  "in_block width v = (\<lambda>(base, len). v div 2 ^ (width - len) = base)"

text \<open>Each block by its prefix and the length of the prefix.\<close>

definition ipv4_blocks :: "(nat \<times> nat) list" where
  "ipv4_blocks = [
     (127, 8), (10, 8), (172 * 16 + 1, 12), (192 * 256 + 168, 16), (169 * 256 + 254, 16),
     (192 * 65536 + 2, 24), (198 * 65536 + 51 * 256 + 100, 24), (203 * 65536 + 113, 24),
     (14, 4), (15, 4), (0, 8), (100 * 4 + 1, 10), (192 * 65536, 24), (198 * 128 + 9, 15)]"

text \<open>IPv6: \<open>::1\<close>, \<open>::\<close>, \<open>ff00::/8\<close>, \<open>fc00::/7\<close>, \<open>fe80::/10\<close>, \<open>fec0::/10\<close>, \<open>2001:db8::/32\<close>,
  \<open>3fff::/20\<close> and \<open>100::/64\<close>.\<close>

definition ipv6_blocks :: "(nat \<times> nat) list" where
  "ipv6_blocks = [(1, 128), (0, 128), (0xff, 8), (0xfc00 div 512, 7), (0xfe80 div 64, 10), (0xfec0 div 64, 10),
     (0x20010db8, 32), (0x3fff0, 20), (0x0100 * 2 ^ 48, 64)]"

lemma div_octets:
  fixes a b c d :: u8
  defines "v \<equiv> ipv4_value (Ipv4 a b c d)"
  shows "v div 2 ^ 24 = unat a" "v div 2 ^ 16 = unat a * 256 + unat b"
    "v div 2 ^ 8 = (unat a * 256 + unat b) * 256 + unat c"
proof -
  have step: "(x * 256 + unat o8) div 256 = x" for x :: nat and o8 :: u8
    using unat_u8_less [of o8] by (simp del: unat_u8_less)
  have "v div 256 = (unat a * 256 + unat b) * 256 + unat c"
    unfolding v_def ipv4_value.simps by (rule step)
  moreover from this have "v div 256 div 256 = unat a * 256 + unat b" by (simp only: step)
  moreover from this have "v div 256 div 256 div 256 = unat a" by (simp only: step)
  moreover have "v div 2 ^ 24 = v div 256 div 256 div 256" "v div 2 ^ 16 = v div 256 div 256" "v div 2 ^ 8 = v div 256"
    by (simp_all add: div_mult2_eq [symmetric])
  ultimately show "v div 2 ^ 24 = unat a" "v div 2 ^ 16 = unat a * 256 + unat b"
    "v div 2 ^ 8 = (unat a * 256 + unat b) * 256 + unat c"
    by (simp_all only:)
qed

text \<open>Masking the low bits away.\<close>

lemma unat_and_not_mask: "unat (w AND NOT (mask k)) = unat w div 2 ^ k * 2 ^ k" for w :: "'a :: len word"
proof -
  have "w AND NOT (mask k) = push_bit k (drop_bit k w)"
    by (rule bit_word_eqI) (auto simp: bit_and_iff bit_not_iff bit_mask_iff bit_push_bit_iff bit_drop_bit_eq)
  moreover have "unat (push_bit k (drop_bit k w)) = unat w div 2 ^ k * 2 ^ k"
  proof -
    have "unat w div 2 ^ k * 2 ^ k < 2 ^ LENGTH('a)"
      using le_less_trans [OF div_times_less_eq_dividend unsigned_less [of w]] .
    then show ?thesis
      unfolding unsigned_push_bit_eq unsigned_drop_bit_eq
      by (simp add: push_bit_eq_mult drop_bit_eq_div take_bit_nat_eq_self)
  qed
  ultimately show ?thesis by simp
qed

text \<open>A mask test is a range of values.\<close>

lemma mask_test:
  fixes w :: "'a :: len word"
  shows "w AND NOT (mask k) = c \<longleftrightarrow> unat w div 2 ^ k * 2 ^ k = unat c"
  by (metis unat_and_not_mask unsigned_word_eqI)

lemma u8_masks:
  "b AND 0xc0 = 0x40 \<longleftrightarrow> unat b div 64 = 1" "b AND 0xfe = 18 \<longleftrightarrow> unat b div 2 = 9" for b :: u8
proof -
  have m: "NOT (mask 6) = (0xc0 :: u8)" "NOT (mask 1) = (0xfe :: u8)" by (simp_all add: mask_eq_exp_minus_1)
  show "b AND 0xc0 = 0x40 \<longleftrightarrow> unat b div 64 = 1"
    unfolding m(1) [symmetric] mask_test by auto
  show "b AND 0xfe = 18 \<longleftrightarrow> unat b div 2 = 9"
    unfolding m(2) [symmetric] mask_test by auto
qed

lemma u8_eq_iff: "b = numeral n \<longleftrightarrow> unat b = unat (numeral n :: u8)" "b = 0 \<longleftrightarrow> unat b = 0" for b :: u8
  by (metis unsigned_word_eqI, metis unsigned_word_eqI unsigned_0)

text \<open>Comparing numbers digit by digit.\<close>

lemma digit_eq: "q < m \<Longrightarrow> q' < m \<Longrightarrow> x * m + q = x' * m + q' \<longleftrightarrow> x = x' \<and> q = q'" for q m x :: nat
  by (metis add.commute div_mult_self1 div_less mod_less mod_mult_self1 add.right_neutral gr_implies_not0)

lemma div_digit: "(x * (m * k) + y) div k = x * m + y div k" if "0 < k" for x y m k :: nat
  using that by (metis add.commute div_mult_self1 mult.assoc mult.commute neq0_conv)

lemma octet_arith:
  fixes x y z :: nat
  assumes y: "y < 256" and z: "z < 256"
  shows "(x * 256 + y) div 64 = 401 \<longleftrightarrow> x = 100 \<and> y div 64 = 1"
    "(x * 256 + y) div 16 = 2753 \<longleftrightarrow> x = 172 \<and> y div 16 = 1"
    "(x * 256 + y) div 2 = 25353 \<longleftrightarrow> x = 198 \<and> y div 2 = 9"
    "x * 256 + y = 43518 \<longleftrightarrow> x = 169 \<and> y = 254" "x * 256 + y = 49320 \<longleftrightarrow> x = 192 \<and> y = 168"
    "(x * 256 + y) * 256 + z = 12582912 \<longleftrightarrow> x = 192 \<and> y = 0 \<and> z = 0"
    "(x * 256 + y) * 256 + z = 12582914 \<longleftrightarrow> x = 192 \<and> y = 0 \<and> z = 2"
    "(x * 256 + y) * 256 + z = 12989284 \<longleftrightarrow> x = 198 \<and> y = 51 \<and> z = 100"
    "(x * 256 + y) * 256 + z = 13303921 \<longleftrightarrow> x = 203 \<and> y = 0 \<and> z = 113"
proof -
  have d2: "x * 256 + y = p * 256 + q \<longleftrightarrow> x = p \<and> y = q" if "q < 256" for p q using y that by (rule digit_eq)
  have d3: "(x * 256 + y) * 256 + z = (p * 256 + q) * 256 + r \<longleftrightarrow> x = p \<and> y = q \<and> z = r"
    if "q < 256" "r < 256" for p q r
    using digit_eq [OF z that(2), of "x * 256 + y" "p * 256 + q"] d2 [OF that(1)] by simp
  have "y div 64 < 4" "y div 16 < 16" "y div 2 < 128" using y by (simp_all add: less_mult_imp_div_less)
  then have "x * 4 + y div 64 = 100 * 4 + 1 \<longleftrightarrow> x = 100 \<and> y div 64 = 1"
    "x * 16 + y div 16 = 172 * 16 + 1 \<longleftrightarrow> x = 172 \<and> y div 16 = 1"
    "x * 128 + y div 2 = 198 * 128 + 9 \<longleftrightarrow> x = 198 \<and> y div 2 = 9"
    by (intro digit_eq; simp)+
  then show "(x * 256 + y) div 64 = 401 \<longleftrightarrow> x = 100 \<and> y div 64 = 1"
    "(x * 256 + y) div 16 = 2753 \<longleftrightarrow> x = 172 \<and> y div 16 = 1"
    "(x * 256 + y) div 2 = 25353 \<longleftrightarrow> x = 198 \<and> y div 2 = 9"
    using div_digit [of 64 x 4 y] div_digit [of 16 x 16 y] div_digit [of 2 x 128 y] by simp_all
  show "x * 256 + y = 43518 \<longleftrightarrow> x = 169 \<and> y = 254" "x * 256 + y = 49320 \<longleftrightarrow> x = 192 \<and> y = 168"
    using d2 [of 254 169] d2 [of 168 192] by simp_all
  show "(x * 256 + y) * 256 + z = 12582912 \<longleftrightarrow> x = 192 \<and> y = 0 \<and> z = 0"
    "(x * 256 + y) * 256 + z = 12582914 \<longleftrightarrow> x = 192 \<and> y = 0 \<and> z = 2"
    "(x * 256 + y) * 256 + z = 12989284 \<longleftrightarrow> x = 198 \<and> y = 51 \<and> z = 100"
    "(x * 256 + y) * 256 + z = 13303921 \<longleftrightarrow> x = 203 \<and> y = 0 \<and> z = 113"
    using d3 [of 0 0 192] d3 [of 0 2 192] d3 [of 51 100 198] d3 [of 0 113 203] by simp_all
qed

lemma v4_block_iffs:
  fixes a b c d :: u8
  defines "v \<equiv> ipv4_value (Ipv4 a b c d)"
  shows "v div 2 ^ 28 = n \<longleftrightarrow> unat a div 16 = n" "v div 2 ^ 22 = n \<longleftrightarrow> (unat a * 256 + unat b) div 64 = n"
    "v div 2 ^ 20 = n \<longleftrightarrow> (unat a * 256 + unat b) div 16 = n"
    "v div 2 ^ 17 = n \<longleftrightarrow> (unat a * 256 + unat b) div 2 = n"
proof -
  have "v div 2 ^ 28 = v div 2 ^ 24 div 16" "v div 2 ^ 22 = v div 2 ^ 16 div 64"
    "v div 2 ^ 20 = v div 2 ^ 16 div 16" "v div 2 ^ 17 = v div 2 ^ 16 div 2"
    by (simp_all add: div_mult2_eq [symmetric])
  then show "v div 2 ^ 28 = n \<longleftrightarrow> unat a div 16 = n" "v div 2 ^ 22 = n \<longleftrightarrow> (unat a * 256 + unat b) div 64 = n"
    "v div 2 ^ 20 = n \<longleftrightarrow> (unat a * 256 + unat b) div 16 = n"
    "v div 2 ^ 17 = n \<longleftrightarrow> (unat a * 256 + unat b) div 2 = n"
    using div_octets [of a b c d] by (simp_all only: v_def)
qed

lemma is_disallowed_ipv4_blocks: "is_disallowed_ipv4 v4 \<longleftrightarrow> (\<exists>blk\<in>set ipv4_blocks. in_block 32 (ipv4_value v4) blk)"
proof (cases v4)
  case (Ipv4 a b c d)
  have bounds: "unat a < 256" "unat b < 256" "unat c < 256" by simp_all
  have "is_disallowed_ipv4 v4 \<longleftrightarrow> unat a = 127 \<or> unat a = 10 \<or> unat a = 172 \<and> 16 \<le> unat b \<and> unat b \<le> 31
      \<or> unat a = 192 \<and> unat b = 168 \<or> unat a = 169 \<and> unat b = 254
      \<or> unat a = 192 \<and> unat b = 0 \<and> unat c = 2 \<or> unat a = 198 \<and> unat b = 51 \<and> unat c = 100
      \<or> unat a = 203 \<and> unat b = 0 \<and> unat c = 113 \<or> 224 \<le> unat a \<or> unat a = 0
      \<or> unat a = 100 \<and> unat b div 64 = 1 \<or> unat a = 192 \<and> unat b = 0 \<and> unat c = 0
      \<or> unat a = 198 \<and> unat b div 2 = 9"
  proof -
    have merge: "(U \<longrightarrow> Z) \<Longrightarrow> (B \<longrightarrow> H) \<Longrightarrow> (M \<or> H \<longleftrightarrow> G) \<Longrightarrow>
        L \<or> P \<or> K \<or> U \<or> B \<or> D \<or> M \<or> Z \<or> C \<or> I \<or> N \<or> H \<longleftrightarrow> L \<or> P \<or> K \<or> D \<or> G \<or> Z \<or> C \<or> I \<or> N"
      for L P K U B D M Z C I N H G by blast
    have "is_disallowed_ipv4 v4 \<longleftrightarrow> v4_is_loopback v4 \<or> v4_is_private v4 \<or> v4_is_link_local v4 \<or> v4_is_documentation v4
        \<or> 224 \<le> unat a \<or> a = 0 \<or> (a = 100 \<and> b AND 0xc0 = 0x40) \<or> (a = 192 \<and> b = 0 \<and> c = 0) \<or> (a = 198 \<and> b AND 0xfe = 18)"
      unfolding Ipv4 is_disallowed_ipv4.simps
    proof (rule merge)
      show "v4_is_multicast (Ipv4 a b c d) \<or> 240 \<le> a \<longleftrightarrow> 224 \<le> unat a"
        by (simp add: word_le_nat_alt) linarith
    qed (simp_all add: v4_is_unspecified_def v4_is_broadcast_def)
    then show ?thesis
      unfolding Ipv4 u8_masks by (simp only: v4_is_loopback.simps v4_is_private.simps v4_is_link_local.simps
        v4_is_documentation.simps u8_eq_iff disj_assoc) (simp add: word_le_nat_alt)
  qed
  also have "\<dots> \<longleftrightarrow> (\<exists>blk\<in>set ipv4_blocks. in_block 32 (ipv4_value v4) blk)"
  proof -
    have top4: "224 \<le> unat a \<longleftrightarrow> unat a div 16 = 14 \<or> unat a div 16 = 15"
      using bounds(1) by linarith
    have twelve: "16 \<le> unat b \<and> unat b \<le> 31 \<longleftrightarrow> unat b div 16 = 1" by linarith
    have blocks: "(\<exists>blk\<in>set ipv4_blocks. in_block 32 v blk) \<longleftrightarrow>
        v div 2 ^ 24 = 127 \<or> v div 2 ^ 24 = 10 \<or> v div 2 ^ 20 = 2753 \<or> v div 2 ^ 16 = 49320 \<or> v div 2 ^ 16 = 43518
        \<or> v div 2 ^ 8 = 12582914 \<or> v div 2 ^ 8 = 12989284 \<or> v div 2 ^ 8 = 13303921
        \<or> v div 2 ^ 28 = 14 \<or> v div 2 ^ 28 = 15 \<or> v div 2 ^ 24 = 0 \<or> v div 2 ^ 22 = 401
        \<or> v div 2 ^ 8 = 12582912 \<or> v div 2 ^ 17 = 25353" for v
      by (simp add: ipv4_blocks_def in_block_def)
    show ?thesis
      unfolding blocks Ipv4 div_octets v4_block_iffs octet_arith [OF bounds(2,3)] top4 twelve
      by (simp only: disj_assoc)
  qed
  finally show ?thesis .
qed

subsection \<open>IPv6 blocks\<close>

lemma seg_cat_div: "seg_cat v s div 65536 = v" and seg_cat_mod: "seg_cat v s mod 65536 = unat s"
proof -
  have "unat s < 65536" using unsigned_less [of s] by simp
  then show "seg_cat v s div 65536 = v" "seg_cat v s mod 65536 = unat s" by (simp_all add: seg_cat_def)
qed

lemma seg_cat_eq: "seg_cat v s = n \<longleftrightarrow> v = n div 65536 \<and> unat s = n mod 65536"
  by (metis seg_cat_def seg_cat_div seg_cat_mod div_mult_mod_eq)

lemma u16_eq_iff: "s = numeral n \<longleftrightarrow> unat s = unat (numeral n :: u16)" "s = 0 \<longleftrightarrow> unat s = 0" "s = 1 \<longleftrightarrow> unat s = 1"
  for s :: u16
  by (metis unsigned_word_eqI, metis unsigned_word_eqI unsigned_0, metis unsigned_word_eqI unsigned_1)

lemma u16_masks:
  "s AND 0xff00 = 0xff00 \<longleftrightarrow> unat s div 256 = 0xff" "s AND 0xfe00 = 0xfc00 \<longleftrightarrow> unat s div 512 = 126"
  "s AND 0xffc0 = 0xfe80 \<longleftrightarrow> unat s div 64 = 1018" "s AND 0xffc0 = 0xfec0 \<longleftrightarrow> unat s div 64 = 1019"
  "s AND 0xf000 = 0 \<longleftrightarrow> unat s div 4096 = 0" for s :: u16
proof -
  have m: "NOT (mask 8) = (0xff00 :: u16)" "NOT (mask 9) = (0xfe00 :: u16)" "NOT (mask 6) = (0xffc0 :: u16)"
    "NOT (mask 12) = (0xf000 :: u16)" by (simp_all add: mask_eq_exp_minus_1)
  show "s AND 0xff00 = 0xff00 \<longleftrightarrow> unat s div 256 = 0xff"
    using mask_test [of s 8 "0xff00"] unfolding m by auto
  show "s AND 0xfe00 = 0xfc00 \<longleftrightarrow> unat s div 512 = 126"
    using mask_test [of s 9 "0xfc00"] unfolding m by auto
  show "s AND 0xffc0 = 0xfe80 \<longleftrightarrow> unat s div 64 = 1018" "s AND 0xffc0 = 0xfec0 \<longleftrightarrow> unat s div 64 = 1019"
    using mask_test [of s 6 "0xfe80"] mask_test [of s 6 "0xfec0"] unfolding m by auto
  show "s AND 0xf000 = 0 \<longleftrightarrow> unat s div 4096 = 0"
    using mask_test [of s 12 0] unfolding m by auto
qed

lemma v6_divs:
  fixes a b c d e f g h :: u16
  defines "v \<equiv> ipv6_value (Ipv6 a b c d e f g h)"
  shows "v div 2 ^ 112 = unat a" "v div 2 ^ 96 = seg_cat (unat a) b" "v div 2 ^ 64 = foldl seg_cat (unat a) [b, c, d]"
    "v div 2 ^ 32 = foldl seg_cat (unat a) [b, c, d, e, f]" "v mod 2 ^ 32 = seg_cat (unat g) h"
proof -
  have [simp]: "seg_cat 0 s = unat s" for s by (simp add: seg_cat_def)
  have p: "x div 2 ^ 32 = x div 65536 div 65536" "x div 2 ^ 64 = x div 2 ^ 32 div 65536 div 65536"
    "x div 2 ^ 96 = x div 2 ^ 64 div 65536 div 65536" "x div 2 ^ 112 = x div 2 ^ 96 div 65536" for x :: nat
    by (simp_all add: div_mult2_eq [symmetric])
  show d32: "v div 2 ^ 32 = foldl seg_cat (unat a) [b, c, d, e, f]" unfolding v_def p(1) by (simp add: seg_cat_div)
  show d64: "v div 2 ^ 64 = foldl seg_cat (unat a) [b, c, d]" unfolding p(2) d32 by (simp add: seg_cat_div)
  show d96: "v div 2 ^ 96 = seg_cat (unat a) b" unfolding p(3) d64 by (simp add: seg_cat_div)
  show "v div 2 ^ 112 = unat a" unfolding p(4) d96 by (simp add: seg_cat_div)
  have "v = v div 2 ^ 32 * 2 ^ 32 + seg_cat (unat g) h" unfolding d32 by (simp add: v_def seg_cat_def)
  moreover have "seg_cat (unat g) h < 2 ^ 32"
  proof -
    have "unat g < 65536" "unat h < 65536" using unsigned_less [of g] unsigned_less [of h] by simp_all
    then show ?thesis by (simp add: seg_cat_def)
  qed
  ultimately show "v mod 2 ^ 32 = seg_cat (unat g) h" by (metis mod_less mod_mult_self3)
qed

lemma seg_bytes: "unat (seg_hi s) * 256 + unat (seg_lo s) = unat s"
proof -
  have "unat s < 65536" using unsigned_less [of s] by simp
  then have "unat (seg_hi s) = unat s div 256" "unat (seg_lo s) = unat s mod 256"
    unfolding seg_hi_def seg_lo_def unsigned_ucast_eq unsigned_drop_bit_eq
    by (simp_all add: drop_bit_eq_div take_bit_eq_mod less_mult_imp_div_less)
  then show ?thesis by simp
qed

lemma mapped_value: "ipv4_value (Ipv4 (seg_hi g) (seg_lo g) (seg_hi h) (seg_lo h)) = seg_cat (unat g) h"
  using seg_bytes [of g] seg_bytes [of h] by (simp add: seg_cat_def)

lemma to_ipv4_mapped_iff:
  "to_ipv4_mapped v6 = Some v4 \<Longrightarrow> ipv6_value v6 div 2 ^ 32 = 0xffff \<and> ipv4_value v4 = ipv6_value v6 mod 2 ^ 32"
  "to_ipv4_mapped v6 = None \<longleftrightarrow> ipv6_value v6 div 2 ^ 32 \<noteq> 0xffff"
proof -
  obtain a b c d e f g h where v6: "v6 = Ipv6 a b c d e f g h" by (cases v6)
  have "ipv6_value v6 div 2 ^ 32 = 0xffff \<longleftrightarrow> a = 0 \<and> b = 0 \<and> c = 0 \<and> d = 0 \<and> e = 0 \<and> f = 0xffff"
    unfolding v6 v6_divs by (simp add: seg_cat_eq u16_eq_iff conj_ac)
  then show "to_ipv4_mapped v6 = Some v4 \<Longrightarrow> ipv6_value v6 div 2 ^ 32 = 0xffff \<and> ipv4_value v4 = ipv6_value v6 mod 2 ^ 32"
    "to_ipv4_mapped v6 = None \<longleftrightarrow> ipv6_value v6 div 2 ^ 32 \<noteq> 0xffff"
    unfolding v6 v6_divs(5) to_ipv4_mapped.simps using mapped_value [of g h] by (auto simp del: ipv4_value.simps ipv6_value.simps split: if_splits)
qed

text \<open>The unmapped tests of the classifier, in the order of the code.\<close>

lemma v6_tests_blocks:
  fixes a b c d e f g h :: u16
  defines "v6 \<equiv> Ipv6 a b c d e f g h"
  shows "v6_is_loopback v6 \<or> v6_is_unspecified v6 \<or> v6_is_multicast v6 \<or> a AND 0xfe00 = 0xfc00
      \<or> a AND 0xffc0 = 0xfe80 \<or> a AND 0xffc0 = 0xfec0 \<or> (a = 0x2001 \<and> b = 0x0db8)
      \<or> (a = 0x3fff \<and> b AND 0xf000 = 0) \<or> (a = 0x0100 \<and> [b, c, d] = [0, 0, 0])
    \<longleftrightarrow> (\<exists>blk\<in>set ipv6_blocks. in_block 128 (ipv6_value v6) blk)"
proof -
  let ?v = "ipv6_value v6"
  have p: "x div 2 ^ 120 = x div 2 ^ 112 div 256" "x div 2 ^ 121 = x div 2 ^ 112 div 512"
    "x div 2 ^ 118 = x div 2 ^ 112 div 64" "x div 2 ^ 108 = x div 2 ^ 96 div 4096" for x :: nat
    by (simp_all add: div_mult2_eq [symmetric])
  have blocks: "(\<exists>blk\<in>set ipv6_blocks. in_block 128 x blk) \<longleftrightarrow>
      x = 1 \<or> x = 0 \<or> x div 2 ^ 112 div 256 = 0xff \<or> x div 2 ^ 112 div 512 = 126
      \<or> x div 2 ^ 112 div 64 = 1018 \<or> x div 2 ^ 112 div 64 = 1019
      \<or> x div 2 ^ 96 = 0x20010db8 \<or> x div 2 ^ 96 div 4096 = 0x3fff0 \<or> x div 2 ^ 64 = 0x0100 * 2 ^ 48" for x
    unfolding ipv6_blocks_def in_block_def p [symmetric] by simp
  have z: "seg_cat 0 s = unat s" for s by (simp add: seg_cat_def)
  have s1: "v6_is_loopback v6 \<longleftrightarrow> ?v = 1" "v6_is_unspecified v6 \<longleftrightarrow> ?v = 0"
    unfolding v6_is_loopback_def v6_is_unspecified_def v6_def
    by (simp_all add: seg_cat_eq z u16_eq_iff conj_ac)
  have s2: "seg_cat (unat a) b = 0x20010db8 \<longleftrightarrow> a = 0x2001 \<and> b = 0x0db8"
    "foldl seg_cat (unat a) [b, c, d] = 0x0100 * 2 ^ 48 \<longleftrightarrow> a = 0x0100 \<and> [b, c, d] = [0, 0, 0]"
    by (simp_all add: seg_cat_eq u16_eq_iff conj_ac)
  have s3: "seg_cat (unat a) b div 4096 = 0x3fff0 \<longleftrightarrow> a = 0x3fff \<and> b AND 0xf000 = 0"
  proof -
    have "unat b < 65536" using unsigned_less [of b] by simp
    then have "unat b div 4096 < 16" by (simp add: less_mult_imp_div_less)
    then have "unat a * 16 + unat b div 4096 = 0x3fff * 16 + 0 \<longleftrightarrow> unat a = 0x3fff \<and> unat b div 4096 = 0"
      by (intro digit_eq) simp_all
    then show ?thesis
      unfolding u16_masks using div_digit [of 4096 "unat a" 16 "unat b"] by (simp add: seg_cat_def u16_eq_iff)
  qed
  have s4: "v6_is_multicast v6 \<longleftrightarrow> unat a div 256 = 0xff" by (simp add: v6_def u16_masks)
  show ?thesis
    unfolding blocks s1 s4 unfolding v6_def v6_divs s2 s3 u16_masks(2-4) by (rule refl)
qed

text \<open>The addresses in the listed blocks; an IPv4-mapped address counts as the address it embeds.\<close>

definition in_blocks :: "ip_addr \<Rightarrow> bool" where
  "in_blocks ip \<longleftrightarrow>
     (case ip of
        V4 v4 \<Rightarrow> \<exists>blk\<in>set ipv4_blocks. in_block 32 (ipv4_value v4) blk
      | V6 v6 \<Rightarrow>
          if ipv6_value v6 div 2 ^ 32 = 0xffff
          then \<exists>blk\<in>set ipv4_blocks. in_block 32 (ipv6_value v6 mod 2 ^ 32) blk
          else \<exists>blk\<in>set ipv6_blocks. in_block 128 (ipv6_value v6) blk)"

lemma is_disallowed_ip_blocks: "is_disallowed_ip ip \<longleftrightarrow> in_blocks ip"
proof (cases ip)
  case (V4 v4)
  then show ?thesis by (simp add: in_blocks_def is_disallowed_ipv4_blocks)
next
  case (V6 v6)
  show ?thesis
  proof (cases "to_ipv4_mapped v6")
    case None
    obtain a b c d e f g h where v6: "v6 = Ipv6 a b c d e f g h" by (cases v6)
    from None have "ipv6_value v6 div 2 ^ 32 \<noteq> 0xffff" using to_ipv4_mapped_iff(2) by blast
    moreover from None have "is_disallowed_ip ip \<longleftrightarrow> (\<exists>blk\<in>set ipv6_blocks. in_block 128 (ipv6_value v6) blk)"
      unfolding V6 v6 is_disallowed_ip.simps v6_tests_blocks [symmetric] by (simp only: option.case)
    ultimately show ?thesis unfolding in_blocks_def V6 ip_addr.case by simp
  next
    case (Some v4)
    then have "is_disallowed_ip ip = is_disallowed_ipv4 v4"
      unfolding V6 by (cases v6) (simp only: is_disallowed_ip.simps option.case)
    with to_ipv4_mapped_iff(1) [OF Some] show ?thesis
      unfolding in_blocks_def V6 ip_addr.case is_disallowed_ipv4_blocks by simp
  qed
qed

text \<open>C32: The address classifier refuses exactly the addresses of the listed blocks: for IPv4 the
  fourteen special-purpose prefixes, for an IPv4-mapped IPv6 address the same prefixes of the embedded
  address, for any other IPv6 address the nine prefixes of its table.\<close>

theorem is_disallowed_ip_iff:
  "is_disallowed_ip ip \<longleftrightarrow>
     (case ip of
        V4 v4 \<Rightarrow> \<exists>blk\<in>set ipv4_blocks. in_block 32 (ipv4_value v4) blk
      | V6 v6 \<Rightarrow>
          if ipv6_value v6 div 2 ^ 32 = 0xffff
          then \<exists>blk\<in>set ipv4_blocks. in_block 32 (ipv6_value v6 mod 2 ^ 32) blk
          else \<exists>blk\<in>set ipv6_blocks. in_block 128 (ipv6_value v6) blk)"
  by (simp only: is_disallowed_ip_blocks in_blocks_def)

subsection \<open>What passes the guard\<close>

lemma validate_resolved_addresses_iff:
  "validate_resolved_addresses host addrs = Inr r \<longleftrightarrow>
     r = addrs \<and> addrs \<noteq> [] \<and> (\<forall>ip\<in>set addrs. \<not> is_disallowed_ip ip)"
proof -
  have "try_for (\<lambda>addr. if is_disallowed_ip addr then Inl (UrlNonPublic host (Some addr)) else Inr ()) addrs = Inr ()
      \<longleftrightarrow> (\<forall>ip\<in>set addrs. \<not> is_disallowed_ip ip)"
    by (auto simp: result_simps)
  then show ?thesis by (auto simp: validate_resolved_addresses_def and_then_Inr_iff)
qed

text \<open>Not every block that is not globally reachable is in the table: the local-use IPv4/IPv6
  translation prefix \<open>64:ff9b:1::/48\<close> and the 6to4 form of a loopback address pass the guard.\<close>

theorem translated_addresses_allowed:
  "\<not> is_disallowed_ip (V6 (Ipv6 0x64 0xff9b 1 a b c d e)) \<and> \<not> is_disallowed_ip (V6 (Ipv6 0x2002 0x7f00 1 a b c d e))"
  by (simp add: v6_is_loopback_def v6_is_unspecified_def)

end
