(* ===== verification/Net_Facts.thy ===== *)
theory Net_Facts
  imports Net
begin

section \<open>What the URL guard lets through\<close>

text \<open>
  The forms a host has in a parsed URL, as texts: an IPv4 address, an IPv6 address in brackets, or a name. They are
  defined without the parser of \<open>Net\<close>; the lemmas show that the parser reads every such text as the
  address it denotes and nothing else as an IPv4 address, and the property states which URLs pass.
\<close>

subsection \<open>Digits\<close>

text \<open>Hexadecimal digits and the number a text of them denotes.\<close>

definition hex_digit :: "u8 \<Rightarrow> bool" where
  "hex_digit b \<longleftrightarrow> 48 \<le> unat b \<and> unat b \<le> 57 \<or> 97 \<le> unat b \<and> unat b \<le> 102 \<or> 65 \<le> unat b \<and> unat b \<le> 70"

definition hex_value :: "u8 \<Rightarrow> nat" where
  "hex_value b = (if unat b \<le> 57 then unat b - 48 else if unat b \<le> 70 then unat b - 55 else unat b - 87)"

definition hex_number :: "rstr \<Rightarrow> nat" where
  "hex_number t = foldl (\<lambda>v b. v * 16 + hex_value b) 0 t"

lemma to_digit_16: "to_digit 16 b = (if hex_digit b then Some (hex_value b) else None)"
  by (auto simp: to_digit_def hex_digit_def hex_value_def Let_def)

lemma to_digit_10: "to_digit 10 b = (if 48 \<le> unat b \<and> unat b \<le> 57 then Some (unat b - 48) else None)"
  by (auto simp: to_digit_def Let_def)

lemma hex_value_less: "hex_digit b \<Longrightarrow> hex_value b < 16"
  by (auto simp: hex_digit_def hex_value_def)

text \<open>The reader of digits on a text of digits that ends where the input ends or before another character.\<close>

definition stops :: "nat \<Rightarrow> rstr \<Rightarrow> bool" where
  "stops radix r \<longleftrightarrow> r = [] \<or> to_digit radix (hd r) = None"

lemma digits_grow: "0 < radix \<Longrightarrow> v \<le> foldl (\<lambda>v d. v * radix + d) (v :: nat) ds"
proof (induction ds arbitrary: v)
  case (Cons d ds)
  have "v \<le> v * radix + d" using Cons.prems by (simp add: trans_le_add1)
  also have "\<dots> \<le> foldl (\<lambda>v d. v * radix + d) (v * radix + d) ds" using Cons by blast
  finally show ?case by simp
qed simp

lemma read_digits_text:
  assumes "map (to_digit radix) t = map Some ds" "stops radix r" "0 < radix"
    and "foldl (\<lambda>v d. v * radix + d) acc ds < bound" "count + length t \<le> max_digits"
  shows "read_digits radix bound max_digits acc count (t @ r)
    = Some (foldl (\<lambda>v d. v * radix + d) acc ds, count + length t, r)"
  using assms
proof (induction t arbitrary: acc count ds)
  case Nil
  then show ?case by (cases r) (auto simp: stops_def)
next
  case (Cons b t)
  then obtain d ds' where ds: "ds = d # ds'" "to_digit radix b = Some d" "map (to_digit radix) t = map Some ds'" by auto
  with Cons.prems digits_grow [OF Cons.prems(3), of "acc * radix + d" ds'] have "acc * radix + d < bound" by simp
  with Cons.prems ds Cons.IH [of ds' "acc * radix + d" "count + 1"] show ?case by auto
qed

lemma read_digits_Some:
  "read_digits radix bound max_digits acc count s = Some (v, n, r) \<Longrightarrow> acc < bound \<Longrightarrow>
     \<exists>t ds. s = t @ r \<and> map (to_digit radix) t = map Some ds \<and> n = count + length t \<and> v < bound
       \<and> v = foldl (\<lambda>v d. v * radix + d) acc ds \<and> (count \<le> max_digits \<longrightarrow> n \<le> max_digits)"
proof (induction radix bound max_digits acc count s rule: read_digits.induct)
  case (2 radix bound max_digits acc count b rest)
  show ?case
  proof (cases "to_digit radix b")
    case None
    with 2 show ?thesis by auto
  next
    case (Some d)
    with "2.prems" have lim: "acc * radix + d < bound" "count + 1 \<le> max_digits"
      and rec: "read_digits radix bound max_digits (acc * radix + d) (count + 1) rest = Some (v, n, r)"
      by (auto split: if_splits)
    from "2.IH" [OF Some _ _ rec lim(1)] lim obtain t ds where
      "rest = t @ r" "map (to_digit radix) t = map Some ds" "n = count + 1 + length t" "v < bound"
      "v = foldl (\<lambda>v d. v * radix + d) (acc * radix + d) ds" "n \<le> max_digits" by auto
    with Some show ?thesis by (intro exI [of _ "b # t"] exI [of _ "d # ds"]) simp
  qed
qed auto

lemma read_number_rest: "read_number radix bound m z s = Some (v, r) \<Longrightarrow> 0 < bound \<Longrightarrow> set r \<subseteq> set s"
  by (auto simp: read_number_def split: option.splits if_splits dest!: read_digits_Some)

subsection \<open>IPv4 texts\<close>

definition octet_text :: "u8 \<Rightarrow> rstr" where
  "octet_text a =
     (let n = unat a;
          digit = (\<lambda>k. of_nat (48 + k)) in
      if n < 10 then [digit n]
      else if n < 100 then [digit (n div 10), digit (n mod 10)]
      else [digit (n div 100), digit (n div 10 mod 10), digit (n mod 10)])"

fun ipv4_text :: "ipv4 \<Rightarrow> rstr" where
  "ipv4_text (Ipv4 a b c d) = octet_text a @ [0x2E] @ octet_text b @ [0x2E] @ octet_text c @ [0x2E] @ octet_text d"

lemma u8_of_nat: "k < 256 \<Longrightarrow> unat (of_nat k :: u8) = k"
  by (simp add: unat_of_nat)

lemma last_digit: "f < 10 \<Longrightarrow> (x * 10 + f) div 10 = x" "f < 10 \<Longrightarrow> (x * 10 + f) mod 10 = f" for x f :: nat
  by simp_all

lemma digit_of_nat: "k < 10 \<Longrightarrow> to_digit 10 (of_nat (48 + k)) = Some k"
  by (simp only: to_digit_10 u8_of_nat) simp

lemma octet_text_digits:
  "\<exists>ds. map (to_digit 10) (octet_text a) = map Some ds \<and> foldl (\<lambda>v d. v * 10 + d) 0 ds = unat a
     \<and> length (octet_text a) \<le> 3 \<and> octet_text a \<noteq> [] \<and> (hd (octet_text a) = 0x30 \<longrightarrow> length (octet_text a) = 1)"
proof -
  have nz: "of_nat (48 + k) \<noteq> (0x30 :: u8)" if "0 < k" "k < 10" for k
  proof
    assume "of_nat (48 + k) = (0x30 :: u8)"
    then have "unat (of_nat (48 + k) :: u8) = 48" by simp
    with that show False by (simp only: u8_of_nat)
  qed
  have n: "unat a < 256" using unsigned_less [of a] by simp
  consider "unat a < 10" | "10 \<le> unat a" "unat a < 100" | "100 \<le> unat a" by linarith
  then show ?thesis
  proof cases
    case 1
    then show ?thesis using digit_of_nat [of "unat a"]
      by (intro exI [of _ "[unat a]"]) (simp add: octet_text_def Let_def)
  next
    case 2
    then have "0 < unat a div 10" "unat a div 10 < 10" by simp_all
    with 2 show ?thesis
      using nz [of "unat a div 10"] digit_of_nat [of "unat a div 10"] digit_of_nat [of "unat a mod 10"]
      by (intro exI [of _ "[unat a div 10, unat a mod 10]"]) (simp add: octet_text_def Let_def)
  next
    case 3
    then have "0 < unat a div 100" by simp
    moreover have "unat a div 100 < 10" by (rule less_mult_imp_div_less) (use n in linarith)
    moreover have "unat a div 100 = unat a div 10 div 10" by (simp add: div_mult2_eq [symmetric])
    then have "(unat a div 100 * 10 + unat a div 10 mod 10) * 10 + unat a mod 10 = unat a"
      by (simp only: div_mult_mod_eq)
    ultimately show ?thesis
      using 3 nz [of "unat a div 100"] digit_of_nat [of "unat a div 100"] digit_of_nat [of "unat a div 10 mod 10"]
        digit_of_nat [of "unat a mod 10"]
      by (intro exI [of _ "[unat a div 100, unat a div 10 mod 10, unat a mod 10]"]) (simp add: octet_text_def Let_def)
  qed
qed

text \<open>A text of one to three digits without a leading zero is the text of the octet it denotes.\<close>

lemma digit_is: "to_digit 10 b = Some d \<longleftrightarrow> d < 10 \<and> b = of_nat (48 + d)"
proof
  assume "to_digit 10 b = Some d"
  then have d: "d < 10" "unat b = 48 + d" by (auto simp: to_digit_10 split: if_splits)
  then have "unat b = unat (of_nat (48 + d) :: u8)" by (simp only: u8_of_nat)
  then have "b = of_nat (48 + d)" by (rule unsigned_word_eqI)
  with d show "d < 10 \<and> b = of_nat (48 + d)" by simp
next
  assume "d < 10 \<and> b = of_nat (48 + d)"
  then show "to_digit 10 b = Some d" using digit_of_nat by blast
qed

lemma octet_text_unique:
  assumes ds: "map (to_digit 10) t = map Some ds" and "t \<noteq> []" "length t \<le> 3" "hd t = 0x30 \<longrightarrow> length t = 1"
    and v: "v = foldl (\<lambda>v d. v * 10 + d) 0 ds" "v < 256"
  shows "t = octet_text (of_nat v)"
proof -
  have un: "unat (of_nat v :: u8) = v" using v(2) by (rule u8_of_nat)
  from assms(2,3) consider x where "t = [x]" | x y where "t = [x, y]" | x y z where "t = [x, y, z]"
    by (cases t; cases "tl t"; cases "tl (tl t)") auto
  then show ?thesis
  proof cases
    case 1
    with ds obtain d where "ds = [d]" "to_digit 10 x = Some d" by auto
    with 1 v un show ?thesis unfolding digit_is by (simp add: octet_text_def Let_def)
  next
    case 2
    with ds obtain d e where d: "ds = [d, e]" "to_digit 10 x = Some d" "to_digit 10 y = Some e" by auto
    with 2 assms(4) have "d \<noteq> 0" unfolding digit_is by (cases d) auto
    with 2 d v un show ?thesis unfolding digit_is by (simp add: octet_text_def Let_def)
  next
    case 3
    with ds obtain d e f where d: "ds = [d, e, f]" "to_digit 10 x = Some d" "to_digit 10 y = Some e" "to_digit 10 z = Some f"
      by auto
    with 3 assms(4) have "d \<noteq> 0" unfolding digit_is by (cases d) auto
    moreover from d have "e < 10" "f < 10" unfolding digit_is by simp_all
    moreover from v(1) d(1) have "v = (d * 10 + e) * 10 + f" by simp
    ultimately have "v div 10 div 10 = d" "v div 10 mod 10 = e" "v mod 10 = f" by (simp_all only: last_digit)
    moreover have "v div 100 = v div 10 div 10" by (simp add: div_mult2_eq [symmetric])
    moreover from \<open>d \<noteq> 0\<close> \<open>v = (d * 10 + e) * 10 + f\<close> have "\<not> v < 100" by simp
    ultimately show ?thesis using 3 d un unfolding digit_is by (simp add: octet_text_def Let_def)
  qed
qed

lemma read_octet_text:
  assumes "stops 10 r"
  shows "read_number 10 256 3 False (octet_text a @ r) = Some (unat a, r)"
proof -
  from octet_text_digits [of a] obtain ds where d: "map (to_digit 10) (octet_text a) = map Some ds"
      "foldl (\<lambda>v d. v * 10 + d) 0 ds = unat a" "length (octet_text a) \<le> 3" "octet_text a \<noteq> []"
      "hd (octet_text a) = 0x30 \<longrightarrow> length (octet_text a) = 1" by blast
  have "unat a < 256" using unsigned_less [of a] by simp
  with d assms have "read_digits 10 256 3 0 0 (octet_text a @ r) = Some (unat a, length (octet_text a), r)"
    using read_digits_text [of 10 "octet_text a" ds r 0 256 0 3] by simp
  with d(3-5) show ?thesis by (simp add: read_number_def)
qed

lemma read_octet_canonical:
  assumes "read_number 10 256 3 False s = Some (v, r)"
  shows "v < 256 \<and> s = octet_text (of_nat v) @ r"
proof -
  from assms obtain n where rd: "read_digits 10 256 3 0 0 s = Some (v, n, r)" and n: "n \<noteq> 0" "hd s = 0x30 \<longrightarrow> n \<le> 1"
    by (auto simp: read_number_def split: option.splits if_splits)
  from read_digits_Some [OF rd] obtain t ds where t: "s = t @ r" "map (to_digit 10) t = map Some ds" "n = length t" "v < 256"
      "v = foldl (\<lambda>v d. v * 10 + d) 0 ds" "n \<le> 3" by auto
  with n octet_text_unique [of t ds v] show ?thesis by (cases t) auto
qed

lemma stops_sep: "stops 10 []" "stops 10 (0x2E # r)"
  by (simp_all add: stops_def to_digit_10)

lemma read_octet_index:
  "read_octet 0 s = map_option (\<lambda>(v, rest). (of_nat v, rest)) (read_number 10 256 3 False s)"
  "0 < i \<Longrightarrow> read_octet i [] = None"
  "0 < i \<Longrightarrow> read_octet i (b # s) = (if b = 0x2E then read_octet 0 s else None)"
  by (simp_all add: read_octet_def read_separator_def)

lemma read_octet_0_text: "stops 10 r \<Longrightarrow> read_octet 0 (octet_text a @ r) = Some (a, r)"
  by (simp add: read_octet_index read_octet_text)

lemma read_octet_0_Some: "read_octet 0 s = Some (a, r) \<Longrightarrow> s = octet_text a @ r"
  by (auto simp: read_octet_index dest: read_octet_canonical)

lemma read_octet_pos_Some: "read_octet i s = Some (a, r) \<Longrightarrow> 0 < i \<Longrightarrow> s = 0x2E # octet_text a @ r"
  by (cases s) (auto simp: read_octet_index(2,3) split: if_splits dest: read_octet_0_Some)

lemma read_ipv4_text: "read_ipv4_addr (ipv4_text v) = Some (v, [])"
  using read_octet_0_text [OF stops_sep(1)]
  by (cases v) (simp add: read_ipv4_addr_def read_octet_0_text stops_sep read_octet_index(3))

lemma read_ipv4_canonical: "read_ipv4_addr s = Some (v, r) \<Longrightarrow> s = ipv4_text v @ r"
  by (auto simp: read_ipv4_addr_def bind_eq_Some_conv dest!: read_octet_0_Some read_octet_pos_Some)

lemma parse_ipv4: "parse_ip_addr s = Some (V4 v) \<longleftrightarrow> s = ipv4_text v"
proof
  assume "parse_ip_addr s = Some (V4 v)"
  then have "read_ipv4_addr s = Some (v, [])"
    by (auto simp: parse_ip_addr_def read_ip_addr_def split: option.splits if_splits)
  from read_ipv4_canonical [OF this] show "s = ipv4_text v" by simp
qed (simp add: parse_ip_addr_def read_ip_addr_def read_ipv4_text)

text \<open>Without a period there is no IPv4 address.\<close>

lemma no_period_no_ipv4: "0x2E \<notin> set s \<Longrightarrow> read_ipv4_addr s = None"
proof (rule ccontr)
  assume s: "0x2E \<notin> set s" "read_ipv4_addr s \<noteq> None"
  then obtain v r where "read_ipv4_addr s = Some (v, r)" by auto
  from read_ipv4_canonical [OF this] s(1) show False by (cases v) auto
qed

subsection \<open>IPv6 texts\<close>

text \<open>Groups of one to four hexadecimal digits between colons; two colons stand for the groups of zeros that
  are missing. This covers the compressed form in which the \<open>url\<close> crate writes an address.\<close>

definition hex_group :: "rstr \<Rightarrow> bool" where
  "hex_group t \<longleftrightarrow> 1 \<le> length t \<and> length t \<le> 4 \<and> list_all hex_digit t"

definition colon_groups :: "rstr list \<Rightarrow> rstr" where
  "colon_groups ts = concat (map (\<lambda>t. 0x3A # t) ts)"

fun groups_text :: "rstr list \<Rightarrow> rstr" where
  "groups_text [] = []"
| "groups_text (t # ts) = t @ colon_groups ts"

definition group_words :: "rstr list \<Rightarrow> u16 list" where
  "group_words ts = map (\<lambda>t. of_nat (hex_number t)) ts"

definition ipv6_text :: "rstr \<Rightarrow> ipv6 \<Rightarrow> bool" where
  "ipv6_text s v \<longleftrightarrow>
     (\<exists>ts. length ts = 8 \<and> list_all hex_group ts \<and> s = groups_text ts \<and> v = ipv6_of_segments (group_words ts))
     \<or> (\<exists>hs ts. length hs + length ts \<le> 7 \<and> list_all hex_group (hs @ ts) \<and> s = groups_text hs @ [0x3A, 0x3A] @ groups_text ts
          \<and> v = ipv6_of_segments (group_words hs @ replicate (8 - length hs - length ts) 0 @ group_words ts))"

lemma hex_number_eq: "hex_number t = foldl (\<lambda>v d. v * 16 + d) 0 (map hex_value t)"
  by (simp add: hex_number_def foldl_map)

lemma hex_number_less: "list_all hex_digit t \<Longrightarrow> hex_number t < 16 ^ length t"
proof (induction t rule: rev_induct)
  case (snoc b t)
  then have "hex_number t + 1 \<le> 16 ^ length t" "hex_value b < 16" by (simp_all add: hex_value_less)
  then have "(hex_number t + 1) * 16 \<le> 16 ^ length t * 16" "hex_value b < 16" by (simp_all only: mult_le_mono1)
  then show ?case by (simp add: hex_number_def)
qed (simp add: hex_number_def)

lemma read_hex_group:
  assumes "hex_group t" "stops 16 r"
  shows "read_number 16 65536 4 True (t @ r) = Some (hex_number t, r)"
proof -
  from assms(1) have t: "1 \<le> length t" "length t \<le> 4" "list_all hex_digit t" by (simp_all add: hex_group_def)
  have "map (to_digit 16) t = map Some (map hex_value t)" using t(3) by (induction t) (simp_all add: to_digit_16)
  moreover have "hex_number t < 65536"
    using hex_number_less [OF t(3)] power_increasing [OF t(2), of "16 :: nat"] by simp
  ultimately have "read_digits 16 65536 4 0 0 (t @ r) = Some (hex_number t, length t, r)"
    using read_digits_text [of 16 t "map hex_value t" r 0 65536 0 4] assms(2) t(2) by (simp add: hex_number_eq)
  with t(1) show ?thesis by (auto simp: read_number_def)
qed

lemma no_number_at_colon: "read_number 16 65536 4 z [] = None" "read_number 16 65536 4 z (0x3A # r) = None"
  by (simp_all add: read_number_def to_digit_16 hex_digit_def)

lemma stops_colon: "stops 16 []" "stops 16 (0x3A # r)"
  by (simp_all add: stops_def to_digit_16 hex_digit_def)

lemma hex_group_chars: "hex_group t \<Longrightarrow> 0x2E \<notin> set t \<and> 0x3A \<notin> set t"
proof -
  have "\<not> hex_digit 0x2E" "\<not> hex_digit 0x3A" by (simp_all add: hex_digit_def)
  moreover assume "hex_group t"
  ultimately show ?thesis by (auto simp: hex_group_def list_all_iff)
qed

text \<open>The reader of groups on the rest of a text of groups, from index \<open>i\<close> on: it takes them all and stops at
  the end or at two colons.\<close>

definition groups_from :: "nat \<Rightarrow> rstr list \<Rightarrow> rstr" where
  "groups_from i ts = (if i = 0 then groups_text ts else colon_groups ts)"

lemma groups_no_period:
  "list_all hex_group ts \<Longrightarrow> 0x2E \<notin> set (groups_from i ts)"
  by (cases ts) (auto simp: groups_from_def colon_groups_def list_all_iff dest: hex_group_chars)

lemma groups_from_Cons: "groups_from i (t # ts) = (if i = 0 then [] else [0x3A]) @ t @ groups_from (Suc i) ts"
  by (simp add: groups_from_def colon_groups_def)

lemma read_groups_text:
  assumes "list_all hex_group ts" "length ts \<le> limit - i" "r = [] \<or> (\<exists>r'. r = [0x3A, 0x3A] @ r' \<and> 0x2E \<notin> set r')"
  shows "read_groups limit i (groups_from i ts @ r) = (group_words ts, False, r)"
  using assms(1,2)
proof (induction ts arbitrary: i)
  case Nil
  have np: "read_ipv4_addr r = None" "\<And>q. r = 0x3A # q \<Longrightarrow> read_ipv4_addr q = None"
    using assms(3) by (auto intro!: no_period_no_ipv4)
  have v4: "read_separator 0x3A i read_ipv4_addr r = None"
    using np assms(3) by (auto simp: read_separator_def)
  have num: "read_separator 0x3A i (read_number 16 65536 4 True) r = None"
    using assms(3) by (auto simp: read_separator_def no_number_at_colon)
  have "groups_from i [] @ r = r" by (simp add: groups_from_def colon_groups_def)
  then show ?case
    by (subst read_groups.simps) (simp add: v4 num group_words_def)
next
  case (Cons t ts)
  let ?rest = "groups_from (Suc i) ts @ r"
  have lim: "i < limit" using Cons.prems(2) by simp
  have np: "0x2E \<notin> set (t @ ?rest)"
    using groups_no_period [of "t # ts" i] groups_no_period [of ts "Suc i"] Cons.prems(1) assms(3)
    by (auto dest: hex_group_chars)
  have stop: "stops 16 ?rest"
    using assms(3) by (cases ts) (auto simp: groups_from_def colon_groups_def stops_colon)
  have v4: "read_separator 0x3A i read_ipv4_addr (groups_from i (t # ts) @ r) = None"
    using no_period_no_ipv4 [OF np] by (cases "i = 0") (simp_all add: read_separator_def groups_from_Cons)
  have num: "read_separator 0x3A i (read_number 16 65536 4 True) (groups_from i (t # ts) @ r) = Some (hex_number t, ?rest)"
    using read_hex_group [OF _ stop] Cons.prems(1) by (cases "i = 0") (simp_all add: read_separator_def groups_from_Cons)
  have "read_groups limit (i + 1) ?rest = (group_words ts, False, r)" using Cons by simp
  with lim show ?case
    by (subst read_groups.simps) (simp add: v4 num group_words_def)
qed

lemma parse_ipv6:
  assumes "ipv6_text s v"
  shows "parse_ip_addr s = Some (V6 v)"
proof -
  have "0x2E \<notin> set s \<and> read_ipv6_addr s = Some (v, [])"
    using assms unfolding ipv6_text_def
  proof (elim disjE exE conjE)
    fix ts assume t: "length ts = 8" "list_all hex_group ts" "s = groups_text ts" "v = ipv6_of_segments (group_words ts)"
    have "read_groups 8 0 s = (group_words ts, False, [])"
      using read_groups_text [of ts 8 0 "[]"] t by (simp add: groups_from_def)
    with t groups_no_period [of ts 0] show ?thesis by (simp add: read_ipv6_addr_def groups_from_def group_words_def)
  next
    fix hs ts
    assume t: "length hs + length ts \<le> 7" "list_all hex_group (hs @ ts)" "s = groups_text hs @ [0x3A, 0x3A] @ groups_text ts"
      "v = ipv6_of_segments (group_words hs @ replicate (8 - length hs - length ts) 0 @ group_words ts)"
    have np: "0x2E \<notin> set (groups_text hs)" "0x2E \<notin> set (groups_text ts)"
      using groups_no_period [of hs 0] groups_no_period [of ts 0] t(2) by (simp_all add: groups_from_def)
    have "read_groups 8 0 s = (group_words hs, False, [0x3A, 0x3A] @ groups_text ts)"
      using read_groups_text [of hs 8 0 "[0x3A, 0x3A] @ groups_text ts"] t np by (simp add: groups_from_def)
    moreover have "read_groups (8 - (length (group_words hs) + 1)) 0 (groups_text ts) = (group_words ts, False, [])"
      using read_groups_text [of ts "8 - (length (group_words hs) + 1)" 0 "[]"] t by (simp add: groups_from_def group_words_def)
    moreover have "length (group_words hs) = length hs" "length (group_words ts) = length ts" by (simp_all add: group_words_def)
    ultimately show ?thesis using t np by (simp add: read_ipv6_addr_def)
  qed
  then show ?thesis by (simp add: parse_ip_addr_def read_ip_addr_def no_period_no_ipv4)
qed

text \<open>Without a colon there is no IPv6 address.\<close>

lemma no_colon_no_ipv6:
  assumes "0x3A \<notin> set s"
  shows "read_ipv6_addr s = None"
proof -
  have stop: "read_groups 8 1 r = ([], False, r)" if "0x3A \<notin> set r" for r
    using that by (cases r; subst read_groups.simps) (auto simp: read_separator_def)
  obtain gs b r where g: "read_groups 8 0 s = (gs, b, r)" by (cases "read_groups 8 0 s")
  have "length gs \<le> 2 \<and> set r \<subseteq> set s"
  proof (cases "read_ipv4_addr s")
    case (Some x)
    then obtain v q where v: "read_ipv4_addr s = Some (v, q)" by (cases x) auto
    from read_ipv4_canonical [OF v] g v show ?thesis
      by (subst (asm) read_groups.simps) (cases v; auto simp: read_separator_def)
  next
    case None
    show ?thesis
    proof (cases "read_number 16 65536 4 True s")
      case (Some x)
      then obtain n q where n: "read_number 16 65536 4 True s = Some (n, q)" by (cases x) auto
      then have "set q \<subseteq> set s" by (rule read_number_rest) simp
      moreover from this assms have "read_groups 8 1 q = ([], False, q)" by (intro stop) auto
      ultimately show ?thesis using g None n by (subst (asm) read_groups.simps) (auto simp: read_separator_def)
    next
      case none: None
      with None g show ?thesis by (subst (asm) read_groups.simps) (auto simp: read_separator_def)
    qed
  qed
  with assms have "length gs \<le> 2" "strip_prefix_char 0x3A r = None" by (auto simp: strip_prefix_char_None_iff)
  with g show ?thesis by (simp add: read_ipv6_addr_def)
qed

subsection \<open>The guard\<close>

text \<open>A host that is a name: not an address in either form.\<close>

definition host_name :: "rstr \<Rightarrow> bool" where
  "host_name h \<longleftrightarrow> (\<forall>v. h \<noteq> ipv4_text v) \<and> 0x3A \<notin> set h \<and> (\<forall>t. h \<noteq> 0x5B # t)"

text \<open>The addresses a host stands for when the guard looks at it: the one it denotes, or those its name
  resolves to with the port of the URL. \<open>Url::port_or_known_default\<close> gives that port; without one it is 0.\<close>

definition host_addresses :: "resolver \<Rightarrow> url \<Rightarrow> rstr \<Rightarrow> ip_addr list \<Rightarrow> bool" where
  "host_addresses R parsed h addrs \<longleftrightarrow>
     (\<exists>v. h = ipv4_text v \<and> addrs = [V4 v])
     \<or> (\<exists>t v. h = [0x5B] @ t @ [0x5D] \<and> ipv6_text t v \<and> addrs = [V6 v])
     \<or> host_name h \<and> (\<exists>port. (url_port_or_known_default parsed = Some port \<or> url_port_or_known_default parsed = None \<and> port = 0)
         \<and> to_socket_addrs R h port = Some addrs)"

lemma ipv4_text_hd: "hd (ipv4_text v) \<noteq> 0x5B" "ipv4_text v \<noteq> []"
proof -
  obtain a b c d where v: "v = Ipv4 a b c d" by (cases v)
  from octet_text_digits [of a] obtain ds where "map (to_digit 10) (octet_text a) = map Some ds" "octet_text a \<noteq> []" by blast
  then have "to_digit 10 (hd (octet_text a)) \<noteq> None" "octet_text a \<noteq> []" by (cases "octet_text a"; cases ds; simp)+
  moreover have "to_digit 10 (0x5B :: u8) = None" by (simp add: to_digit_10)
  ultimately have "hd (octet_text a) \<noteq> 0x5B" "octet_text a \<noteq> []" by metis+
  then show "hd (ipv4_text v) \<noteq> 0x5B" "ipv4_text v \<noteq> []" by (simp_all add: v)
qed

text \<open>A text denotes one address.\<close>

lemma ipv4_text_inject: "ipv4_text v = ipv4_text w \<Longrightarrow> v = w"
  by (metis parse_ipv4 ip_addr.inject(1) option.inject)

lemma ipv6_text_unique: "ipv6_text t v \<Longrightarrow> ipv6_text t w \<Longrightarrow> v = w"
  using parse_ipv6 [of t v] parse_ipv6 [of t w] by simp

lemma brackets_not_ipv4: "0x5B # t \<noteq> ipv4_text v" "ipv4_text v \<noteq> 0x5B # t"
  using ipv4_text_hd [of v] by (metis list.sel(1))+

text \<open>The checks of the guard on each form of host.\<close>

lemma unbracket_other: "(\<And>t. h \<noteq> 0x5B # t) \<Longrightarrow> unbracket h = h"
  by (simp add: unbracket_def strip_prefix_char_None_iff [THEN iffD2])

lemma unbracket_brackets: "unbracket (0x5B # t @ [0x5D]) = t"
  by (simp add: unbracket_def strip_suffix_char_def)

lemma host_name_no_address: "host_name h \<Longrightarrow> parse_ip_addr h = None"
proof (rule ccontr)
  assume h: "host_name h" "parse_ip_addr h \<noteq> None"
  then obtain ip where ip: "parse_ip_addr h = Some ip" by auto
  show False
  proof (cases ip)
    case (V4 v)
    with ip have "h = ipv4_text v" by (simp add: parse_ipv4)
    with h(1) show False unfolding host_name_def by blast
  next
    case (V6 v)
    from h(1) have "read_ipv6_addr h = None" by (intro no_colon_no_ipv6) (simp add: host_name_def)
    with ip V6 show False by (auto simp: parse_ip_addr_def read_ip_addr_def split: option.splits if_splits)
  qed
qed

definition guard_host :: "resolver \<Rightarrow> url \<Rightarrow> rstr \<Rightarrow> (url_guard_error, unit) result" where
  "guard_host R parsed host =
     (case parse_ip_addr (unbracket host) of
        Some ip \<Rightarrow> if is_disallowed_ip ip then Inl (UrlNonPublic (unbracket host) None) else Inr ()
      | None \<Rightarrow> and_then (resolve_public_host R (unbracket host)
          (case url_port_or_known_default parsed of Some p \<Rightarrow> p | None \<Rightarrow> 0)) (\<lambda>_. Inr ()))"

lemma validate_fetch_url_host:
  "validate_fetch_url R u = Inr () \<longleftrightarrow>
     (\<exists>parsed h. url_parse R u = Some parsed \<and> url_scheme parsed \<in> {map of_char ''http'', map of_char ''https''}
        \<and> url_host_str parsed = Some h \<and> guard_host R parsed h = Inr ())"
proof -
  have "validate_fetch_url R u = and_then (ok_or (UrlParse u) (url_parse R u)) (\<lambda>parsed.
      if url_scheme parsed \<noteq> ascii_http \<and> url_scheme parsed \<noteq> ascii_https then Inl (UrlScheme (url_scheme parsed))
      else and_then (ok_or UrlNoHost (url_host_str parsed)) (\<lambda>host. guard_host R parsed host))"
    unfolding validate_fetch_url_def guard_host_def Let_def by (rule refl)
  then show ?thesis by (auto simp: result_simps ascii_http_def ascii_https_def)
qed

lemma guard_host_literal:
  "guard_host R parsed (ipv4_text v) = Inr () \<longleftrightarrow> \<not> in_blocks (V4 v)"
  "ipv6_text t v6 \<Longrightarrow> guard_host R parsed (0x5B # t @ [0x5D]) = Inr () \<longleftrightarrow> \<not> in_blocks (V6 v6)"
proof -
  have "unbracket (ipv4_text v) = ipv4_text v"
    using brackets_not_ipv4 by (intro unbracket_other) metis
  moreover have "parse_ip_addr (ipv4_text v) = Some (V4 v)" by (simp add: parse_ipv4)
  ultimately show "guard_host R parsed (ipv4_text v) = Inr () \<longleftrightarrow> \<not> in_blocks (V4 v)"
    by (simp add: guard_host_def is_disallowed_ip_blocks)
  show "guard_host R parsed (0x5B # t @ [0x5D]) = Inr () \<longleftrightarrow> \<not> in_blocks (V6 v6)" if "ipv6_text t v6"
    using parse_ipv6 [OF that] by (simp add: guard_host_def is_disallowed_ip_blocks unbracket_brackets)
qed

lemma guard_host_name:
  assumes "host_name h"
  shows "guard_host R parsed h = Inr () \<longleftrightarrow>
    (\<exists>port addrs. (url_port_or_known_default parsed = Some port \<or> url_port_or_known_default parsed = None \<and> port = 0)
       \<and> to_socket_addrs R h port = Some addrs \<and> addrs \<noteq> [] \<and> (\<forall>ip\<in>set addrs. \<not> in_blocks ip))"
proof -
  from assms have "unbracket h = h" by (intro unbracket_other) (simp add: host_name_def)
  with host_name_no_address [OF assms] show ?thesis
    by (auto simp: guard_host_def resolve_public_host_def validate_resolved_addresses_iff is_disallowed_ip_blocks result_simps split: option.splits)
qed

text \<open>C33: The guard lets a URL through exactly when it parses, its scheme is \<open>http\<close> or \<open>https\<close>, and the
  addresses of its host are at least one and all outside the listed blocks: the address itself for an IPv4
  text or a bracketed IPv6 text, and for a name all those it resolves to with the port of the URL. The hypothesis
  is what the \<open>url\<close> crate documents of a host: an IPv4 address, an IPv6 address in brackets, or a name.\<close>

theorem validate_fetch_url_iff:
  assumes "\<And>parsed h. url_parse R u = Some parsed \<Longrightarrow> url_host_str parsed = Some h \<Longrightarrow>
    (\<exists>v. h = ipv4_text v) \<or> (\<exists>t v. h = [0x5B] @ t @ [0x5D] \<and> ipv6_text t v) \<or> host_name h"
  shows "validate_fetch_url R u = Inr () \<longleftrightarrow>
    (\<exists>parsed h addrs. url_parse R u = Some parsed \<and> url_scheme parsed \<in> {map of_char ''http'', map of_char ''https''}
       \<and> url_host_str parsed = Some h \<and> host_addresses R parsed h addrs
       \<and> addrs \<noteq> [] \<and> (\<forall>ip\<in>set addrs. \<not> in_blocks ip))"
proof -
  have "guard_host R parsed h = Inr () \<longleftrightarrow>
      (\<exists>addrs. host_addresses R parsed h addrs \<and> addrs \<noteq> [] \<and> (\<forall>ip\<in>set addrs. \<not> in_blocks ip))"
    if p: "url_parse R u = Some parsed" "url_host_str parsed = Some h" for parsed h
    using assms [OF p]
  proof (elim disjE exE conjE)
    fix v assume h: "h = ipv4_text v"
    have "host_addresses R parsed h addrs \<longleftrightarrow> addrs = [V4 v]" for addrs
      using h brackets_not_ipv4 ipv4_text_inject by (auto simp: host_addresses_def host_name_def)
    with h show ?thesis by (simp add: guard_host_literal)
  next
    fix t v assume h: "h = [0x5B] @ t @ [0x5D]" "ipv6_text t v"
    have "host_addresses R parsed h addrs \<longleftrightarrow> addrs = [V6 v]" for addrs
      using h brackets_not_ipv4 ipv6_text_unique by (auto simp: host_addresses_def host_name_def)
    with h show ?thesis by (simp add: guard_host_literal)
  next
    assume h: "host_name h"
    then have "host_addresses R parsed h addrs \<longleftrightarrow> (\<exists>port. (url_port_or_known_default parsed = Some port
        \<or> url_port_or_known_default parsed = None \<and> port = 0) \<and> to_socket_addrs R h port = Some addrs)" for addrs
      by (auto simp: host_addresses_def host_name_def)
    with guard_host_name [OF h] show ?thesis by blast
  qed
  then show ?thesis unfolding validate_fetch_url_host by blast
qed

text \<open>URLs that are just a host: a public IPv4 address, a public IPv6 address and the loopback address.\<close>

definition toy_hosts :: resolver where
  "toy_hosts = \<lparr>url_parse = (\<lambda>u. Some \<lparr>url_scheme = ascii_http, url_host_str = Some u, url_port_or_known_default = Some 80\<rparr>),
     to_socket_addrs = (\<lambda>_ _. None)\<rparr>"

definition toy_host_v4 :: rstr where "toy_host_v4 = map of_char ''8.8.8.8''"
definition toy_host_v6 :: rstr where "toy_host_v6 = map of_char ''2606:4700::1111''"
definition toy_host_loopback :: rstr where "toy_host_loopback = map of_char ''::1''"

lemma toy_host_texts:
  "toy_host_v4 = ipv4_text (Ipv4 8 8 8 8)"
  "ipv6_text toy_host_v6 (Ipv6 0x2606 0x4700 0 0 0 0 0 0x1111)"
  "ipv6_text toy_host_loopback (Ipv6 0 0 0 0 0 0 0 1)"
proof -
  have zeros: "replicate 5 (0 :: u16) = [0, 0, 0, 0, 0]" "replicate 7 (0 :: u16) = [0, 0, 0, 0, 0, 0, 0]"
    by (simp_all add: numeral_eq_Suc)
  show "toy_host_v4 = ipv4_text (Ipv4 8 8 8 8)"
    by (simp add: toy_host_v4_def octet_text_def)
  show "ipv6_text toy_host_v6 (Ipv6 0x2606 0x4700 0 0 0 0 0 0x1111)"
    unfolding ipv6_text_def
    by (rule disjI2, rule exI [of _ "[map of_char ''2606'', map of_char ''4700'']"], rule exI [of _ "[map of_char ''1111'']"])
      (simp add: toy_host_v6_def hex_group_def hex_digit_def colon_groups_def group_words_def hex_number_def hex_value_def
        ipv6_of_segments_def zeros)
  show "ipv6_text toy_host_loopback (Ipv6 0 0 0 0 0 0 0 1)"
    unfolding ipv6_text_def
    by (rule disjI2, rule exI [of _ "[]"], rule exI [of _ "[map of_char ''1'']"])
      (simp add: toy_host_loopback_def hex_group_def hex_digit_def colon_groups_def group_words_def hex_number_def hex_value_def
        ipv6_of_segments_def zeros)
qed

theorem validate_fetch_url_iff_witness:
  "validate_fetch_url toy_hosts toy_host_v4 = Inr ()
   \<and> validate_fetch_url toy_hosts ([0x5B] @ toy_host_v6 @ [0x5D]) = Inr ()
   \<and> validate_fetch_url toy_hosts ([0x5B] @ toy_host_loopback @ [0x5D]) \<noteq> Inr ()"
proof (intro conjI)
  let ?p = "\<lambda>h. \<lparr>url_scheme = ascii_http, url_host_str = Some h, url_port_or_known_default = Some 80\<rparr>"
  have parse: "url_parse toy_hosts h = Some (?p h)" for h by (simp add: toy_hosts_def)
  have eq: "validate_fetch_url toy_hosts h = Inr () \<longleftrightarrow>
      (\<exists>addrs. host_addresses toy_hosts (?p h) h addrs \<and> addrs \<noteq> [] \<and> (\<forall>ip\<in>set addrs. \<not> in_blocks ip))"
    if h: "(\<exists>v. h = ipv4_text v) \<or> (\<exists>t v. h = [0x5B] @ t @ [0x5D] \<and> ipv6_text t v) \<or> host_name h" for h
  proof -
    have "ascii_http \<in> {map of_char ''http'', map of_char ''https''}" by (simp add: ascii_http_def)
    moreover have "(\<exists>v. h' = ipv4_text v) \<or> (\<exists>t v. h' = [0x5B] @ t @ [0x5D] \<and> ipv6_text t v) \<or> host_name h'"
      if "url_parse toy_hosts h = Some parsed" "url_host_str parsed = Some h'" for parsed h'
    proof -
      from that have "h' = h" by (auto simp: parse)
      with h show ?thesis by blast
    qed
    ultimately show ?thesis using validate_fetch_url_iff [of toy_hosts h] by (simp add: parse)
  qed
  have pass: "validate_fetch_url toy_hosts h = Inr ()"
    if "(\<exists>v. h = ipv4_text v) \<or> (\<exists>t v. h = [0x5B] @ t @ [0x5D] \<and> ipv6_text t v)"
      "host_addresses toy_hosts (?p h) h [ip]" "\<not> in_blocks ip" for h ip
    using that eq [of h] by (metis empty_iff list.distinct(1) list.set(1) set_ConsD)
  have "host_addresses toy_hosts (?p toy_host_v4) toy_host_v4 [V4 (Ipv4 8 8 8 8)]"
    unfolding host_addresses_def using toy_host_texts(1) by blast
  moreover have "\<not> in_blocks (V4 (Ipv4 8 8 8 8))"
    by (simp add: in_blocks_def ipv4_blocks_def in_block_def)
  ultimately show "validate_fetch_url toy_hosts toy_host_v4 = Inr ()"
    using toy_host_texts(1) by (intro pass) blast
  have "host_addresses toy_hosts (?p ([0x5B] @ toy_host_v6 @ [0x5D])) ([0x5B] @ toy_host_v6 @ [0x5D])
      [V6 (Ipv6 0x2606 0x4700 0 0 0 0 0 0x1111)]"
    unfolding host_addresses_def using toy_host_texts(2) by blast
  moreover have "\<not> in_blocks (V6 (Ipv6 0x2606 0x4700 0 0 0 0 0 0x1111))"
    by (simp add: in_blocks_def ipv6_blocks_def in_block_def seg_cat_def)
  ultimately show "validate_fetch_url toy_hosts ([0x5B] @ toy_host_v6 @ [0x5D]) = Inr ()"
    using toy_host_texts(2) by (intro pass) blast
  have only: "addrs = [V6 (Ipv6 0 0 0 0 0 0 0 1)]"
    if "host_addresses toy_hosts p ([0x5B] @ toy_host_loopback @ [0x5D]) addrs" for p addrs
    using that ipv6_text_unique [OF _ toy_host_texts(3)] by (auto simp: host_addresses_def host_name_def brackets_not_ipv4)
  have "in_blocks (V6 (Ipv6 0 0 0 0 0 0 0 1))" by (simp add: in_blocks_def ipv6_blocks_def in_block_def seg_cat_def)
  then show "validate_fetch_url toy_hosts ([0x5B] @ toy_host_loopback @ [0x5D]) \<noteq> Inr ()"
    using only toy_host_texts(3) eq [of "[0x5B] @ toy_host_loopback @ [0x5D]"] by (metis list.set_intros(1))
qed

end
