(* ===== verification/Status.thy ===== *)
theory Status
  imports Prelude
begin

section \<open>Validation status (\<open>src/src/ltv/status.rs\<close>)\<close>

text \<open>
  The four-valued result of a revocation check and the rule that merges two of them. The
  free-text reasons of the source are a type parameter of the status.
\<close>

datatype revocation_source = SrcCrl | SrcOcsp

fun revocation_source_display :: "revocation_source \<Rightarrow> string" where
  "revocation_source_display SrcCrl = ''CRL''"
| "revocation_source_display SrcOcsp = ''OCSP''"

datatype revocation_reason =
    Unspecified | KeyCompromise | CaCompromise | AffiliationChanged | Superseded
  | CessationOfOperation | CertificateHold | RemoveFromCrl | PrivilegeWithdrawn | AaCompromise
  | UnknownReason u8

definition from_code :: "u8 \<Rightarrow> revocation_reason" where
  "from_code code =
     (if code = 0 then Unspecified
      else if code = 1 then KeyCompromise
      else if code = 2 then CaCompromise
      else if code = 3 then AffiliationChanged
      else if code = 4 then Superseded
      else if code = 5 then CessationOfOperation
      else if code = 6 then CertificateHold
      else if code = 8 then RemoveFromCrl
      else if code = 9 then PrivilegeWithdrawn
      else if code = 10 then AaCompromise
      else UnknownReason code)"

fun reason_code :: "revocation_reason \<Rightarrow> u8" where
  "reason_code Unspecified = 0"
| "reason_code KeyCompromise = 1"
| "reason_code CaCompromise = 2"
| "reason_code AffiliationChanged = 3"
| "reason_code Superseded = 4"
| "reason_code CessationOfOperation = 5"
| "reason_code CertificateHold = 6"
| "reason_code RemoveFromCrl = 8"
| "reason_code PrivilegeWithdrawn = 9"
| "reason_code AaCompromise = 10"
| "reason_code (UnknownReason v) = v"

text \<open>An unsigned integer is shown in decimal.\<close>

fun nat_display :: "nat \<Rightarrow> string" where
  "nat_display n = (if n < 10 then [''0123456789'' ! n] else nat_display (n div 10) @ [''0123456789'' ! (n mod 10)])"

declare nat_display.simps [simp del]

fun revocation_reason_display :: "revocation_reason \<Rightarrow> string" where
  "revocation_reason_display Unspecified = ''unspecified''"
| "revocation_reason_display KeyCompromise = ''keyCompromise''"
| "revocation_reason_display CaCompromise = ''cACompromise''"
| "revocation_reason_display AffiliationChanged = ''affiliationChanged''"
| "revocation_reason_display Superseded = ''superseded''"
| "revocation_reason_display CessationOfOperation = ''cessationOfOperation''"
| "revocation_reason_display CertificateHold = ''certificateHold''"
| "revocation_reason_display RemoveFromCrl = ''removeFromCRL''"
| "revocation_reason_display PrivilegeWithdrawn = ''privilegeWithdrawn''"
| "revocation_reason_display AaCompromise = ''aACompromise''"
| "revocation_reason_display (UnknownReason v) = ''unknown('' @ nat_display (unat v) @ '')''"

datatype 'm validation_status =
    Valid (vs_source: revocation_source) (checked_at: datetime)
  | Revoked (vs_source: revocation_source) (vs_reason: revocation_reason) (revocation_time: datetime)
  | Invalid (vs_why: 'm)
  | Unknown (vs_why: 'm)

text \<open>\<open>t\<close> shows an instant and \<open>m\<close> a reason.\<close>

fun validation_status_display :: "(datetime \<Rightarrow> string) \<Rightarrow> ('m \<Rightarrow> string) \<Rightarrow> 'm validation_status \<Rightarrow> string" where
  "validation_status_display t m (Valid source checked) =
     ''VALID (via '' @ revocation_source_display source @ '', checked at '' @ t checked @ '')''"
| "validation_status_display t m (Revoked source reason time) =
     ''REVOKED (via '' @ revocation_source_display source @ '', reason='' @ revocation_reason_display reason
       @ '', time='' @ t time @ '')''"
| "validation_status_display t m (Invalid reason) = ''INVALID ('' @ m reason @ '')''"
| "validation_status_display t m (Unknown reason) = ''UNKNOWN ('' @ m reason @ '')''"

definition is_valid :: "'m validation_status \<Rightarrow> bool" where
  "is_valid s = (case s of Valid _ _ \<Rightarrow> True | _ \<Rightarrow> False)"

definition is_revoked :: "'m validation_status \<Rightarrow> bool" where
  "is_revoked s = (case s of Revoked _ _ _ \<Rightarrow> True | _ \<Rightarrow> False)"

definition is_invalid :: "'m validation_status \<Rightarrow> bool" where
  "is_invalid s = (case s of Invalid _ \<Rightarrow> True | _ \<Rightarrow> False)"

definition is_unknown :: "'m validation_status \<Rightarrow> bool" where
  "is_unknown s = (case s of Unknown _ \<Rightarrow> True | _ \<Rightarrow> False)"

fun priority :: "'m validation_status \<Rightarrow> nat" where
  "priority (Revoked _ _ _) = 3"
| "priority (Valid _ _) = 2"
| "priority (Invalid _) = 1"
| "priority (Unknown _) = 0"

definition resolve_priority ::
  "'m validation_status \<Rightarrow> 'm validation_status \<Rightarrow> 'm validation_status" where
  "resolve_priority a b = (if priority b \<le> priority a then a else b)"

subsection \<open>Merging by rank: the interface\<close>

text \<open>
  A merge that returns one of its arguments, of the larger rank, the left one on a tie. The laws
  a client needs follow: associativity, idempotence, and the rank of any merged list.
\<close>

locale ranked_merge =
  fixes rank :: "'a \<Rightarrow> nat" and merge :: "'a \<Rightarrow> 'a \<Rightarrow> 'a"
  assumes merge_left: "rank b \<le> rank a \<Longrightarrow> merge a b = a"
    and merge_right: "rank a < rank b \<Longrightarrow> merge a b = b"
begin

lemma merge_eq: "merge a b = (if rank b \<le> rank a then a else b)"
  using merge_left [of b a] merge_right [of a b] by simp

lemma merge_cases: "merge a b = a \<or> merge a b = b"
  by (simp add: merge_eq)

lemma rank_merge: "rank (merge a b) = max (rank a) (rank b)"
  by (simp add: merge_eq)

lemma merge_assoc: "merge (merge a b) c = merge a (merge b c)"
  by (auto simp: merge_eq)

lemma merge_idem: "merge a a = a"
  by (rule merge_left) simp

lemma foldl_merge_in: "foldl merge a xs \<in> insert a (set xs)"
proof (induction xs arbitrary: a)
  case (Cons x xs)
  then show ?case using merge_cases [of a x] by (metis foldl_Cons insert_iff list.set(2))
qed simp

lemma rank_foldl_merge: "rank (foldl merge a xs) = Max (rank ` insert a (set xs))"
proof (induction xs arbitrary: a)
  case (Cons x xs)
  have "Max (insert (max (rank a) (rank x)) (rank ` set xs))
      = Max (insert (rank a) (insert (rank x) (rank ` set xs)))"
    by (cases "xs = []") (simp_all add: max.assoc)
  with Cons show ?case by (simp add: rank_merge)
qed simp

end

text \<open>The library's laws of an associative operation apply to the merge.\<close>

sublocale ranked_merge \<subseteq> merged: semigroup merge
  by unfold_locales (rule merge_assoc)

interpretation status: ranked_merge priority resolve_priority
  by unfold_locales (auto simp: resolve_priority_def)

lemmas status_pred_defs = is_valid_def is_revoked_def is_invalid_def is_unknown_def

lemma priority_preds:
  "priority s = 3 \<longleftrightarrow> is_revoked s" "priority s = 2 \<longleftrightarrow> is_valid s"
  "priority s = 1 \<longleftrightarrow> is_invalid s" "priority s = 0 \<longleftrightarrow> is_unknown s"
  by (cases s; simp add: status_pred_defs)+

lemma priority_le: "priority s \<le> 3"
  by (cases s) auto

subsection \<open>Properties\<close>

text \<open>Reason codes round trip: decoding a byte and taking its code gives the byte back, and
  every reason other than an out-of-table \<open>Unknown\<close> that shadows a named code is decoded from its
  code.\<close>

theorem reason_code_roundtrip:
  "reason_code (from_code c) = c
   \<and> (from_code (reason_code r) = r \<longleftrightarrow>
        r \<notin> UnknownReason ` {0, 1, 2, 3, 4, 5, 6, 8, 9, 10})"
proof
  show "reason_code (from_code c) = c" by (simp add: from_code_def)
  show "from_code (reason_code r) = r \<longleftrightarrow> r \<notin> UnknownReason ` {0, 1, 2, 3, 4, 5, 6, 8, 9, 10}"
    by (cases r) (auto simp: from_code_def)
qed

text \<open>The merged status of any number of sources is one of them and has the highest rank
  (Revoked over Valid over Invalid over Unknown); merging is associative, so the order in which
  sources are combined does not matter for the outcome's kind.\<close>

theorem resolve_priority_spec:
  "foldl resolve_priority a xs \<in> insert a (set xs)
   \<and> priority (foldl resolve_priority a xs) = Max (priority ` insert a (set xs))
   \<and> resolve_priority (resolve_priority a b) c = resolve_priority a (resolve_priority b c)"
  using status.foldl_merge_in [of a xs] status.rank_foldl_merge [of a xs]
    status.merged.assoc [of a b c] by blast

text \<open>A revocation reported by one source is never masked by the other, and a good status is
  masked only by a revocation; an integrity failure is never hidden behind an undetermined one.\<close>

theorem resolve_priority_dominance:
  "(is_revoked (resolve_priority a b) \<longleftrightarrow> is_revoked a \<or> is_revoked b)
   \<and> (is_valid (resolve_priority a b) \<longleftrightarrow>
        (is_valid a \<or> is_valid b) \<and> \<not> is_revoked a \<and> \<not> is_revoked b)
   \<and> (is_unknown (resolve_priority a b) \<longleftrightarrow> is_unknown a \<and> is_unknown b)"
  by (cases a; cases b) (simp_all add: resolve_priority_def status_pred_defs)

end
