(* ===== verification/Crl.thy ===== *)
theory Crl
  imports Verify Status
begin

section \<open>CRL parsing and revocation checking (\<open>src/src/ltv/crl.rs\<close>)\<close>

text \<open>
  The strict CRL parser, the signature and freshness checks, and the lookup of a certificate in the
  list. Fetching and caching are in \<open>Crl_Client\<close>. Errors are \<open>LtvError::Crl\<close> with one constructor
  per message, or the extension error of the issuer's keyUsage. \<open>ch\<close> is the calendar.
\<close>

datatype crl_field =
    FOuter | FTbs | FSigAlg | FSigValue | FVersion | FInnerSigAlg | FIssuer | FThisUpdate | FNextUpdate
  | FRevokedCertificates | FCrlExtensions | FCrlExtensionsSeq | FEntry | FSerial | FRevocationDate

datatype crl_msg =
    CrlTlv crl_field der_error
  | CrlTag crl_field u8
  | CrlTime crl_field time_error
  | CrlTrailing crl_field
  | CrlAlgDecode crl_field
  | CrlSignatureBits
  | CrlVersion
  | CrlAlgorithmMismatch
  | CrlScan der_error
  | CrlScanTag u8
  | CrlDelta
  | CrlPartitioned
  | CrlExtDecode
  | CrlExtEmpty
  | CrlExtDuplicate
  | CrlExtCritical oid
  | CrlExtIndirect
  | CrlExtReasonTlv der_error
  | CrlExtReason
  | CrlKeyUsage key_usage_bits
  | CrlSpkiEncode
  | CrlSignerName
  | CrlSignerMismatch
  | CrlSignature trust_error
  | CrlWindow datetime datetime
  | CrlStale datetime datetime
  | CrlTooOld datetime datetime
  | CrlIssuerMismatch
  | CrlCertIssuerEncode

datatype crl_error = Crl crl_msg | CrlX509 x509_error

subsection \<open>Distribution points\<close>

text \<open>The URIs of a \<open>GeneralNames\<close> body; the loop stops at the first malformed name.\<close>

function gn_uris :: "bytes \<Rightarrow> rstr list" where
  "gn_uris pos =
     (if pos = [] then []
      else (case parse_tlv_with_rest pos of
              Inr (tag, body, rest) \<Rightarrow>
                (if tag = 0x86 \<and> from_utf8_ok body then [body] else []) @ gn_uris rest
            | Inl _ \<Rightarrow> []))"
  by pat_completeness auto
termination
  by (relation "measure length") (auto dest: parse_tlv_with_rest_shorter)

text \<open>The URIs of one distribution point: \<open>fullName\<close> of its first field.\<close>

definition dp_uris :: "bytes \<Rightarrow> rstr list" where
  "dp_uris dp_body =
     (if dp_body = [] then []
      else case parse_tlv_with_rest dp_body of
             Inr (inner_tag, inner_body, _) \<Rightarrow>
               if inner_tag = 0xA0 then
                 (case parse_tlv_with_rest inner_body of
                    Inr (fn_tag, fn_body, _) \<Rightarrow> if fn_tag = 0xA0 then gn_uris fn_body else []
                  | Inl _ \<Rightarrow> [])
               else []
           | Inl _ \<Rightarrow> [])"

datatype dp_error = DpTlv der_error | DpTag u8

function dp_loop :: "bytes \<Rightarrow> rstr list \<Rightarrow> (dp_error, rstr list) result" where
  "dp_loop pos urls =
     (if pos = [] then Inr urls
      else (case parse_tlv_with_rest pos of
              Inl e \<Rightarrow> Inl (DpTlv e)
            | Inr (dp_tag, dp_body, rest) \<Rightarrow>
                dp_loop rest (if dp_tag = 0x30 then urls @ dp_uris dp_body else urls)))"
  by pat_completeness auto
termination
  by (relation "measure (\<lambda>(pos, _). length pos)") (auto dest: parse_tlv_with_rest_shorter)

declare gn_uris.simps [simp del] dp_loop.simps [simp del]

definition parse_crl_dp_extension :: "bytes \<Rightarrow> (dp_error, rstr list) result" where
  "parse_crl_dp_extension der_bytes =
     and_then (map_err DpTlv (parse_tlv der_bytes)) (\<lambda>(tag, body).
       if tag \<noteq> 0x30 then Inl (DpTag tag) else dp_loop body [])"

definition CRL_DP_OID :: oid where "CRL_DP_OID = [2, 5, 29, 31]"

definition extract_crl_urls :: "certificate \<Rightarrow> rstr list" where
  "extract_crl_urls cert =
     (case extensions cert of
        None \<Rightarrow> []
      | Some exts \<Rightarrow>
          concat (map (\<lambda>ext.
            if extn_id ext = CRL_DP_OID then
              (case parse_crl_dp_extension (extn_value ext) of Inr urls \<Rightarrow> urls | Inl _ \<Rightarrow> [])
            else []) exts))"

subsection \<open>Entries and extensions\<close>

record revoked_entry =
  re_serial_number :: bytes
  re_revocation_time :: datetime
  re_reason :: revocation_reason

record parsed_crl =
  pc_tbs_bytes :: bytes
  pc_signature_algorithm :: algorithm_identifier
  pc_signature_bytes :: bytes
  pc_issuer_der :: bytes
  pc_this_update :: datetime
  pc_next_update :: "datetime option"
  pc_revoked_entries :: "revoked_entry list"

definition DELTA_CRL_INDICATOR_OID :: bytes where "DELTA_CRL_INDICATOR_OID = [0x55, 0x1D, 0x1B]"
definition ISSUING_DIST_POINT_OID :: bytes where "ISSUING_DIST_POINT_OID = [0x55, 0x1D, 0x1C]"
definition REASON_OID_BYTES :: bytes where "REASON_OID_BYTES = [0x55, 0x1D, 0x15]"

function extensions_contain_oid :: "bytes \<Rightarrow> bytes \<Rightarrow> (crl_msg, bool) result" where
  "extensions_contain_oid pos target_oid =
     (if pos = [] then Inr False
      else (case parse_tlv_with_rest pos of
              Inl e \<Rightarrow> Inl (CrlScan e)
            | Inr (ext_tag, ext_value, rest) \<Rightarrow>
                if ext_tag \<noteq> 0x30 then Inl (CrlScanTag ext_tag)
                else (case parse_tlv_with_rest ext_value of
                        Inl e \<Rightarrow> Inl (CrlScan e)
                      | Inr (oid_tag, oid_body, _) \<Rightarrow>
                          if oid_tag = 0x06 \<and> oid_body = target_oid then Inr True
                          else extensions_contain_oid rest target_oid)))"
  by pat_completeness auto
termination
  by (relation "measure (\<lambda>(pos, _). length pos)") (auto dest: parse_tlv_with_rest_shorter)

declare extensions_contain_oid.simps [simp del]

definition validate_reason_value :: "bytes \<Rightarrow> (crl_msg, unit) result" where
  "validate_reason_value v =
     and_then (map_err CrlExtReasonTlv (parse_tlv_with_rest v)) (\<lambda>(tag, val, rest).
       if tag \<noteq> 0x0A \<or> length val \<noteq> 1 \<or> rest \<noteq> [] \<or> 10 < hd val \<or> hd val = 7 \<or> hd val = 8
       then Inl CrlExtReason else Inr ())"

fun crl_extension_loop :: "oid set \<Rightarrow> extension list \<Rightarrow> (crl_msg, unit) result" where
  "crl_extension_loop seen [] = Inr ()"
| "crl_extension_loop seen (ext # exts) =
     (if extn_id ext \<in> seen then Inl CrlExtDuplicate
      else if critical ext then Inl (CrlExtCritical (extn_id ext))
      else if extn_id ext = [2, 5, 29, 29] then Inl CrlExtIndirect
      else
        and_then (if extn_id ext = [2, 5, 29, 21] then validate_reason_value (extn_value ext) else Inr ())
          (\<lambda>_. crl_extension_loop (insert (extn_id ext) seen) exts))"

definition validate_crl_extensions :: "lib \<Rightarrow> bytes \<Rightarrow> (crl_msg, unit) result" where
  "validate_crl_extensions L encoded =
     and_then (ok_or CrlExtDecode (extensions_from_der L encoded)) (\<lambda>exts.
       if exts = [] then Inl CrlExtEmpty else crl_extension_loop {} exts)"

function reason_loop :: "bytes \<Rightarrow> revocation_reason" where
  "reason_loop pos =
     (if pos = [] then Unspecified
      else (case parse_tlv_with_rest pos of
              Inl _ \<Rightarrow> Unspecified
            | Inr (ext_tag, ext_value, rest) \<Rightarrow>
                let here =
                  (if ext_tag = 0x30 \<and> find_tagged_value ext_value 0x06 = Some REASON_OID_BYTES then
                     (case find_tagged_value ext_value 0x04 of
                        None \<Rightarrow> None
                      | Some octet_body \<Rightarrow>
                          (case find_tagged_value octet_body 0x0A of
                             None \<Rightarrow> None
                           | Some enum_body \<Rightarrow> if enum_body \<noteq> [] then Some (from_code (hd enum_body)) else None))
                   else None)
                in case here of Some r \<Rightarrow> r | None \<Rightarrow> reason_loop rest))"
  by pat_completeness auto
termination
  by (relation "measure length") (auto dest: parse_tlv_with_rest_shorter)

declare reason_loop.simps [simp del]

definition parse_revocation_reason :: "bytes \<Rightarrow> revocation_reason" where
  "parse_revocation_reason extensions_area =
     (if extensions_area = [] then Unspecified
      else case parse_tlv_with_rest extensions_area of
             Inl _ \<Rightarrow> Unspecified
           | Inr (tag, ext_body, _) \<Rightarrow> if tag \<noteq> 0x30 then Unspecified else reason_loop ext_body)"

text \<open>One entry of \<open>revokedCertificates\<close>.\<close>

definition parse_revoked_entry :: "lib \<Rightarrow> chrono \<Rightarrow> bytes \<Rightarrow> (crl_msg, revoked_entry) result" where
  "parse_revoked_entry L ch entry_body =
     and_then (map_err (CrlTlv FSerial) (parse_tlv_with_rest entry_body)) (\<lambda>(serial_tag, serial_body, entry_rest).
       if serial_tag \<noteq> 0x02 then Inl (CrlTag FSerial serial_tag)
       else
         and_then (map_err (CrlTlv FRevocationDate) (parse_tlv_with_rest entry_rest)) (\<lambda>(time_tag, time_body, entry_rest2).
         and_then (map_err (CrlTime FRevocationDate) (parse_x509_time ch time_tag time_body)) (\<lambda>revocation_time.
         and_then (if entry_rest2 \<noteq> [] then validate_crl_extensions L entry_rest2 else Inr ()) (\<lambda>_.
           Inr \<lparr>re_serial_number = parse_integer_body serial_body, re_revocation_time = revocation_time,
                re_reason = parse_revocation_reason entry_rest2\<rparr>))))"

function parse_revoked_certificates ::
  "lib \<Rightarrow> chrono \<Rightarrow> bytes \<Rightarrow> revoked_entry list \<Rightarrow> (crl_msg, revoked_entry list) result" where
  "parse_revoked_certificates L ch pos entries =
     (if pos = [] then Inr entries
      else (case parse_tlv_with_rest pos of
              Inl e \<Rightarrow> Inl (CrlTlv FEntry e)
            | Inr (entry_tag, entry_body, rest) \<Rightarrow>
                if entry_tag \<noteq> 0x30 then Inl (CrlTag FEntry entry_tag)
                else (case parse_revoked_entry L ch entry_body of
                        Inl e \<Rightarrow> Inl e
                      | Inr entry \<Rightarrow> parse_revoked_certificates L ch rest (entries @ [entry]))))"
  by pat_completeness auto
termination
  by (relation "measure (\<lambda>(_, _, pos, _). length pos)") (auto dest: parse_tlv_with_rest_shorter)

declare parse_revoked_certificates.simps [simp del]

subsection \<open>The list\<close>

text \<open>\<open>CertificateList\<close>: the to-be-signed bytes as they stand in the input, the content of
  \<open>tbsCertList\<close>, the signature algorithm and the signature.\<close>

definition parse_crl_envelope ::
  "lib \<Rightarrow> bytes \<Rightarrow> (crl_msg, bytes \<times> bytes \<times> algorithm_identifier \<times> bytes) result" where
  "parse_crl_envelope L crl_der =
     and_then (map_err (CrlTlv FOuter) (parse_tlv_with_rest crl_der)) (\<lambda>(outer_tag, outer_body, outer_rest).
       if outer_rest \<noteq> [] then Inl (CrlTrailing FOuter)
       else if outer_tag \<noteq> 0x30 then Inl (CrlTag FOuter outer_tag)
       else
       and_then (map_err (CrlTlv FTbs) (parse_tlv_with_rest outer_body)) (\<lambda>(tbs_tag, tbs_value, rest).
       if tbs_tag \<noteq> 0x30 then Inl (CrlTag FTbs tbs_tag)
       else
       let tbs_start = length crl_der - length outer_body;
           tbs_end = length crl_der - length outer_body + (length outer_body - length rest);
           tbs_bytes = take (tbs_end - tbs_start) (drop tbs_start crl_der);
           sig_alg_input = rest in
       and_then (map_err (CrlTlv FSigAlg) (parse_tlv_with_rest sig_alg_input)) (\<lambda>(sig_alg_tag, _, rest).
       if sig_alg_tag \<noteq> 0x30 then Inl (CrlTag FSigAlg sig_alg_tag)
       else
       let sig_alg_der = take (length sig_alg_input - length rest) sig_alg_input in
       and_then (ok_or (CrlAlgDecode FSigAlg) (algid_from_der L sig_alg_der)) (\<lambda>signature_algorithm.
       and_then (map_err (CrlTlv FSigValue) (parse_tlv_with_rest rest)) (\<lambda>(sig_val_tag, sig_val_body, after_signature).
       if after_signature \<noteq> [] then Inl (CrlTrailing FSigValue)
       else if sig_val_tag \<noteq> 0x03 then Inl (CrlTag FSigValue sig_val_tag)
       else if length sig_val_body < 2 \<or> hd sig_val_body \<noteq> 0 then Inl CrlSignatureBits
       else Inr (tbs_bytes, tbs_value, signature_algorithm, tl sig_val_body))))))"

text \<open>The fields of \<open>TBSCertList\<close>, each reading from the front of what is left.\<close>

definition read_crl_version :: "bytes \<Rightarrow> (crl_msg, bytes) result" where
  "read_crl_version pos =
     (if pos \<noteq> [] \<and> hd pos = 0x02 then
        and_then (map_err (CrlTlv FVersion) (parse_tlv_with_rest pos)) (\<lambda>(_, version, r).
          if version \<noteq> [1] then Inl CrlVersion else Inr r)
      else Inr pos)"

definition read_crl_inner_algorithm ::
  "lib \<Rightarrow> algorithm_identifier \<Rightarrow> bytes \<Rightarrow> (crl_msg, bytes) result" where
  "read_crl_inner_algorithm L outer_alg pos =
     and_then (map_err (CrlTlv FInnerSigAlg) (parse_tlv_with_rest pos)) (\<lambda>(tag, _, r).
       if tag \<noteq> 0x30 then Inl (CrlTag FInnerSigAlg tag)
       else and_then (ok_or (CrlAlgDecode FInnerSigAlg) (algid_from_der L (take (length pos - length r) pos)))
         (\<lambda>inner. if inner \<noteq> outer_alg then Inl CrlAlgorithmMismatch else Inr r))"

definition read_crl_issuer :: "bytes \<Rightarrow> (crl_msg, bytes \<times> bytes) result" where
  "read_crl_issuer pos =
     and_then (map_err (CrlTlv FIssuer) (parse_tlv_with_rest pos)) (\<lambda>(issuer_tag, _, rest).
       if issuer_tag \<noteq> 0x30 then Inl (CrlTag FIssuer issuer_tag)
       else Inr (take (length pos - length rest) pos, rest))"

definition read_crl_this_update :: "chrono \<Rightarrow> bytes \<Rightarrow> (crl_msg, datetime \<times> bytes) result" where
  "read_crl_this_update ch pos =
     and_then (map_err (CrlTlv FThisUpdate) (parse_tlv_with_rest pos)) (\<lambda>(time_tag, time_body, rest).
       and_then (map_err (CrlTime FThisUpdate) (parse_x509_time ch time_tag time_body)) (\<lambda>t. Inr (t, rest)))"

definition read_crl_next_update :: "chrono \<Rightarrow> bytes \<Rightarrow> (crl_msg, datetime option \<times> bytes) result" where
  "read_crl_next_update ch pos =
     (if pos \<noteq> [] \<and> (hd pos = 0x17 \<or> hd pos = 0x18) then
        and_then (map_err (CrlTlv FNextUpdate) (parse_tlv_with_rest pos)) (\<lambda>(nt_tag, nt_body, r).
          and_then (map_err (CrlTime FNextUpdate) (parse_x509_time ch nt_tag nt_body)) (\<lambda>t. Inr (Some t, r)))
      else Inr (None, pos))"

definition read_crl_revoked :: "lib \<Rightarrow> chrono \<Rightarrow> bytes \<Rightarrow> (crl_msg, revoked_entry list \<times> bytes) result" where
  "read_crl_revoked L ch pos =
     (if pos \<noteq> [] \<and> hd pos = 0x30 then
        and_then (map_err (CrlTlv FRevokedCertificates) (parse_tlv_with_rest pos)) (\<lambda>(rc_tag, rc_body, r).
          and_then (if rc_tag = 0x30 then parse_revoked_certificates L ch rc_body [] else Inr []) (\<lambda>entries.
            Inr (entries, r)))
      else Inr ([], pos))"

definition read_crl_extensions :: "lib \<Rightarrow> bytes \<Rightarrow> (crl_msg, bytes) result" where
  "read_crl_extensions L pos =
     (if pos \<noteq> [] \<and> hd pos = 0xA0 then
        and_then (map_err (CrlTlv FCrlExtensions) (parse_tlv_with_rest pos)) (\<lambda>(_, wrap_body, after_extensions).
        if after_extensions \<noteq> [] then Inl (CrlTrailing FCrlExtensions)
        else
        and_then (map_err (CrlTlv FCrlExtensionsSeq) (parse_tlv_with_rest wrap_body)) (\<lambda>(seq_tag, extensions_body, after_sequence).
        if after_sequence \<noteq> [] then Inl (CrlTrailing FCrlExtensionsSeq)
        else if seq_tag \<noteq> 0x30 then Inl (CrlTag FCrlExtensionsSeq seq_tag)
        else
        and_then (extensions_contain_oid extensions_body DELTA_CRL_INDICATOR_OID) (\<lambda>has_delta.
        if has_delta then Inl CrlDelta
        else
        and_then (extensions_contain_oid extensions_body ISSUING_DIST_POINT_OID) (\<lambda>has_idp.
        if has_idp then Inl CrlPartitioned
        else
        and_then (validate_crl_extensions L wrap_body) (\<lambda>_.
          Inr after_extensions)))))
      else Inr pos)"

definition parse_tbs ::
  "lib \<Rightarrow> chrono \<Rightarrow> bytes \<times> bytes \<times> algorithm_identifier \<times> bytes \<Rightarrow> (crl_msg, parsed_crl) result" where
  "parse_tbs L ch = (\<lambda>(tbs_bytes, tbs_value, alg, signature_bytes).
     and_then (read_crl_version tbs_value) (\<lambda>pos.
     and_then (read_crl_inner_algorithm L alg pos) (\<lambda>pos.
     and_then (read_crl_issuer pos) (\<lambda>(issuer_der, pos).
     and_then (read_crl_this_update ch pos) (\<lambda>(this_update, pos).
     and_then (read_crl_next_update ch pos) (\<lambda>(next_update, pos).
     and_then (read_crl_revoked L ch pos) (\<lambda>(revoked_entries, pos).
     and_then (read_crl_extensions L pos) (\<lambda>pos.
       if pos \<noteq> [] then Inl (CrlTrailing FTbs)
       else Inr \<lparr>pc_tbs_bytes = tbs_bytes, pc_signature_algorithm = alg,
         pc_signature_bytes = signature_bytes, pc_issuer_der = issuer_der, pc_this_update = this_update,
         pc_next_update = next_update, pc_revoked_entries = revoked_entries\<rparr>))))))))"

definition parse_crl :: "lib \<Rightarrow> chrono \<Rightarrow> bytes \<Rightarrow> (crl_msg, parsed_crl) result" where
  "parse_crl L ch crl_der = and_then (parse_crl_envelope L crl_der) (parse_tbs L ch)"

subsection \<open>Signature and freshness\<close>

definition verify_crl_signature_with_policy ::
  "lib \<Rightarrow> crypto \<Rightarrow> parsed_crl \<Rightarrow> certificate \<Rightarrow> signature_policy \<Rightarrow> (crl_error, unit) result" where
  "verify_crl_signature_with_policy L K parsed issuer_cert policy =
     and_then (map_err CrlX509 (check_key_usage issuer_cert)) (\<lambda>ku.
     and_then (case ku of
         Some ku \<Rightarrow> if \<not> crl_sign ku then Inl (Crl (CrlKeyUsage ku)) else Inr ()
       | None \<Rightarrow> Inr ()) (\<lambda>_.
     and_then (ok_or (Crl CrlSpkiEncode) (spki_to_der L (subject_public_key_info issuer_cert))) (\<lambda>spki_der.
     and_then (ok_or (Crl CrlSignerName) (name_to_der L (subject issuer_cert))) (\<lambda>name_der.
       if name_der \<noteq> pc_issuer_der parsed then Inl (Crl CrlSignerMismatch)
       else map_err (\<lambda>e. Crl (CrlSignature e))
         (verify_signature_by_algid_with_policy K (pc_tbs_bytes parsed) (pc_signature_bytes parsed) spki_der
           (pc_signature_algorithm parsed) policy)))))"

definition verify_crl_signature ::
  "lib \<Rightarrow> crypto \<Rightarrow> parsed_crl \<Rightarrow> certificate \<Rightarrow> (crl_error, unit) result" where
  "verify_crl_signature L K parsed issuer_cert =
     verify_crl_signature_with_policy L K parsed issuer_cert policy_default"

record freshness =
  clock_skew :: int
  max_age_without_next_update :: int

definition crl_freshness_default :: freshness where
  "crl_freshness_default = \<lparr>clock_skew = 5 * 60, max_age_without_next_update = 24 * 60 * 60\<rparr>"

definition validate_crl_dates ::
  "datetime \<Rightarrow> datetime option \<Rightarrow> datetime \<Rightarrow> freshness \<Rightarrow> (crl_msg, unit) result" where
  "validate_crl_dates this_update next_update now fr =
     (case next_update of
        Some next \<Rightarrow>
          if next < this_update then Inl (CrlWindow next this_update)
          else if next + clock_skew fr < now then Inl (CrlStale next now)
          else Inr ()
      | None \<Rightarrow>
          if this_update + max_age_without_next_update fr + clock_skew fr < now
          then Inl (CrlTooOld this_update now)
          else Inr ())"

definition validate_crl_freshness :: "parsed_crl \<Rightarrow> datetime \<Rightarrow> freshness \<Rightarrow> (crl_msg, unit) result" where
  "validate_crl_freshness parsed now fr = validate_crl_dates (pc_this_update parsed) (pc_next_update parsed) now fr"

definition crl_is_current :: "lib \<Rightarrow> chrono \<Rightarrow> bytes \<Rightarrow> datetime \<Rightarrow> freshness \<Rightarrow> bool" where
  "crl_is_current L ch der now fr =
     (case parse_crl L ch der of
        Inl _ \<Rightarrow> False
      | Inr parsed \<Rightarrow>
          if now + clock_skew fr < pc_this_update parsed then False
          else is_ok (validate_crl_freshness parsed now fr))"

subsection \<open>The revocation check\<close>

definition get_cert_issuer_der :: "lib \<Rightarrow> certificate \<Rightarrow> (crl_msg, bytes) result" where
  "get_cert_issuer_der L cert = ok_or CrlCertIssuerEncode (name_to_der L (issuer cert))"

definition get_cert_serial_body :: "certificate \<Rightarrow> bytes" where
  "get_cert_serial_body cert = parse_integer_body (serial_number cert)"

text \<open>The search through the entries: the first with the serial number decides.\<close>

fun crl_lookup :: "bytes \<Rightarrow> datetime \<Rightarrow> revoked_entry list \<Rightarrow> 'm validation_status" where
  "crl_lookup cert_serial now [] = Valid SrcCrl now"
| "crl_lookup cert_serial now (entry # entries) =
     (if integer_bodies_equal (re_serial_number entry) cert_serial then
        if now < re_revocation_time entry then Valid SrcCrl now
        else Revoked SrcCrl (re_reason entry) (re_revocation_time entry)
      else crl_lookup cert_serial now entries)"

text \<open>\<open>wall_clock\<close> is \<open>Utc::now()\<close>, used when no validation time is given.\<close>

definition crl_check_revocation_with_options ::
  "lib \<Rightarrow> crypto \<Rightarrow> chrono \<Rightarrow> datetime \<Rightarrow> bytes \<Rightarrow> certificate \<Rightarrow> certificate \<Rightarrow> datetime option \<Rightarrow> signature_policy
    \<Rightarrow> freshness \<Rightarrow> (crl_error, 'm validation_status) result" where
  "crl_check_revocation_with_options L K ch wall_clock crl_der cert issuer_cert validation_time policy fr =
     (let now = (case validation_time of Some t \<Rightarrow> t | None \<Rightarrow> wall_clock) in
      and_then (map_err Crl (parse_crl L ch crl_der)) (\<lambda>parsed.
      and_then (verify_crl_signature_with_policy L K parsed issuer_cert policy) (\<lambda>_.
      and_then (map_err Crl (validate_crl_freshness parsed now fr)) (\<lambda>_.
      and_then (map_err Crl (get_cert_issuer_der L cert)) (\<lambda>cert_issuer_der.
        if pc_issuer_der parsed \<noteq> cert_issuer_der then Inl (Crl CrlIssuerMismatch)
        else Inr (crl_lookup (get_cert_serial_body cert) now (pc_revoked_entries parsed)))))))"

definition crl_check_revocation_with_policy ::
  "lib \<Rightarrow> crypto \<Rightarrow> chrono \<Rightarrow> datetime \<Rightarrow> bytes \<Rightarrow> certificate \<Rightarrow> certificate \<Rightarrow> datetime option \<Rightarrow> signature_policy
    \<Rightarrow> (crl_error, 'm validation_status) result" where
  "crl_check_revocation_with_policy L K ch wall_clock crl_der cert issuer_cert validation_time policy =
     crl_check_revocation_with_options L K ch wall_clock crl_der cert issuer_cert validation_time policy
       crl_freshness_default"

definition crl_check_revocation ::
  "lib \<Rightarrow> crypto \<Rightarrow> chrono \<Rightarrow> datetime \<Rightarrow> bytes \<Rightarrow> certificate \<Rightarrow> certificate \<Rightarrow> datetime option
    \<Rightarrow> (crl_error, 'm validation_status) result" where
  "crl_check_revocation L K ch wall_clock crl_der cert issuer_cert validation_time =
     crl_check_revocation_with_policy L K ch wall_clock crl_der cert issuer_cert validation_time policy_default"

end
