(* ===== verification/Crl_Facts.thy ===== *)
theory Crl_Facts
  imports Crl
begin

section \<open>What the CRL checks accept\<close>

text \<open>
  The language of the strict CRL parser as a grammar over the TLV encoder, the equivalence of the
  parser with it, and the conditions under which a CRL decides the status of a certificate.
\<close>

subsection \<open>The grammar\<close>

definition der_time :: "chrono \<Rightarrow> datetime \<Rightarrow> bytes \<Rightarrow> bool" where
  "der_time ch t part \<longleftrightarrow>
     (\<exists>tag body. tlv_fits tag body \<and> part = encode_tlv tag body \<and> parse_x509_time ch tag body = Inr t)"

text \<open>Extensions a complete CRL may carry: decodable, present, distinct, none critical, no
  certificateIssuer, and a defined reason code.\<close>

definition plain_extensions :: "lib \<Rightarrow> bytes \<Rightarrow> bool" where
  "plain_extensions L part \<longleftrightarrow>
     (\<exists>exts. extensions_from_der L part = Some exts \<and> exts \<noteq> [] \<and> distinct (map extn_id exts) \<and>
       (\<forall>e\<in>set exts. \<not> critical e \<and> extn_id e \<noteq> [2, 5, 29, 29] \<and>
         (extn_id e = [2, 5, 29, 21] \<longrightarrow>
           (\<exists>c. extn_value e = encode_tlv 0x0A [c] \<and> c \<le> 10 \<and> c \<notin> {7, 8}))))"

definition entry_grammar :: "lib \<Rightarrow> chrono \<Rightarrow> revoked_entry \<Rightarrow> bytes \<Rightarrow> bool" where
  "entry_grammar L ch e body \<longleftrightarrow>
     (\<exists>serial time exts. body = encode_tlv 0x02 serial @ time @ exts \<and> tlv_fits 0x02 serial
       \<and> der_time ch (re_revocation_time e) time \<and> (exts \<noteq> [] \<longrightarrow> plain_extensions L exts)
       \<and> re_serial_number e = parse_integer_body serial \<and> re_reason e = parse_revocation_reason exts)"

definition version_field :: "bytes \<Rightarrow> bool" where
  "version_field part \<longleftrightarrow> part = [] \<or> part = encode_tlv 0x02 [1]"

definition alg_field :: "lib \<Rightarrow> algorithm_identifier \<Rightarrow> bytes \<Rightarrow> bool" where
  "alg_field L alg part \<longleftrightarrow>
     (\<exists>body. tlv_fits 0x30 body \<and> part = encode_tlv 0x30 body \<and> algid_from_der L part = Some alg)"

definition next_update_field :: "chrono \<Rightarrow> datetime option \<Rightarrow> bytes \<Rightarrow> bool" where
  "next_update_field ch n part \<longleftrightarrow> (case n of None \<Rightarrow> part = [] | Some t \<Rightarrow> der_time ch t part)"

definition revoked_field :: "lib \<Rightarrow> chrono \<Rightarrow> revoked_entry list \<Rightarrow> bytes \<Rightarrow> bool" where
  "revoked_field L ch es part \<longleftrightarrow> part = [] \<and> es = []
     \<or> (\<exists>bodies. part = encode_tlv 0x30 (concat (map (encode_tlv 0x30) bodies))
          \<and> tlv_fits 0x30 (concat (map (encode_tlv 0x30) bodies))
          \<and> list_all2 (\<lambda>e body. tlv_fits 0x30 body \<and> entry_grammar L ch e body) es bodies)"

text \<open>No element of an extension list has the object identifier.\<close>

definition lacks_oid :: "bytes \<Rightarrow> bytes \<Rightarrow> bool" where
  "lacks_oid oid body \<longleftrightarrow>
     (\<exists>vs. body = concat (map (encode_tlv 0x30) vs) \<and>
       (\<forall>v\<in>set vs. tlv_fits 0x30 v \<and>
         (\<exists>t b r. v = encode_tlv t b @ r \<and> tlv_fits t b \<and> (t, b) \<noteq> (0x06, oid))))"

definition crl_extensions_field :: "lib \<Rightarrow> bytes \<Rightarrow> bool" where
  "crl_extensions_field L part \<longleftrightarrow> part = []
     \<or> (\<exists>body. part = encode_tlv 0xA0 (encode_tlv 0x30 body)
          \<and> tlv_fits 0xA0 (encode_tlv 0x30 body) \<and> tlv_fits 0x30 body
          \<and> lacks_oid DELTA_CRL_INDICATOR_OID body \<and> lacks_oid ISSUING_DIST_POINT_OID body
          \<and> plain_extensions L (encode_tlv 0x30 body))"

definition tbs_grammar :: "lib \<Rightarrow> chrono \<Rightarrow> parsed_crl \<Rightarrow> bytes \<Rightarrow> bool" where
  "tbs_grammar L ch p value \<longleftrightarrow>
     (\<exists>version alg this nxt revoked exts issuer_body.
        value = version @ alg @ pc_issuer_der p @ this @ nxt @ revoked @ exts
        \<and> version_field version \<and> alg_field L (pc_signature_algorithm p) alg
        \<and> pc_issuer_der p = encode_tlv 0x30 issuer_body \<and> tlv_fits 0x30 issuer_body
        \<and> der_time ch (pc_this_update p) this \<and> next_update_field ch (pc_next_update p) nxt
        \<and> revoked_field L ch (pc_revoked_entries p) revoked \<and> crl_extensions_field L exts)"

definition crl_grammar :: "lib \<Rightarrow> chrono \<Rightarrow> parsed_crl \<Rightarrow> bytes \<Rightarrow> bool" where
  "crl_grammar L ch p der \<longleftrightarrow>
     (\<exists>value alg body.
        der = encode_tlv 0x30 body \<and> tlv_fits 0x30 body
        \<and> body = pc_tbs_bytes p @ alg @ encode_tlv 0x03 (0 # pc_signature_bytes p)
        \<and> pc_tbs_bytes p = encode_tlv 0x30 value \<and> tlv_fits 0x30 value
        \<and> alg_field L (pc_signature_algorithm p) alg
        \<and> pc_signature_bytes p \<noteq> [] \<and> tlv_fits 0x03 (0 # pc_signature_bytes p)
        \<and> tbs_grammar L ch p value)"

subsection \<open>The fields\<close>

lemma hd_encode_tlv [simp]: "hd (encode_tlv t v) = t" "hd (encode_tlv t v @ r) = t"
  by (simp_all add: encode_tlv_def)

lemma tlv_take [simp]: "take (length (encode_tlv t v @ r) - length r) (encode_tlv t v @ r) = encode_tlv t v"
  by simp

lemma der_time_Cons: "der_time ch t part \<Longrightarrow> part \<noteq> [] \<and> (hd part = 0x17 \<or> hd part = 0x18)"
  by (auto simp: der_time_def parse_x509_time_def split: if_splits)

lemma validate_reason_value_iff:
  "validate_reason_value v = Inr () \<longleftrightarrow> (\<exists>c. v = encode_tlv 0x0A [c] \<and> c \<le> 10 \<and> c \<notin> {7, 8})"
    (is "?L \<longleftrightarrow> ?R")
proof
  assume ?L
  then obtain val where "v = encode_tlv 0x0A val" "length val = 1" "hd val \<le> 10" "hd val \<noteq> 7" "hd val \<noteq> 8"
    by (auto simp: validate_reason_value_def result_simps tlv_Inr_iff not_less split: if_splits)
  then show ?R by (cases val) auto
next
  assume ?R
  then show ?L
    by (auto simp: validate_reason_value_def parse_encode_tlv_exact tlv_fits_def not_less)
qed

lemma crl_extension_loop_iff:
  "crl_extension_loop seen exts = Inr () \<longleftrightarrow>
     distinct (map extn_id exts) \<and>
     (\<forall>e\<in>set exts. extn_id e \<notin> seen \<and> \<not> critical e \<and> extn_id e \<noteq> [2, 5, 29, 29] \<and>
       (extn_id e = [2, 5, 29, 21] \<longrightarrow> validate_reason_value (extn_value e) = Inr ()))"
proof (induction exts arbitrary: seen)
  case Nil
  then show ?case by simp
next
  case (Cons e exts)
  have "crl_extension_loop seen (e # exts) = Inr () \<longleftrightarrow>
    extn_id e \<notin> seen \<and> \<not> critical e \<and> extn_id e \<noteq> [2, 5, 29, 29] \<and>
    (extn_id e = [2, 5, 29, 21] \<longrightarrow> validate_reason_value (extn_value e) = Inr ()) \<and>
    crl_extension_loop (insert (extn_id e) seen) exts = Inr ()"
    by (simp add: result_simps)
  also have "\<dots> \<longleftrightarrow> distinct (map extn_id (e # exts)) \<and>
    (\<forall>e\<in>set (e # exts). extn_id e \<notin> seen \<and> \<not> critical e \<and> extn_id e \<noteq> [2, 5, 29, 29] \<and>
      (extn_id e = [2, 5, 29, 21] \<longrightarrow> validate_reason_value (extn_value e) = Inr ()))"
    unfolding Cons.IH by (force simp: image_iff)
  finally show ?case .
qed

lemma validate_crl_extensions_iff: "validate_crl_extensions L part = Inr () \<longleftrightarrow> plain_extensions L part"
  by (auto simp: validate_crl_extensions_def plain_extensions_def result_simps crl_extension_loop_iff
      validate_reason_value_iff)

lemma parse_revoked_entry_iff: "parse_revoked_entry L ch body = Inr e \<longleftrightarrow> entry_grammar L ch e body"
proof
  assume "parse_revoked_entry L ch body = Inr e"
  then obtain serial tag tb exts where
    "body = encode_tlv 0x02 serial @ encode_tlv tag tb @ exts" "tlv_fits 0x02 serial" "tlv_fits tag tb"
    "parse_x509_time ch tag tb = Inr (re_revocation_time e)"
    "(if exts \<noteq> [] then validate_crl_extensions L exts else Inr ()) = Inr ()"
    "re_serial_number e = parse_integer_body serial" "re_reason e = parse_revocation_reason exts"
    by (clarsimp simp: parse_revoked_entry_def result_simps tlv_Inr_iff)
  then show "entry_grammar L ch e body"
    unfolding entry_grammar_def der_time_def validate_crl_extensions_iff [symmetric] by (metis (full_types))
next
  assume "entry_grammar L ch e body"
  then show "parse_revoked_entry L ch body = Inr e"
    by (auto simp: entry_grammar_def der_time_def parse_revoked_entry_def parse_encode_tlv
        parse_encode_tlv_exact validate_crl_extensions_iff [symmetric])
qed

lemma parse_revoked_certificates_iff:
  "parse_revoked_certificates L ch pos acc = Inr es \<longleftrightarrow>
     (\<exists>new bodies. es = acc @ new \<and> pos = concat (map (encode_tlv 0x30) bodies)
        \<and> list_all2 (\<lambda>e body. tlv_fits 0x30 body \<and> entry_grammar L ch e body) new bodies)"
proof (induction L ch pos acc rule: parse_revoked_certificates.induct)
  case (1 L ch pos acc)
  show ?case
  proof (cases "pos = []")
    case True
    then show ?thesis
      by (subst parse_revoked_certificates.simps) (auto simp: list_all2_Cons2 intro: exI [of _ "[]"])
  next
    case False
    let ?R = "\<lambda>e body. tlv_fits 0x30 body \<and> entry_grammar L ch e body"
    have "parse_revoked_certificates L ch pos acc = Inr es \<longleftrightarrow>
      (\<exists>body rest e. parse_tlv_with_rest pos = Inr (0x30, body, rest) \<and> entry_grammar L ch e body
         \<and> parse_revoked_certificates L ch rest (acc @ [e]) = Inr es)"
      using False
      by (subst parse_revoked_certificates.simps)
        (auto simp: parse_revoked_entry_iff [symmetric] split: sum.splits)
    also have "\<dots> \<longleftrightarrow> (\<exists>body rest e. pos = encode_tlv 0x30 body @ rest \<and> ?R e body
         \<and> (\<exists>new bodies. es = (acc @ [e]) @ new \<and> rest = concat (map (encode_tlv 0x30) bodies)
              \<and> list_all2 ?R new bodies))"
      using 1 False by (fastforce simp: tlv_Inr_iff parse_revoked_entry_iff)
    also have "\<dots> \<longleftrightarrow> (\<exists>new bodies. es = acc @ new \<and> pos = concat (map (encode_tlv 0x30) bodies)
         \<and> list_all2 ?R new bodies)" (is "?A \<longleftrightarrow> ?B")
    proof
      assume ?A
      then obtain body rest e new bodies where "pos = encode_tlv 0x30 body @ rest" "?R e body"
        "es = (acc @ [e]) @ new" "rest = concat (map (encode_tlv 0x30) bodies)" "list_all2 ?R new bodies"
        by blast
      then show ?B by (intro exI [of _ "e # new"] exI [of _ "body # bodies"]) simp
    next
      assume ?B
      then obtain new bodies where nb: "es = acc @ new" "pos = concat (map (encode_tlv 0x30) bodies)"
        "list_all2 ?R new bodies" by blast
      with False obtain b bs where bs: "bodies = b # bs" by (cases bodies) auto
      with nb obtain e new' where "new = e # new'" "?R e b" "list_all2 ?R new' bs"
        by (auto simp: list_all2_Cons2)
      with nb bs show ?A by (intro exI [of _ b] exI [of _ "concat (map (encode_tlv 0x30) bs)"] exI [of _ e]) auto
    qed
    finally show ?thesis .
  qed
qed

lemma extensions_contain_oid_iff:
  "extensions_contain_oid body oid = Inr False \<longleftrightarrow> lacks_oid oid body"
proof (induction body oid rule: extensions_contain_oid.induct)
  case (1 pos oid)
  let ?ok = "\<lambda>v. tlv_fits 0x30 v \<and> (\<exists>t b r. v = encode_tlv t b @ r \<and> tlv_fits t b \<and> (t, b) \<noteq> (0x06, oid))"
  show ?case
  proof (cases "pos = []")
    case True
    then show ?thesis by (subst extensions_contain_oid.simps) (auto simp: lacks_oid_def intro: exI [of _ "[]"])
  next
    case False
    have "extensions_contain_oid pos oid = Inr False \<longleftrightarrow>
      (\<exists>v rest t b r. parse_tlv_with_rest pos = Inr (0x30, v, rest) \<and> parse_tlv_with_rest v = Inr (t, b, r)
         \<and> (t, b) \<noteq> (0x06, oid) \<and> extensions_contain_oid rest oid = Inr False)"
      using False by (subst extensions_contain_oid.simps) (auto split: sum.splits)
    also have "\<dots> \<longleftrightarrow> (\<exists>v rest. pos = encode_tlv 0x30 v @ rest \<and> ?ok v \<and> lacks_oid oid rest)"
    proof -
      have "extensions_contain_oid rest oid = Inr False \<longleftrightarrow> lacks_oid oid rest"
        if "tlv_fits 0x30 v" "pos = encode_tlv 0x30 v @ rest" "v = encode_tlv t b @ r" "tlv_fits t b" "(t, b) \<noteq> (0x06, oid)"
        for v rest t b r
        using 1 [OF _ _ refl refl] False that by (simp add: parse_encode_tlv)
      then show ?thesis unfolding tlv_Inr_iff by blast
    qed
    also have "\<dots> \<longleftrightarrow> lacks_oid oid pos" (is "?A \<longleftrightarrow> _")
    proof
      assume ?A
      then obtain v rest vs where "pos = encode_tlv 0x30 v @ rest" "?ok v"
        "rest = concat (map (encode_tlv 0x30) vs)" "\<forall>v\<in>set vs. ?ok v"
        unfolding lacks_oid_def by blast
      then show "lacks_oid oid pos" unfolding lacks_oid_def by (intro exI [of _ "v # vs"]) simp
    next
      assume "lacks_oid oid pos"
      then obtain vs where vs: "pos = concat (map (encode_tlv 0x30) vs)" "\<forall>v\<in>set vs. ?ok v"
        unfolding lacks_oid_def by blast
      with False obtain w ws where "vs = w # ws" by (cases vs) auto
      with vs show ?A
        unfolding lacks_oid_def
        by (intro exI [of _ w] exI [of _ "concat (map (encode_tlv 0x30) ws)"]) auto
    qed
    finally show ?thesis .
  qed
qed

text \<open>Each reader consumes exactly its field. For an optional field that is absent, what follows
  must not start with its tag.\<close>

lemma read_crl_version_iff:
  "read_crl_version pos = Inr rest \<longleftrightarrow>
     (\<exists>part. version_field part \<and> pos = part @ rest \<and> (part = [] \<longrightarrow> rest = [] \<or> hd rest \<noteq> 0x02))"
proof (cases "pos \<noteq> [] \<and> hd pos = 0x02")
  case True
  then have "read_crl_version pos = Inr rest \<longleftrightarrow> parse_tlv_with_rest pos = Inr (0x02, [1], rest)"
    by (cases "parse_tlv_with_rest pos") (auto simp: read_crl_version_def dest: parse_tlv_canonical split: if_splits)
  also have "\<dots> \<longleftrightarrow> pos = encode_tlv 0x02 [1] @ rest" by (simp add: tlv_Inr_iff tlv_fits_def)
  finally show ?thesis using True unfolding version_field_def by (metis append_Nil encode_tlv_neq_Nil(1))
next
  case False
  then show ?thesis by (auto simp: read_crl_version_def version_field_def)
qed

lemma read_crl_inner_algorithm_iff:
  "read_crl_inner_algorithm L alg pos = Inr rest \<longleftrightarrow> (\<exists>part. alg_field L alg part \<and> pos = part @ rest)"
  by (auto simp: read_crl_inner_algorithm_def alg_field_def result_simps tlv_Inr_iff parse_encode_tlv)

lemma read_crl_issuer_iff:
  "read_crl_issuer pos = Inr (part, rest) \<longleftrightarrow>
     (\<exists>body. tlv_fits 0x30 body \<and> part = encode_tlv 0x30 body \<and> pos = part @ rest)"
  by (auto simp: read_crl_issuer_def result_simps tlv_Inr_iff parse_encode_tlv)

lemma read_crl_this_update_iff:
  "read_crl_this_update ch pos = Inr (t, rest) \<longleftrightarrow> (\<exists>part. der_time ch t part \<and> pos = part @ rest)"
  by (auto simp: read_crl_this_update_def der_time_def result_simps tlv_Inr_iff parse_encode_tlv)

lemma read_crl_next_update_iff:
  "read_crl_next_update ch pos = Inr (n, rest) \<longleftrightarrow>
     (\<exists>part. next_update_field ch n part \<and> pos = part @ rest
       \<and> (part = [] \<longrightarrow> rest = [] \<or> hd rest \<notin> {0x17, 0x18}))"
proof (cases n)
  case None
  then show ?thesis
    by (auto simp: read_crl_next_update_def next_update_field_def result_simps)
next
  case (Some t)
  have "read_crl_next_update ch pos = Inr (Some t, rest) \<longleftrightarrow>
      pos \<noteq> [] \<and> (hd pos = 0x17 \<or> hd pos = 0x18) \<and> (\<exists>part. der_time ch t part \<and> pos = part @ rest)"
    by (auto simp: read_crl_next_update_def der_time_def result_simps tlv_Inr_iff parse_encode_tlv)
  also have "\<dots> \<longleftrightarrow> (\<exists>part. der_time ch t part \<and> pos = part @ rest)"
    using der_time_Cons by fastforce
  finally show ?thesis using Some der_time_Cons by (fastforce simp: next_update_field_def)
qed

lemma read_crl_revoked_iff:
  "read_crl_revoked L ch pos = Inr (es, rest) \<longleftrightarrow>
     (\<exists>part. revoked_field L ch es part \<and> pos = part @ rest \<and> (part = [] \<longrightarrow> rest = [] \<or> hd rest \<noteq> 0x30))"
proof (cases "pos \<noteq> [] \<and> hd pos = 0x30")
  case True
  have "read_crl_revoked L ch pos = Inr (es, rest) \<longleftrightarrow>
      (\<exists>body. parse_tlv_with_rest pos = Inr (0x30, body, rest) \<and> parse_revoked_certificates L ch body [] = Inr es)"
    using True by (auto simp: read_crl_revoked_def result_simps tlv_Inr_iff)
  then show ?thesis
    using True
    by (fastforce simp: parse_revoked_certificates_iff tlv_Inr_iff revoked_field_def parse_encode_tlv)
next
  case False
  then show ?thesis by (auto simp: read_crl_revoked_def revoked_field_def)
qed

lemma read_crl_extensions_iff:
  "read_crl_extensions L pos = Inr [] \<longleftrightarrow> crl_extensions_field L pos"
proof
  assume "read_crl_extensions L pos = Inr []"
  then show "crl_extensions_field L pos"
    by (auto simp: read_crl_extensions_def crl_extensions_field_def result_simps tlv_Inr_iff
        extensions_contain_oid_iff [symmetric] validate_crl_extensions_iff split: if_splits)
next
  assume "crl_extensions_field L pos"
  then show "read_crl_extensions L pos = Inr []"
    by (auto simp: read_crl_extensions_def crl_extensions_field_def parse_encode_tlv_exact
        extensions_contain_oid_iff [symmetric] validate_crl_extensions_iff [symmetric])
qed

lemma drop_tlv_header: "n = length b \<Longrightarrow> drop (length (encode_tlv t b) - n) (encode_tlv t b) = b"
  by (simp add: encode_tlv_def)

lemma parse_crl_envelope_iff:
  "parse_crl_envelope L der = Inr (tbs, value, alg, sig) \<longleftrightarrow>
     (\<exists>part body. der = encode_tlv 0x30 body \<and> tlv_fits 0x30 body
        \<and> body = tbs @ part @ encode_tlv 0x03 (0 # sig)
        \<and> tbs = encode_tlv 0x30 value \<and> tlv_fits 0x30 value \<and> alg_field L alg part
        \<and> sig \<noteq> [] \<and> tlv_fits 0x03 (0 # sig))" (is "?L \<longleftrightarrow> ?R")
proof
  assume ?L
  then obtain body rest ab r sv where p: "parse_tlv_with_rest der = Inr (0x30, body, [])"
    "parse_tlv_with_rest body = Inr (0x30, value, rest)" "parse_tlv_with_rest rest = Inr (0x30, ab, r)"
    "parse_tlv_with_rest r = Inr (0x03, sv, [])" "algid_from_der L (take (length rest - length r) rest) = Some alg"
    "2 \<le> length sv" "hd sv = 0" "sig = tl sv"
    and t: "tbs = take (length body - length rest) (drop (length der - length body) der)"
    by (clarsimp simp: parse_crl_envelope_def result_simps Let_def not_less)
  from p have der: "der = encode_tlv 0x30 body" "body = encode_tlv 0x30 value @ rest"
    "rest = encode_tlv 0x30 ab @ r" "r = encode_tlv 0x03 sv"
    and fits: "tlv_fits 0x30 body" "tlv_fits 0x30 value" "tlv_fits 0x30 ab" "tlv_fits 0x03 sv"
    by (simp_all only: tlv_Inr_iff append_Nil2)
  have "drop (length der - length body) der = body" unfolding der(1) by (rule drop_tlv_header) simp
  with t der(2) have "tbs = encode_tlv 0x30 value" by simp
  moreover from p have "sv = 0 # sig" "sig \<noteq> []" by (cases sv; auto)+
  moreover from p der(3) fits have "alg_field L alg (encode_tlv 0x30 ab)" by (auto simp: alg_field_def)
  ultimately show ?R using der fits by metis
next
  assume ?R
  then show ?L
    by (auto simp: parse_crl_envelope_def alg_field_def parse_encode_tlv parse_encode_tlv_exact Let_def
        drop_tlv_header Suc_le_eq)
qed

subsection \<open>The parser\<close>

lemma alg_field_hd: "alg_field L alg part \<Longrightarrow> part \<noteq> [] \<and> hd part = 0x30"
  by (auto simp: alg_field_def)

lemma crl_extensions_field_hd: "crl_extensions_field L part \<Longrightarrow> part = [] \<or> hd part = 0xA0"
  by (auto simp: crl_extensions_field_def)

lemma revoked_field_hd: "revoked_field L ch es part \<Longrightarrow> part = [] \<or> hd part = 0x30"
  by (auto simp: revoked_field_def)

lemma parse_tbs_steps:
  "parse_tbs L ch (tbs, value, alg, sig) = Inr p \<longleftrightarrow>
     pc_tbs_bytes p = tbs \<and> pc_signature_algorithm p = alg \<and> pc_signature_bytes p = sig \<and>
     (\<exists>p1 p2 p3 p4 p5 p6. read_crl_version value = Inr p1 \<and> read_crl_inner_algorithm L alg p1 = Inr p2
        \<and> read_crl_issuer p2 = Inr (pc_issuer_der p, p3) \<and> read_crl_this_update ch p3 = Inr (pc_this_update p, p4)
        \<and> read_crl_next_update ch p4 = Inr (pc_next_update p, p5)
        \<and> read_crl_revoked L ch p5 = Inr (pc_revoked_entries p, p6) \<and> read_crl_extensions L p6 = Inr [])"
  by (cases p) (auto simp: parse_tbs_def result_simps)

lemma parse_tbs_iff:
  "parse_tbs L ch (tbs, value, alg, sig) = Inr p \<longleftrightarrow>
     pc_tbs_bytes p = tbs \<and> pc_signature_algorithm p = alg \<and> pc_signature_bytes p = sig \<and> tbs_grammar L ch p value"
proof (intro iffI conjI; (elim conjE)?)
  assume s: "parse_tbs L ch (tbs, value, alg, sig) = Inr p"
  then show "pc_tbs_bytes p = tbs" "pc_signature_algorithm p = alg" "pc_signature_bytes p = sig"
    by (simp_all add: parse_tbs_steps)
  from s show "tbs_grammar L ch p value"
    unfolding parse_tbs_steps tbs_grammar_def read_crl_version_iff read_crl_inner_algorithm_iff
      read_crl_issuer_iff read_crl_this_update_iff read_crl_next_update_iff read_crl_revoked_iff
      read_crl_extensions_iff
    by (elim exE conjE) (metis (no_types, lifting))
next
  assume "pc_tbs_bytes p = tbs" "pc_signature_algorithm p = alg" "pc_signature_bytes p = sig"
    "tbs_grammar L ch p value"
  then obtain version inner this nxt revoked exts body where
    v: "value = version @ inner @ pc_issuer_der p @ this @ nxt @ revoked @ exts" "version_field version"
    and fields: "alg_field L alg inner" "pc_issuer_der p = encode_tlv 0x30 body" "tlv_fits 0x30 body"
    "der_time ch (pc_this_update p) this" "next_update_field ch (pc_next_update p) nxt"
    "revoked_field L ch (pc_revoked_entries p) revoked" "crl_extensions_field L exts"
    and p: "pc_tbs_bytes p = tbs" "pc_signature_algorithm p = alg" "pc_signature_bytes p = sig"
    unfolding tbs_grammar_def by blast
  let ?p6 = exts and ?p5 = "revoked @ exts" and ?p4 = "nxt @ revoked @ exts"
  have "read_crl_version value = Inr (inner @ pc_issuer_der p @ this @ ?p4)"
    using v alg_field_hd [OF fields(1)] by (auto simp: read_crl_version_iff)
  moreover have "read_crl_next_update ch ?p4 = Inr (pc_next_update p, ?p5)"
    using fields(5) revoked_field_hd [OF fields(6)] crl_extensions_field_hd [OF fields(7)]
    by (auto simp: read_crl_next_update_iff hd_append)
  moreover have "read_crl_revoked L ch ?p5 = Inr (pc_revoked_entries p, ?p6)"
    using fields(6) crl_extensions_field_hd [OF fields(7)] by (auto simp: read_crl_revoked_iff)
  moreover have "read_crl_inner_algorithm L alg (inner @ pc_issuer_der p @ this @ ?p4) = Inr (pc_issuer_der p @ this @ ?p4)"
    using fields(1) by (auto simp: read_crl_inner_algorithm_iff)
  moreover have "read_crl_issuer (pc_issuer_der p @ this @ ?p4) = Inr (pc_issuer_der p, this @ ?p4)"
    using fields(2,3) by (auto simp: read_crl_issuer_iff)
  moreover have "read_crl_this_update ch (this @ ?p4) = Inr (pc_this_update p, ?p4)"
    using fields(4) by (auto simp: read_crl_this_update_iff)
  moreover have "read_crl_extensions L exts = Inr []" using fields(7) by (simp add: read_crl_extensions_iff)
  ultimately show "parse_tbs L ch (tbs, value, alg, sig) = Inr p"
    unfolding parse_tbs_steps using p by blast
qed

text \<open>C19: \<open>parse_crl\<close> accepts exactly the byte strings of the CRL grammar: one SEQUENCE with nothing
  after it, a version 2 or absent version, the same algorithm identifier inside and outside the signed
  part, an issuer, the update times, a list of entries and extensions of which none is critical, a delta
  indicator, an issuing distribution point or a certificate issuer; and it returns the fields that
  stand there, with the signed bytes as they are in the input.\<close>

theorem parse_crl_iff: "parse_crl L ch der = Inr p \<longleftrightarrow> crl_grammar L ch p der"
  unfolding parse_crl_def and_then_Inr_iff crl_grammar_def
  by (auto simp: parse_crl_envelope_iff parse_tbs_iff)

text \<open>C20: The signed bytes determine what the check relies on: two accepted CRLs with the same
  to-be-signed bytes agree on the algorithm, the issuer, both update times and every entry.\<close>

theorem signed_bytes_determine_crl:
  assumes "parse_crl L ch d1 = Inr p1" and "parse_crl L ch d2 = Inr p2"
    and "pc_tbs_bytes p1 = pc_tbs_bytes p2"
  shows "p2 = p1\<lparr>pc_signature_bytes := pc_signature_bytes p2\<rparr>"
proof -
  from assms obtain v1 v2 a1 a2 s1 s2 where
    t: "pc_tbs_bytes p1 = encode_tlv 0x30 v1" "tlv_fits 0x30 v1"
       "pc_tbs_bytes p2 = encode_tlv 0x30 v2" "tlv_fits 0x30 v2"
    and s: "parse_tbs L ch (pc_tbs_bytes p1, v1, a1, s1) = Inr p1" "parse_tbs L ch (pc_tbs_bytes p2, v2, a2, s2) = Inr p2"
    by (auto simp: parse_crl_def and_then_Inr_iff parse_crl_envelope_iff parse_tbs_iff)
  with assms(3) have "v2 = v1" using der.enc_inject by metis
  moreover from s have "a1 = pc_signature_algorithm p1" "a2 = pc_signature_algorithm p2" by (simp_all add: parse_tbs_steps)
  ultimately have "pc_signature_algorithm p1 = pc_signature_algorithm p2"
    using s by (auto simp: parse_tbs_steps read_crl_inner_algorithm_def result_simps)
  with s \<open>v2 = v1\<close> \<open>a1 = _\<close> \<open>a2 = _\<close> have
    "pc_issuer_der p1 = pc_issuer_der p2 \<and> pc_this_update p1 = pc_this_update p2
     \<and> pc_next_update p1 = pc_next_update p2 \<and> pc_revoked_entries p1 = pc_revoked_entries p2"
    by (auto simp: parse_tbs_steps)
  with assms(3) \<open>pc_signature_algorithm p1 = _\<close> show ?thesis by simp
qed

text \<open>A list with one entry, serial number 5, revoked at noon of the calendar's day.\<close>

definition toy_noon :: bytes where
  "toy_noon = 0x17 # 13 # ascii ''260303120000Z''"

definition toy_crl :: "u8 \<Rightarrow> bytes" where
  "toy_crl s = [0x30, 0x34, 0x30, 0x2C, 2, 1, 1, 0x30, 0, 0x30, 0] @ toy_noon
     @ [0x30, 0x14, 0x30, 0x12, 2, 1, 5] @ toy_noon @ [0x30, 0, 3, 2, 0, s]"

definition toy_parsed :: "u8 \<Rightarrow> parsed_crl" where
  "toy_parsed s = \<lparr>pc_tbs_bytes = [0x30, 0x2C, 2, 1, 1, 0x30, 0, 0x30, 0] @ toy_noon @ [0x30, 0x14, 0x30, 0x12, 2, 1, 5] @ toy_noon,
     pc_signature_algorithm = \<lparr>alg_oid = [1, 3, 101, 112], alg_parameters = None\<rparr>, pc_signature_bytes = [s],
     pc_issuer_der = [0x30, 0], pc_this_update = 20515 * 86400 + 43200, pc_next_update = None,
     pc_revoked_entries = [\<lparr>re_serial_number = [5], re_revocation_time = 20515 * 86400 + 43200, re_reason = Unspecified\<rparr>]\<rparr>"

lemma toy_noon_time: "parse_x509_time toy_chrono 0x17 (ascii ''260303120000Z'') = Inr (20515 * 86400 + 43200)"
  by (simp add: parse_x509_time_def time_eval toy_chrono_def)

lemma toy_noon_tlv: "parse_tlv_with_rest (toy_noon @ rest) = Inr (0x17, ascii ''260303120000Z'', rest)"
  by (simp add: toy_noon_def ascii_def tlv_eval)

lemma toy_crl_parses: "parse_crl toy_lib toy_chrono (toy_crl s) = Inr (toy_parsed s)"
proof -
  let ?entry = "[2, 1, 5] @ toy_noon" and ?v = "[2, 1, 1, 0x30, 0, 0x30, 0] @ toy_noon @ [0x30, 0x14, 0x30, 0x12, 2, 1, 5] @ toy_noon"
  have env: "parse_crl_envelope toy_lib (toy_crl s) = Inr (0x30 # 0x2C # ?v, ?v,
      \<lparr>alg_oid = [1, 3, 101, 112], alg_parameters = None\<rparr>, [s])"
    by (simp add: parse_crl_envelope_def toy_crl_def toy_noon_def ascii_def tlv_eval toy_lib_def Let_def)
  have "parse_revoked_entry toy_lib toy_chrono ?entry
      = Inr \<lparr>re_serial_number = [5], re_revocation_time = 20515 * 86400 + 43200, re_reason = Unspecified\<rparr>"
    using toy_noon_tlv [of "[]"] toy_noon_time
    by (simp add: parse_revoked_entry_def tlv_eval parse_integer_body_def parse_revocation_reason_def)
  then have rev: "read_crl_revoked toy_lib toy_chrono ([0x30, 0x14, 0x30, 0x12, 2, 1, 5] @ toy_noon)
      = Inr ([\<lparr>re_serial_number = [5], re_revocation_time = 20515 * 86400 + 43200, re_reason = Unspecified\<rparr>], [])"
    by (simp add: read_crl_revoked_def parse_revoked_certificates.simps toy_noon_def ascii_def tlv_eval)
  have head: "read_crl_version (2 # 1 # 1 # r) = Inr r"
    "read_crl_inner_algorithm toy_lib \<lparr>alg_oid = [1, 3, 101, 112], alg_parameters = None\<rparr> (0x30 # 0 # r) = Inr r"
    "read_crl_issuer (0x30 # 0 # r) = Inr ([0x30, 0], r)" for r
    by (simp_all add: read_crl_version_def read_crl_inner_algorithm_def read_crl_issuer_def tlv_eval toy_lib_def)
  have time: "read_crl_this_update toy_chrono (toy_noon @ r) = Inr (20515 * 86400 + 43200, r)" for r
    by (simp add: read_crl_this_update_def toy_noon_tlv toy_noon_time)
  show ?thesis
    using env rev head time
    by (simp add: parse_crl_def parse_tbs_def toy_parsed_def read_crl_next_update_def read_crl_extensions_def)
qed

theorem signed_bytes_determine_crl_witness:
  "toy_parsed 6 = (toy_parsed 5)\<lparr>pc_signature_bytes := pc_signature_bytes (toy_parsed 6)\<rparr>"
  by (rule signed_bytes_determine_crl [of toy_lib toy_chrono "toy_crl 5" _ "toy_crl 6"])
    (simp_all add: toy_crl_parses, simp add: toy_parsed_def)

subsection \<open>When a CRL decides\<close>

text \<open>The list is signed by the key of the certificate, which bears its issuer name and may sign CRLs.\<close>

definition signed_by :: "lib \<Rightarrow> crypto \<Rightarrow> signature_policy \<Rightarrow> certificate \<Rightarrow> parsed_crl \<Rightarrow> bool" where
  "signed_by L K policy signer p \<longleftrightarrow>
     (check_key_usage signer = Inr None \<or> (\<exists>ku. check_key_usage signer = Inr (Some ku) \<and> crl_sign ku))
     \<and> name_to_der L (subject signer) = Some (pc_issuer_der p)
     \<and> (\<exists>spki. spki_to_der L (subject_public_key_info signer) = Some spki
          \<and> verify_signature_by_algid_with_policy K (pc_tbs_bytes p) (pc_signature_bytes p) spki
              (pc_signature_algorithm p) policy = Inr ())"

definition fresh :: "freshness \<Rightarrow> datetime \<Rightarrow> parsed_crl \<Rightarrow> bool" where
  "fresh fr now p \<longleftrightarrow>
     (case pc_next_update p of
        Some nxt \<Rightarrow> pc_this_update p \<le> nxt \<and> now \<le> nxt + clock_skew fr
      | None \<Rightarrow> now \<le> pc_this_update p + max_age_without_next_update fr + clock_skew fr)"

text \<open>The status the entries give a serial number at a time.\<close>

definition listed_status :: "revoked_entry list \<Rightarrow> bytes \<Rightarrow> datetime \<Rightarrow> 'm validation_status" where
  "listed_status es serial now =
     (case find (\<lambda>e. integer_bodies_equal (re_serial_number e) serial) es of
        Some e \<Rightarrow> if re_revocation_time e \<le> now then Revoked SrcCrl (re_reason e) (re_revocation_time e)
                  else Valid SrcCrl now
      | None \<Rightarrow> Valid SrcCrl now)"

lemma crl_lookup_eq: "crl_lookup serial now es = listed_status es serial now"
  by (induction serial now es rule: crl_lookup.induct) (auto simp: listed_status_def)

lemma verify_crl_signature_iff:
  "verify_crl_signature_with_policy L K p signer policy = Inr () \<longleftrightarrow> signed_by L K policy signer p"
  by (auto simp: verify_crl_signature_with_policy_def signed_by_def result_simps split: option.splits)

lemma validate_crl_freshness_iff: "validate_crl_freshness p now fr = Inr () \<longleftrightarrow> fresh fr now p"
  by (auto simp: validate_crl_freshness_def validate_crl_dates_def fresh_def not_less split: option.splits)

text \<open>C18: The CRL check gives a status exactly when the list is in the grammar, is signed by the given
  issuer's key under the policy, names that issuer and the certificate's issuer alike, and is not stale;
  the status is then that of the first entry with the certificate's serial number, which counts once its
  revocation time has come, and \<open>Valid\<close> otherwise.\<close>

theorem crl_check_revocation_iff:
  "crl_check_revocation_with_options L K ch clock der cert signer vt policy fr = Inr st \<longleftrightarrow>
     (\<exists>p now. now = (case vt of Some t \<Rightarrow> t | None \<Rightarrow> clock) \<and> parse_crl L ch der = Inr p
        \<and> signed_by L K policy signer p \<and> fresh fr now p
        \<and> name_to_der L (issuer cert) = Some (pc_issuer_der p)
        \<and> st = listed_status (pc_revoked_entries p) (get_cert_serial_body cert) now)"
  unfolding verify_crl_signature_iff [symmetric] validate_crl_freshness_iff [symmetric]
    crl_check_revocation_with_options_def
  by (auto simp: Let_def result_simps get_cert_issuer_der_def crl_lookup_eq)

end
