(* ===== verification/Http_Client.thy ===== *)
theory Http_Client
  imports Net Algorithm
begin

section \<open>The HTTP client (\<open>src/src/net.rs\<close>)\<close>

text \<open>
  How the hardened client is put together, and what that means for the connections it makes. The
  HTTP library is not modelled: a client is the configuration given to it, and the connections of a
  request are any sequence that obeys what the library documents of that configuration.
\<close>

subsection \<open>Redirects and name resolution\<close>

datatype redirect_action = RedirectError | RedirectStop | RedirectFollow

definition MAX_REDIRECTS :: nat where "MAX_REDIRECTS = 5"

text \<open>\<open>previous\<close> are the URLs requested so far, \<open>host_str\<close> the host of the URL redirected to.\<close>

definition redirect_policy :: "rstr list \<Rightarrow> rstr option \<Rightarrow> redirect_action" where
  "redirect_policy previous host_str =
     (if MAX_REDIRECTS \<le> length previous then RedirectError
      else case host_str of
             Some host \<Rightarrow>
               (case parse_ip_addr (unbracket host) of
                  Some ip \<Rightarrow> if is_disallowed_ip ip then RedirectStop else RedirectFollow
                | None \<Rightarrow> RedirectFollow)
           | None \<Rightarrow> RedirectFollow)"

definition public_dns_resolve :: "resolver \<Rightarrow> rstr \<Rightarrow> (url_guard_error, ip_addr list) result" where
  "public_dns_resolve R host = resolve_public_host R host 0"

subsection \<open>Construction\<close>

definition DEFAULT_CONNECT_TIMEOUT :: nat where "DEFAULT_CONNECT_TIMEOUT = 10"
definition DEFAULT_REQUEST_TIMEOUT :: nat where "DEFAULT_REQUEST_TIMEOUT = 30"

text \<open>The TLS configuration and the self-description of the backend, which the code only passes on.\<close>

datatype tls_config = TlsConfig string
datatype backend_info = BackendInfo string

text \<open>A client of the HTTP library as its builder is configured.\<close>

record http_client =
  redirect :: "rstr list \<Rightarrow> rstr option \<Rightarrow> redirect_action"
  dns_resolver :: "resolver \<Rightarrow> rstr \<Rightarrow> (url_guard_error, ip_addr list) result"
  no_proxy :: bool
  connect_timeout :: nat
  request_timeout :: nat
  preconfigured_tls :: tls_config

record attested_http_client =
  client_inner :: http_client
  client_backend :: backend_info
  client_verified :: bool

definition client_backend_info :: "attested_http_client \<Rightarrow> backend_info" where
  "client_backend_info c = client_backend c"

definition client_is_verified :: "attested_http_client \<Rightarrow> bool" where
  "client_is_verified c = client_verified c"

datatype http_client_error = HttpCrypto riptering_error | HttpBuild

text \<open>What the backend and the HTTP library answer: the TLS configuration for the built-in roots,
  whether a configured client can be built, and the description of the backend.\<close>

record http_platform =
  tls_client_config :: "(riptering_error, tls_config) result"
  client_builds :: "http_client \<Rightarrow> bool"
  platform_backend :: "(riptering_error, backend_info) result"

definition build_attested_http_client ::
  "http_platform \<Rightarrow> tls_config \<Rightarrow> (http_client \<Rightarrow> http_client) \<Rightarrow> (http_client_error, attested_http_client) result" where
  "build_attested_http_client P tls configure =
     (let builder = \<lparr>redirect = redirect_policy, dns_resolver = public_dns_resolve, no_proxy = True,
            connect_timeout = DEFAULT_CONNECT_TIMEOUT, request_timeout = DEFAULT_REQUEST_TIMEOUT, preconfigured_tls = tls\<rparr>;
          inner = configure builder in
      if \<not> client_builds P inner then Inl HttpBuild
      else
      and_then (map_err HttpCrypto (platform_backend P)) (\<lambda>b.
        Inr \<lparr>client_inner = inner, client_backend = b, client_verified = True\<rparr>))"

definition make_attested_http_client ::
  "http_platform \<Rightarrow> tls_config \<Rightarrow> (http_client_error, attested_http_client) result" where
  "make_attested_http_client P tls = build_attested_http_client P tls (\<lambda>builder. builder)"

definition hardened_http_client :: "http_platform \<Rightarrow> (http_client_error, attested_http_client) result" where
  "hardened_http_client P = and_then (map_err HttpCrypto (tls_client_config P)) (make_attested_http_client P)"

text \<open>Not in builds with the feature \<open>fips\<close>.\<close>

definition unverified_http_client ::
  "http_platform \<Rightarrow> http_client \<Rightarrow> (http_client_error, attested_http_client) result" where
  "unverified_http_client P client =
     and_then (map_err HttpCrypto (platform_backend P)) (\<lambda>b.
       Inr \<lparr>client_inner = client, client_backend = b, client_verified = False\<rparr>)"

subsection \<open>The connections of a request\<close>

text \<open>
  A connection is the URL requested, the name resolution of that moment, and the address connected
  to. What the HTTP library documents: without a proxy it connects to the address in the URL or to
  one its resolver returns for the host; it requests the target of a redirect when the policy, given
  the URLs requested before, says to follow it.
\<close>

type_synonym name_lookup = "rstr \<Rightarrow> nat \<Rightarrow> ip_addr list option"
type_synonym connection = "rstr \<times> name_lookup \<times> ip_addr"

definition url_host :: "resolver \<Rightarrow> rstr \<Rightarrow> rstr option" where
  "url_host R u = (case url_parse R u of Some parsed \<Rightarrow> url_host_str parsed | None \<Rightarrow> None)"

definition connects :: "http_client \<Rightarrow> resolver \<Rightarrow> connection \<Rightarrow> bool" where
  "connects C R = (\<lambda>(u, lookup, ip).
     if no_proxy C then
       (case url_host R u of
          None \<Rightarrow> False
        | Some host \<Rightarrow>
            (case parse_ip_addr (unbracket host) of
               Some lit \<Rightarrow> ip = lit
             | None \<Rightarrow>
                 (case dns_resolver C (R\<lparr>to_socket_addrs := lookup\<rparr>) host of
                    Inr addrs \<Rightarrow> ip \<in> set addrs
                  | Inl _ \<Rightarrow> False)))
     else True)"

fun exchange :: "http_client \<Rightarrow> resolver \<Rightarrow> rstr list \<Rightarrow> connection list \<Rightarrow> bool" where
  "exchange C R previous [] = True"
| "exchange C R previous [c] = connects C R c"
| "exchange C R previous (c # nxt # conns) =
     (connects C R c
      \<and> redirect C (previous @ [fst c]) (url_host R (fst nxt)) = RedirectFollow
      \<and> exchange C R (previous @ [fst c]) (nxt # conns))"

fun_cases exchange_stepE: "exchange C R previous (c # nxt # conns)"

definition public_connection :: "connection \<Rightarrow> bool" where
  "public_connection c \<longleftrightarrow> \<not> is_disallowed_ip (snd (snd c))"

subsection \<open>Facts\<close>

text \<open>The configuration every hardened client has.\<close>

definition hardened :: "http_client \<Rightarrow> bool" where
  "hardened C \<longleftrightarrow> redirect C = redirect_policy \<and> dns_resolver C = public_dns_resolve \<and> no_proxy C"

lemma hardened_http_client_hardened:
  "hardened_http_client P = Inr c \<Longrightarrow> hardened (client_inner c) \<and> client_verified c
     \<and> connect_timeout (client_inner c) = DEFAULT_CONNECT_TIMEOUT \<and> request_timeout (client_inner c) = DEFAULT_REQUEST_TIMEOUT"
  by (auto simp: hardened_http_client_def make_attested_http_client_def build_attested_http_client_def hardened_def
      Let_def result_simps split: if_splits)

text \<open>A host name connects to public addresses only; a literal is connected to as it is.\<close>

lemma connects_public:
  assumes "hardened C" "connects C R c"
    and "\<And>host ip. url_host R (fst c) = Some host \<Longrightarrow> parse_ip_addr (unbracket host) = Some ip \<Longrightarrow> \<not> is_disallowed_ip ip"
  shows "public_connection c"
  using assms
  by (auto simp: hardened_def connects_def public_connection_def public_dns_resolve_def resolve_public_host_def
      validate_resolved_addresses_iff result_simps split: prod.splits option.splits sum.splits)

lemma redirect_policy_follow:
  "redirect_policy previous h = RedirectFollow \<Longrightarrow> length previous < MAX_REDIRECTS
     \<and> (\<forall>host ip. h = Some host \<longrightarrow> parse_ip_addr (unbracket host) = Some ip \<longrightarrow> \<not> is_disallowed_ip ip)"
  by (auto simp: redirect_policy_def split: if_splits option.splits)

text \<open>An exchange whose first URL is not a refused literal stays public, redirects included.\<close>

lemma exchange_public:
  assumes "hardened C" "exchange C R previous conns" "length previous < MAX_REDIRECTS"
    and "\<And>host ip. conns \<noteq> [] \<Longrightarrow> url_host R (fst (hd conns)) = Some host \<Longrightarrow>
      parse_ip_addr (unbracket host) = Some ip \<Longrightarrow> \<not> is_disallowed_ip ip"
  shows "list_all public_connection conns \<and> length previous + length conns \<le> MAX_REDIRECTS"
  using assms
proof (induction C R previous conns rule: exchange.induct)
  case (3 C R previous c nxt conns)
  from "3.prems"(2) have step: "connects C R c" "redirect C (previous @ [fst c]) (url_host R (fst nxt)) = RedirectFollow"
      "exchange C R (previous @ [fst c]) (nxt # conns)"
    by (blast elim: exchange_stepE)+
  from step(2) "3.prems"(1) have "redirect_policy (previous @ [fst c]) (url_host R (fst nxt)) = RedirectFollow"
    by (simp add: hardened_def)
  note follow = redirect_policy_follow [OF this]
  from step(1) "3.prems" have "public_connection c" by (intro connects_public [of C R]) auto
  moreover have "list_all public_connection (nxt # conns) \<and> length (previous @ [fst c]) + length (nxt # conns) \<le> MAX_REDIRECTS"
    using step(3) follow by (intro "3.IH" "3.prems"(1)) auto
  ultimately show ?case by simp
qed (auto intro: connects_public)

lemma guard_literal:
  assumes "validate_fetch_url R u = Inr ()" "url_host R u = Some host" "parse_ip_addr (unbracket host) = Some ip"
  shows "\<not> is_disallowed_ip ip"
  using assms by (auto simp: validate_fetch_url_def url_host_def Let_def result_simps split: option.splits if_splits)

text \<open>A request of a hardened client to a URL that passed the guard.\<close>

lemma hardened_exchange:
  assumes "hardened C" "validate_fetch_url R u = Inr ()" "exchange C R [] ((u, lookup, ip) # conns)"
  shows "list_all public_connection ((u, lookup, ip) # conns) \<and> length conns < MAX_REDIRECTS"
proof -
  have "list_all public_connection ((u, lookup, ip) # conns)
      \<and> length ([] :: rstr list) + length ((u, lookup, ip) # conns) \<le> MAX_REDIRECTS"
    using assms(2) by (intro exchange_public [OF assms(1,3)]) (auto simp: MAX_REDIRECTS_def dest: guard_literal)
  then show ?thesis by simp
qed

subsection \<open>The clients\<close>

text \<open>A request to \<open>u\<close>, checked by the guard with \<open>R\<close>, that can only connect to public addresses.\<close>

definition public_request :: "attested_http_client \<Rightarrow> resolver \<Rightarrow> rstr \<Rightarrow> bool" where
  "public_request http R u \<longleftrightarrow> validate_fetch_url R u = Inr () \<and>
     (\<forall>lookup ip conns. exchange (client_inner http) R [] ((u, lookup, ip) # conns) \<longrightarrow>
        list_all public_connection ((u, lookup, ip) # conns) \<and> length conns < MAX_REDIRECTS)"

text \<open>The contract that the clients for CRLs, OCSP, issuers and timestamps share: \<open>sent c x\<close> are the URLs
  that the call \<open>x\<close> of the client \<open>c\<close> requests, and the resolvers the guard may have used are \<open>guards x\<close>.\<close>

locale guarded_client =
  fixes http :: "'c \<Rightarrow> attested_http_client"
    and sent :: "'c \<Rightarrow> 'x \<Rightarrow> rstr list"
    and guards :: "'x \<Rightarrow> resolver set"
  assumes guarded: "u \<in> set (sent c x) \<Longrightarrow> \<exists>R\<in>guards x. validate_fetch_url R u = Inr ()"
begin

lemma requests_public:
  assumes "hardened_http_client P = Inr (http c)" "u \<in> set (sent c x)"
  shows "\<exists>R\<in>guards x. public_request (http c) R u"
proof -
  from guarded [OF assms(2)] obtain R where "R \<in> guards x" "validate_fetch_url R u = Inr ()" by blast
  moreover from hardened_http_client_hardened [OF assms(1)] have "hardened (client_inner (http c))" by simp
  ultimately show ?thesis unfolding public_request_def by (blast dest: hardened_exchange)
qed

end

subsection \<open>Properties\<close>

text \<open>C17: A request that the hardened client makes to a URL that passed the guard connects only
  to addresses outside the listed blocks, at every redirect and whatever the names resolve to at the moment of each connection,
  and follows fewer than \<open>MAX_REDIRECTS\<close> redirects; the client is attested and has a time limit.\<close>

theorem hardened_client_public:
  assumes client: "hardened_http_client P = Inr c"
    and guard: "validate_fetch_url R u = Inr ()"
    and request: "exchange (client_inner c) R [] ((u, lookup, ip) # conns)"
  shows "list_all public_connection ((u, lookup, ip) # conns) \<and> length conns < MAX_REDIRECTS
    \<and> client_is_verified c \<and> request_timeout (client_inner c) = 30"
  using hardened_http_client_hardened [OF client] hardened_exchange [OF _ guard request]
  by (simp add: client_is_verified_def DEFAULT_REQUEST_TIMEOUT_def)

text \<open>A platform, its hardened client, and a request that is redirected from the host \<open>a\<close> to the host \<open>b\<close>.\<close>

definition toy_platform :: http_platform where
  "toy_platform = \<lparr>tls_client_config = Inr (TlsConfig ''tls''), client_builds = (\<lambda>_. True),
     platform_backend = Inr (BackendInfo ''software'')\<rparr>"

definition toy_http_client :: attested_http_client where
  "toy_http_client = \<lparr>client_inner = \<lparr>redirect = redirect_policy, dns_resolver = public_dns_resolve, no_proxy = True,
     connect_timeout = 10, request_timeout = 30, preconfigured_tls = TlsConfig ''tls''\<rparr>,
     client_backend = BackendInfo ''software'', client_verified = True\<rparr>"

lemma toy_hardened: "hardened_http_client toy_platform = Inr toy_http_client"
  by (simp add: hardened_http_client_def make_attested_http_client_def build_attested_http_client_def toy_platform_def
      toy_http_client_def DEFAULT_CONNECT_TIMEOUT_def DEFAULT_REQUEST_TIMEOUT_def)

definition toy_names :: name_lookup where "toy_names = (\<lambda>_ _. Some [V4 (Ipv4 93 184 216 34)])"

definition toy_net :: resolver where
  "toy_net = \<lparr>url_parse = (\<lambda>u. Some \<lparr>url_scheme = ascii_http, url_host_str = Some u, url_port_or_known_default = Some 80\<rparr>),
     to_socket_addrs = toy_names\<rparr>"

theorem hardened_client_public_witness:
  "list_all public_connection [([0x61], toy_names, V4 (Ipv4 93 184 216 34)), ([0x62], toy_names, V4 (Ipv4 93 184 216 34))]
    \<and> client_is_verified toy_http_client"
proof -
  have host: "parse_ip_addr (unbracket [0x61]) = None" "parse_ip_addr (unbracket [0x62]) = None"
    by (simp_all add: unbracket_def parse_ip_addr_def read_ip_addr_def read_ipv4_addr_def read_octet_def read_separator_def
        read_number_def to_digit_def read_ipv6_addr_def read_groups.simps Let_def)
  have res: "resolve_public_host toy_net h p = Inr [V4 (Ipv4 93 184 216 34)]" for h p
    by (simp add: resolve_public_host_def validate_resolved_addresses_def toy_net_def toy_names_def
        v4_is_unspecified_def v4_is_broadcast_def)
  have "validate_fetch_url toy_net [0x61] = Inr ()"
    using host res by (simp add: validate_fetch_url_def) (simp add: toy_net_def)
  moreover have "exchange (client_inner toy_http_client) toy_net []
      (([0x61], toy_names, V4 (Ipv4 93 184 216 34)) # [([0x62], toy_names, V4 (Ipv4 93 184 216 34))])"
  proof -
    have "toy_net\<lparr>to_socket_addrs := toy_names\<rparr> = toy_net" by (simp add: toy_net_def)
    moreover have "url_host toy_net u = Some u" for u by (simp add: url_host_def toy_net_def)
    ultimately show ?thesis
      using host res by (simp add: connects_def public_dns_resolve_def toy_http_client_def redirect_policy_def MAX_REDIRECTS_def)
  qed
  ultimately show ?thesis by (blast dest: hardened_client_public [OF toy_hardened])
qed

end
