(* ===== verification/Crl_Client.thy ===== *)
theory Crl_Client
  imports Crl_Facts Http_Client
begin

section \<open>Fetching and caching CRLs (\<open>CrlClient\<close> of \<open>src/src/ltv/crl.rs\<close>)\<close>

text \<open>
  The client's cache is an association list with distinct keys; its order stands for the iteration
  order of the hash map. Clocks: \<open>Instant\<close>s are natural numbers, wall-clock times are \<open>datetime\<close>s;
  the readings a call makes are fields of its environment. The cache lock is held by the lookup and by
  the insertion but not between them, so the two are separate steps. A call also returns the URLs it
  sent requests to.
\<close>

record crl_validity =
  cv_this_update :: datetime
  cv_next_update :: "datetime option"

definition validity_from_der :: "lib \<Rightarrow> chrono \<Rightarrow> bytes \<Rightarrow> (crl_msg, crl_validity) result" where
  "validity_from_der L ch der =
     and_then (parse_crl L ch der) (\<lambda>parsed.
       Inr \<lparr>cv_this_update = pc_this_update parsed, cv_next_update = pc_next_update parsed\<rparr>)"

definition validity_is_current :: "crl_validity \<Rightarrow> datetime \<Rightarrow> freshness \<Rightarrow> bool" where
  "validity_is_current v now fr \<longleftrightarrow>
     cv_this_update v \<le> now + clock_skew fr
     \<and> is_ok (validate_crl_dates (cv_this_update v) (cv_next_update v) now fr)"

record crl_cache_entry =
  ce_der :: bytes
  ce_fetched_at :: nat
  ce_validity :: crl_validity

type_synonym crl_cache = "(rstr \<times> crl_cache_entry) list"

record crl_client =
  cc_http_client :: attested_http_client
  cc_timeout :: nat
  cc_grace_period :: nat
  cc_max_body_size :: nat
  cc_freshness :: freshness

definition MAX_BODY_SIZE :: nat where "MAX_BODY_SIZE = 10 * 1024 * 1024"
definition MAX_CACHE_BYTES :: nat where "MAX_CACHE_BYTES = 32 * 1024 * 1024"
definition MAX_CACHE_ENTRIES :: nat where "MAX_CACHE_ENTRIES = 64"

text \<open>The error of the constructors is the variant \<open>LtvError::HttpClient\<close>.\<close>

definition default_http_client :: "http_platform \<Rightarrow> (http_client_error, attested_http_client) result" where
  "default_http_client P = hardened_http_client P"

definition crl_client_new :: "http_platform \<Rightarrow> (http_client_error, crl_client) result" where
  "crl_client_new P =
     and_then (default_http_client P) (\<lambda>client.
       Inr \<lparr>cc_http_client = client, cc_timeout = 30, cc_grace_period = 3600, cc_max_body_size = MAX_BODY_SIZE,
         cc_freshness = crl_freshness_default\<rparr>)"

definition crl_http_client :: "crl_client \<Rightarrow> attested_http_client \<Rightarrow> crl_client" where
  "crl_http_client c client = c\<lparr>cc_http_client := client\<rparr>"

definition crl_unverified_http_client ::
  "http_platform \<Rightarrow> crl_client \<Rightarrow> http_client \<Rightarrow> (http_client_error, crl_client) result" where
  "crl_unverified_http_client P c client =
     and_then (unverified_http_client P client) (\<lambda>client. Inr (c\<lparr>cc_http_client := client\<rparr>))"

definition crl_timeout :: "crl_client \<Rightarrow> nat \<Rightarrow> crl_client" where
  "crl_timeout c t = c\<lparr>cc_timeout := t\<rparr>"

definition crl_grace_period :: "crl_client \<Rightarrow> nat \<Rightarrow> crl_client" where
  "crl_grace_period c g = c\<lparr>cc_grace_period := g\<rparr>"

definition crl_freshness :: "crl_client \<Rightarrow> freshness \<Rightarrow> crl_client" where
  "crl_freshness c f = c\<lparr>cc_freshness := f\<rparr>"

definition crl_max_body_size :: "crl_client \<Rightarrow> nat \<Rightarrow> crl_client" where
  "crl_max_body_size c n = c\<lparr>cc_max_body_size := n\<rparr>"

subsection \<open>The bounded cache\<close>

definition cache_remove :: "rstr \<Rightarrow> crl_cache \<Rightarrow> crl_cache" where
  "cache_remove url cache = filter (\<lambda>(k, _). k \<noteq> url) cache"

definition cache_bytes :: "crl_cache \<Rightarrow> nat" where
  "cache_bytes cache = sum_list (map (\<lambda>(_, e). length (ce_der e)) cache)"

text \<open>\<open>min_by_key\<close> on the fetch times: the first of the least.\<close>

fun oldest_key :: "crl_cache \<Rightarrow> (rstr \<times> crl_cache_entry) option" where
  "oldest_key [] = None"
| "oldest_key (x # xs) =
     (case oldest_key xs of
        None \<Rightarrow> Some x
      | Some y \<Rightarrow> if ce_fetched_at (snd x) \<le> ce_fetched_at (snd y) then Some x else Some y)"

lemma oldest_key_None: "oldest_key cache = None \<longleftrightarrow> cache = []"
  by (cases cache) (auto split: option.splits)

lemma oldest_key_in: "oldest_key cache = Some x \<Longrightarrow> x \<in> set cache"
  by (induction cache arbitrary: x) (auto split: option.splits if_splits)

text \<open>The eviction loop; \<open>need\<close> is the size of the entry to come.\<close>

function evict :: "nat \<Rightarrow> crl_cache \<Rightarrow> nat \<Rightarrow> crl_cache" where
  "evict need cache sz =
     (if MAX_CACHE_ENTRIES \<le> length cache \<or> MAX_CACHE_BYTES - need < sz then
        (case oldest_key cache of
           None \<Rightarrow> cache
         | Some (oldest, removed) \<Rightarrow> evict need (cache_remove oldest cache) (sz - length (ce_der removed)))
      else cache)"
  by pat_completeness auto
termination
  by (relation "measure (\<lambda>(_, cache, _). length cache)")
    (auto simp: cache_remove_def dest!: oldest_key_in intro!: length_filter_less)

declare evict.simps [simp del]

definition insert_cache_entry :: "crl_cache \<Rightarrow> rstr \<Rightarrow> crl_cache_entry \<Rightarrow> crl_cache" where
  "insert_cache_entry cache url entry =
     (if MAX_CACHE_BYTES < length (ce_der entry) \<or> 8192 < length url then cache
      else
        let cache = cache_remove url cache;
            sz = cache_bytes cache
        in (url, entry) # evict (length (ce_der entry)) cache sz)"

subsection \<open>Fetching\<close>

text \<open>The clock readings and the network of one fetch.\<close>

record fetch_env = net_env +
  fe_instant :: nat
  fe_utc :: datetime
  fe_store_instant :: nat
  fe_after_utc :: datetime

definition validate_crl_url :: "fetch_env \<Rightarrow> rstr \<Rightarrow> (fetch_error, unit) result" where
  "validate_crl_url E url =
     (if guard_timeout E url then Inl FetchGuardTimeout
      else map_err FetchGuard (validate_fetch_url (net_resolver E) url))"

text \<open>The streamed body, cut off as soon as it exceeds the limit.\<close>

fun read_crl_body :: "nat \<Rightarrow> bytes \<Rightarrow> bytes option list \<Rightarrow> (fetch_error, bytes) result" where
  "read_crl_body max_body acc [] = Inr acc"
| "read_crl_body max_body acc (None # _) = Inl FetchRead"
| "read_crl_body max_body acc (Some chunk # chunks) =
     (if max_body - length acc < length chunk then Inl FetchTooLarge
      else read_crl_body max_body (acc @ chunk) chunks)"

definition receive_crl :: "crl_client \<Rightarrow> http_response option \<Rightarrow> (fetch_error, bytes) result" where
  "receive_crl client response =
     and_then (ok_or FetchSend response) (\<lambda>resp.
       if \<not> http_success resp then Inl FetchStatus
       else
       and_then (case http_content_length resp of
           Some len \<Rightarrow> if cc_max_body_size client < len then Inl (FetchAnnounced len) else Inr ()
         | None \<Rightarrow> Inr ()) (\<lambda>_.
       and_then (read_crl_body (cc_max_body_size client) [] (http_chunks resp)) (\<lambda>crl_bytes.
         if crl_bytes = [] \<or> hd crl_bytes \<noteq> 0x30 then Inl FetchNotDer else Inr crl_bytes)))"

text \<open>The lookup: a usable entry is the answer, anything else is removed.\<close>

definition cache_check ::
  "crl_client \<Rightarrow> fetch_env \<Rightarrow> freshness \<Rightarrow> rstr \<Rightarrow> crl_cache \<Rightarrow> (fetch_error, bytes) result option \<times> crl_cache" where
  "cache_check client E fr url cache =
     (case map_of cache url of
        Some entry \<Rightarrow>
          if fe_instant E - ce_fetched_at entry < cc_grace_period client
             \<and> validity_is_current (ce_validity entry) (fe_utc E) fr
          then (if cc_max_body_size client < length (ce_der entry) then (Some (Inl FetchCachedTooLarge), cache)
                else (Some (Inr (ce_der entry)), cache))
          else (None, cache_remove url cache)
      | None \<Rightarrow> (None, cache_remove url cache))"

definition cache_store :: "lib \<Rightarrow> chrono \<Rightarrow> fetch_env \<Rightarrow> rstr \<Rightarrow> bytes \<Rightarrow> crl_cache \<Rightarrow> crl_cache" where
  "cache_store L ch E url crl_bytes cache =
     (case validity_from_der L ch crl_bytes of
        Inr validity \<Rightarrow>
          insert_cache_entry cache url
            \<lparr>ce_der = crl_bytes, ce_fetched_at = fe_store_instant E, ce_validity = validity\<rparr>
      | Inl _ \<Rightarrow> cache)"

definition fetch_crl_with_freshness ::
  "lib \<Rightarrow> chrono \<Rightarrow> crl_client \<Rightarrow> fetch_env \<Rightarrow> freshness \<Rightarrow> rstr \<Rightarrow> crl_cache
    \<Rightarrow> (fetch_error, bytes) result \<times> crl_cache \<times> rstr list" where
  "fetch_crl_with_freshness L ch client E fr url cache =
     (case cache_check client E fr url cache of
        (Some r, cache) \<Rightarrow> (r, cache, [])
      | (None, cache) \<Rightarrow>
          (case validate_crl_url E url of
             Inl e \<Rightarrow> (Inl e, cache, [])
           | Inr _ \<Rightarrow>
               (case receive_crl client (http_get E url) of
                  Inl e \<Rightarrow> (Inl e, cache, [url])
                | Inr crl_bytes \<Rightarrow> (Inr crl_bytes, cache_store L ch E url crl_bytes cache, [url]))))"

definition fetch_crl ::
  "lib \<Rightarrow> chrono \<Rightarrow> crl_client \<Rightarrow> fetch_env \<Rightarrow> rstr \<Rightarrow> crl_cache
    \<Rightarrow> (fetch_error, bytes) result \<times> crl_cache \<times> rstr list" where
  "fetch_crl L ch client E url cache = fetch_crl_with_freshness L ch client E (cc_freshness client) url cache"

text \<open>The distribution points in turn. \<open>Es i\<close> is the environment of the \<open>i\<close>th.\<close>

fun fetch_points ::
  "lib \<Rightarrow> chrono \<Rightarrow> crl_client \<Rightarrow> (nat \<Rightarrow> fetch_env) \<Rightarrow> freshness \<Rightarrow> nat \<Rightarrow> rstr list \<Rightarrow> crl_cache \<Rightarrow> bytes option
    \<Rightarrow> bytes list \<times> crl_cache \<times> rstr list" where
  "fetch_points L ch client Es fr i [] cache stale_fallback =
     ((case stale_fallback of Some crl \<Rightarrow> [crl] | None \<Rightarrow> []), cache, [])"
| "fetch_points L ch client Es fr i (url # urls) cache stale_fallback =
     (case fetch_crl_with_freshness L ch client (Es i) fr url cache of
        (Inr crl, cache, sent) \<Rightarrow>
          if crl_is_current L ch crl (fe_after_utc (Es i)) fr then ([crl], cache, sent)
          else
            (let (r, cache, sent') =
               fetch_points L ch client Es fr (i + 1) urls cache
                 (case stale_fallback of Some old \<Rightarrow> Some old | None \<Rightarrow> Some crl)
             in (r, cache, sent @ sent'))
      | (Inl _, cache, sent) \<Rightarrow>
          (let (r, cache, sent') = fetch_points L ch client Es fr (i + 1) urls cache stale_fallback
           in (r, cache, sent @ sent')))"

definition fetch_crls_for_cert_with_freshness ::
  "lib \<Rightarrow> chrono \<Rightarrow> crl_client \<Rightarrow> (nat \<Rightarrow> fetch_env) \<Rightarrow> certificate \<Rightarrow> freshness \<Rightarrow> crl_cache
    \<Rightarrow> bytes list \<times> crl_cache \<times> rstr list" where
  "fetch_crls_for_cert_with_freshness L ch client Es cert fr cache =
     fetch_points L ch client Es fr 0 (extract_crl_urls cert) cache None"

definition fetch_crls_for_cert ::
  "lib \<Rightarrow> chrono \<Rightarrow> crl_client \<Rightarrow> (nat \<Rightarrow> fetch_env) \<Rightarrow> certificate \<Rightarrow> crl_cache
    \<Rightarrow> bytes list \<times> crl_cache \<times> rstr list" where
  "fetch_crls_for_cert L ch client Es cert cache =
     fetch_crls_for_cert_with_freshness L ch client Es cert (cc_freshness client) cache"

definition clear_cache :: "crl_cache \<Rightarrow> crl_cache" where "clear_cache cache = []"

subsection \<open>The cache invariant\<close>

text \<open>What holds of the cache at all times: one entry per URL, the bounds on their number and size,
  and dates that are those of the cached bytes.\<close>

definition cache_inv :: "lib \<Rightarrow> chrono \<Rightarrow> crl_cache \<Rightarrow> bool" where
  "cache_inv L ch cache \<longleftrightarrow>
     distinct (map fst cache) \<and> length cache \<le> MAX_CACHE_ENTRIES \<and> cache_bytes cache \<le> MAX_CACHE_BYTES
     \<and> (\<forall>(url, e)\<in>set cache. length url \<le> 8192 \<and> validity_from_der L ch (ce_der e) = Inr (ce_validity e))"

lemma cache_remove_set: "set (cache_remove url cache) = {x \<in> set cache. fst x \<noteq> url}"
  by (auto simp: cache_remove_def)

lemma cache_remove_distinct: "distinct (map fst cache) \<Longrightarrow> distinct (map fst (cache_remove url cache))"
  by (simp add: cache_remove_def distinct_map_filter)

lemma cache_remove_absent: "url \<notin> fst ` set cache \<Longrightarrow> cache_remove url cache = cache"
  by (force simp: cache_remove_def intro!: filter_True)

lemma cache_remove_length: "length (cache_remove url cache) \<le> length cache"
  by (simp add: cache_remove_def)

lemma cache_bytes_Cons [simp]: "cache_bytes ((k, e) # cache) = length (ce_der e) + cache_bytes cache"
  by (simp add: cache_bytes_def)

lemma cache_bytes_remove_le: "cache_bytes (cache_remove url cache) \<le> cache_bytes cache"
  by (induction cache) (auto simp: cache_remove_def cache_bytes_def)

lemma cache_bytes_remove:
  "distinct (map fst cache) \<Longrightarrow> (url, e) \<in> set cache \<Longrightarrow>
     cache_bytes (cache_remove url cache) = cache_bytes cache - length (ce_der e)"
proof (induction cache)
  case Nil
  then show ?case by simp
next
  case (Cons x cache)
  obtain k d where x: "x = (k, d)" by (cases x)
  have rec: "cache_remove url ((k, d) # cache) = (if k = url then cache_remove url cache else (k, d) # cache_remove url cache)"
    by (simp add: cache_remove_def)
  show ?case
  proof (cases "k = url")
    case True
    with Cons.prems x have "url \<notin> fst ` set cache" "d = e" by (auto simp: image_iff)
    with True x rec show ?thesis by (simp add: cache_remove_absent)
  next
    case False
    with Cons.prems x have "(url, e) \<in> set cache" by auto
    moreover from this have "length (ce_der e) \<le> cache_bytes cache"
      by (induction cache) auto
    ultimately show ?thesis using Cons x rec False by simp
  qed
qed

lemma evict_facts:
  assumes "distinct (map fst cache)" "sz = cache_bytes cache" "need \<le> MAX_CACHE_BYTES"
  shows "set (evict need cache sz) \<subseteq> set cache \<and> distinct (map fst (evict need cache sz))
    \<and> length (evict need cache sz) < MAX_CACHE_ENTRIES \<and> cache_bytes (evict need cache sz) + need \<le> MAX_CACHE_BYTES"
  using assms
proof (induction need cache sz rule: evict.induct)
  case (1 need cache sz)
  show ?case
  proof (cases "MAX_CACHE_ENTRIES \<le> length cache \<or> MAX_CACHE_BYTES - need < sz")
    case False
    with 1 show ?thesis by (subst (1 2 3 4) evict.simps) auto
  next
    case True
    with 1(3) have "cache \<noteq> []" by (auto simp: MAX_CACHE_ENTRIES_def cache_bytes_def)
    then obtain k e where k: "oldest_key cache = Some (k, e)"
      by (metis oldest_key_None not_None_eq surj_pair)
    then have "(k, e) \<in> set cache" by (rule oldest_key_in)
    then have "cache_bytes (cache_remove k cache) = sz - length (ce_der e)"
      using cache_bytes_remove 1 by blast
    then have "set (evict need (cache_remove k cache) (sz - length (ce_der e))) \<subseteq> set (cache_remove k cache)
      \<and> distinct (map fst (evict need (cache_remove k cache) (sz - length (ce_der e))))
      \<and> length (evict need (cache_remove k cache) (sz - length (ce_der e))) < MAX_CACHE_ENTRIES
      \<and> cache_bytes (evict need (cache_remove k cache) (sz - length (ce_der e))) + need \<le> MAX_CACHE_BYTES"
      using "1.IH" [OF True k refl cache_remove_distinct [OF "1.prems"(1)] _ "1.prems"(3)] by simp
    moreover have "evict need cache sz = evict need (cache_remove k cache) (sz - length (ce_der e))"
      using True k by (subst evict.simps) simp
    ultimately show ?thesis by (auto simp: cache_remove_set)
  qed
qed

lemma cache_inv_remove: "cache_inv L ch cache \<Longrightarrow> cache_inv L ch (cache_remove url cache)"
  using cache_bytes_remove_le [of url cache] cache_remove_length [of url cache]
  by (auto simp: cache_inv_def cache_remove_set cache_remove_distinct)

lemma cache_inv_insert:
  assumes inv: "cache_inv L ch cache" and v: "validity_from_der L ch (ce_der e) = Inr (ce_validity e)"
  shows "cache_inv L ch (insert_cache_entry cache url e)"
proof (cases "MAX_CACHE_BYTES < length (ce_der e) \<or> 8192 < length url")
  case True
  then show ?thesis using inv by (simp add: insert_cache_entry_def)
next
  case False
  let ?c = "cache_remove url cache" and ?n = "length (ce_der e)"
  from inv have "distinct (map fst ?c)" by (simp add: cache_inv_def cache_remove_distinct)
  from evict_facts [OF this refl, of ?n] False
  have e: "set (evict ?n ?c (cache_bytes ?c)) \<subseteq> set ?c" "distinct (map fst (evict ?n ?c (cache_bytes ?c)))"
    "length (evict ?n ?c (cache_bytes ?c)) < MAX_CACHE_ENTRIES"
    "cache_bytes (evict ?n ?c (cache_bytes ?c)) + ?n \<le> MAX_CACHE_BYTES"
    by simp_all
  have "url \<notin> fst ` set (evict ?n ?c (cache_bytes ?c))" using e(1) by (auto simp: cache_remove_set)
  moreover have "\<forall>(u, x)\<in>set (evict ?n ?c (cache_bytes ?c)). length u \<le> 8192
      \<and> validity_from_der L ch (ce_der x) = Inr (ce_validity x)"
    using e(1) inv by (fastforce simp: cache_inv_def cache_remove_set)
  ultimately show ?thesis
    using False e v by (simp add: insert_cache_entry_def Let_def cache_inv_def)
qed

lemma cache_inv_check: "cache_inv L ch cache \<Longrightarrow> cache_inv L ch (snd (cache_check client E fr url cache))"
  by (auto simp: cache_check_def cache_inv_remove split: option.splits)

lemma cache_inv_store: "cache_inv L ch cache \<Longrightarrow> cache_inv L ch (cache_store L ch E url crl cache)"
  by (auto simp: cache_store_def intro!: cache_inv_insert split: sum.splits)

text \<open>The atomic actions of concurrent users of a client: each holds the lock.\<close>

inductive cache_step :: "lib \<Rightarrow> chrono \<Rightarrow> crl_cache \<Rightarrow> crl_cache \<Rightarrow> bool" for L ch where
  step_check: "cache_step L ch cache (snd (cache_check client E fr url cache))"
| step_store: "cache_step L ch cache (cache_store L ch E url crl cache)"
| step_clear: "cache_step L ch cache (clear_cache cache)"

inductive_cases cache_stepE: "cache_step L ch s t"

interpretation cache: inductive_invariant "\<lambda>c. c = []" "cache_step L ch" "cache_inv L ch" for L ch
proof
  show "c = [] \<Longrightarrow> cache_inv L ch c" for c by (simp add: cache_inv_def cache_bytes_def)
  show "cache_inv L ch t" if "cache_inv L ch s" "cache_step L ch s t" for s t
    using that(2,1)
    by (elim cache_stepE)
      (auto simp: clear_cache_def cache_inv_check cache_inv_store, simp add: cache_inv_def cache_bytes_def)
qed

subsection \<open>What a fetch returns\<close>

lemma validity_current_iff:
  "validity_from_der L ch der = Inr v \<Longrightarrow> validity_is_current v now fr = crl_is_current L ch der now fr"
  by (auto simp: validity_from_der_def result_simps validity_is_current_def crl_is_current_def
      validate_crl_freshness_def not_less)

lemma read_crl_body_iff:
  "length acc \<le> n \<Longrightarrow> read_crl_body n acc chunks = Inr body \<longleftrightarrow>
     (\<exists>bs. chunks = map Some bs \<and> body = acc @ concat bs \<and> length body \<le> n)"
proof (induction n acc chunks rule: read_crl_body.induct)
  case (3 n acc chunk chunks)
  show ?case
  proof (cases "length (acc @ chunk) \<le> n")
    case True
    then have "read_crl_body n acc (Some chunk # chunks) = Inr body \<longleftrightarrow>
      (\<exists>bs. chunks = map Some bs \<and> body = (acc @ chunk) @ concat bs \<and> length body \<le> n)"
    proof -
      from True have "\<not> n - length acc < length chunk" by (simp add: add.commute)
      with 3 True show ?thesis by simp
    qed
    also have "\<dots> \<longleftrightarrow> (\<exists>bs. Some chunk # chunks = map Some bs \<and> body = acc @ concat bs \<and> length body \<le> n)"
      by (force simp: Cons_eq_map_conv)
    finally show ?thesis .
  next
    case False
    with 3(2) show ?thesis by (auto simp: Cons_eq_map_conv)
  qed
qed auto

lemma receive_crl_sound:
  assumes "receive_crl client response = Inr crl"
  shows "length crl \<le> cc_max_body_size client \<and> crl \<noteq> [] \<and>
    (\<exists>resp bs. response = Some resp \<and> http_success resp \<and> http_chunks resp = map Some bs \<and> crl = concat bs)"
proof -
  from assms obtain resp where r: "response = Some resp" "http_success resp" "crl \<noteq> []"
    "read_crl_body (cc_max_body_size client) [] (http_chunks resp) = Inr crl"
    by (auto simp: receive_crl_def result_simps)
  then obtain bs where "http_chunks resp = map Some bs" "crl = concat bs" "length crl \<le> cc_max_body_size client"
    by (auto simp: read_crl_body_iff)
  with r show ?thesis by blast
qed

lemma cache_check_hit:
  assumes "cache_check client E fr url cache = (Some (Inr crl), cache')" "cache_inv L ch cache"
  shows "cache' = cache \<and> length crl \<le> cc_max_body_size client \<and> crl_is_current L ch crl (fe_utc E) fr
    \<and> (\<exists>e. (url, e) \<in> set cache \<and> ce_der e = crl \<and> fe_instant E - ce_fetched_at e < cc_grace_period client)"
  using assms validity_current_iff
  by (auto simp: cache_check_def cache_inv_def not_less dest: map_of_SomeD split: option.splits if_splits)

text \<open>The fetches of a list of points, none skipped: the bytes of each successful one and whether they
  are current.\<close>

fun attempts ::
  "lib \<Rightarrow> chrono \<Rightarrow> crl_client \<Rightarrow> (nat \<Rightarrow> fetch_env) \<Rightarrow> freshness \<Rightarrow> nat \<Rightarrow> rstr list \<Rightarrow> crl_cache \<Rightarrow> (bytes \<times> bool) list" where
  "attempts L ch client Es fr i [] cache = []"
| "attempts L ch client Es fr i (url # urls) cache =
     (case fetch_crl_with_freshness L ch client (Es i) fr url cache of
        (r, cache, _) \<Rightarrow>
          (case r of Inr crl \<Rightarrow> [(crl, crl_is_current L ch crl (fe_after_utc (Es i)) fr)] | Inl _ \<Rightarrow> [])
          @ attempts L ch client Es fr (i + 1) urls cache)"

definition best :: "(bytes \<times> bool) list \<Rightarrow> bytes list" where
  "best as = (case find snd as of Some (crl, _) \<Rightarrow> [crl] | None \<Rightarrow> take 1 (map fst as))"

lemma best_Cons:
  "best ((crl, True) # as) = [crl]"
  "best ((old, False) # (crl, True) # as) = [crl]"
  "best ((old, False) # (crl, False) # as) = best ((old, False) # as)"
  "best [(crl, False)] = [crl]"
  "best [] = []"
  by (cases "find snd as"; auto simp: best_def take_Cons')+

lemma fetch_points_best:
  "fst (fetch_points L ch client Es fr i urls cache fb) =
     (case fb of
        Some old \<Rightarrow> best ((old, False) # attempts L ch client Es fr i urls cache)
      | None \<Rightarrow> best (attempts L ch client Es fr i urls cache))"
proof (induction urls arbitrary: i cache fb)
  case Nil
  show ?case by (cases fb) (simp_all add: best_Cons)
next
  case (Cons url urls)
  obtain r cache' sent where f: "fetch_crl_with_freshness L ch client (Es i) fr url cache = (r, cache', sent)"
    by (metis surj_pair)
  show ?case
  proof (cases r)
    case (Inl e)
    with f Cons.IH [of "i + 1" cache' fb] show ?thesis
      by (cases fb) (auto simp: case_prod_beta)
  next
    case (Inr crl)
    with f Cons.IH [of "i + 1" cache' "case fb of Some old \<Rightarrow> Some old | None \<Rightarrow> Some crl"] show ?thesis
      by (cases fb; cases "crl_is_current L ch crl (fe_after_utc (Es i)) fr") (auto simp: case_prod_beta best_Cons)
  qed
qed

lemma fetch_sent:
  assumes "fetch_crl_with_freshness L ch client E fr url cache = (r, cache', sent)" "u \<in> set sent"
  shows "u = url \<and> validate_fetch_url (net_resolver E) u = Inr ()"
  using assms
  by (auto simp: fetch_crl_with_freshness_def validate_crl_url_def result_simps
      split: prod.splits option.splits sum.splits if_splits)

lemma fetch_points_sent:
  "u \<in> set (snd (snd (fetch_points L ch client Es fr i urls cache fb))) \<Longrightarrow>
     u \<in> set urls \<and> (\<exists>j. validate_fetch_url (net_resolver (Es j)) u = Inr ())"
proof (induction urls arbitrary: i cache fb)
  case Nil
  then show ?case by simp
next
  case (Cons url urls)
  obtain r cache' sent where f: "fetch_crl_with_freshness L ch client (Es i) fr url cache = (r, cache', sent)"
    by (metis surj_pair)
  note here = fetch_sent [OF f]
  show ?case
  proof (cases "u \<in> set sent")
    case True
    with here show ?thesis by auto
  next
    case False
    with Cons.prems f have "\<exists>c fb. u \<in> set (snd (snd (fetch_points L ch client Es fr (i + 1) urls c fb)))"
      by (auto simp: case_prod_beta split: sum.splits if_splits)
    with Cons.IH show ?thesis by auto
  qed
qed

text \<open>A network with one public host that serves the sample list, and the cache after one fetch.\<close>

definition toy_resolver :: resolver where
  "toy_resolver = \<lparr>url_parse = (\<lambda>u. Some \<lparr>url_scheme = ascii_http, url_host_str = Some u, url_port_or_known_default = Some 80\<rparr>),
     to_socket_addrs = (\<lambda>_ _. Some [V4 (Ipv4 93 184 216 34)])\<rparr>"

definition toy_env :: fetch_env where
  "toy_env = \<lparr>net_resolver = toy_resolver, guard_timeout = (\<lambda>_. False),
     http_get = (\<lambda>_. Some \<lparr>http_success = True, http_content_length = None, http_chunks = [Some (toy_crl 5)]\<rparr>),
     fe_instant = 10, fe_utc = 20515 * 86400 + 50000, fe_store_instant = 11, fe_after_utc = 20515 * 86400 + 50000\<rparr>"

definition toy_url :: rstr where "toy_url = [0x61]"

definition toy_cached :: crl_cache where
  "toy_cached = [(toy_url, \<lparr>ce_der = toy_crl 5, ce_fetched_at = 11,
     ce_validity = \<lparr>cv_this_update = 20515 * 86400 + 43200, cv_next_update = None\<rparr>\<rparr>)]"

lemma toy_store_step: "cache_store toy_lib toy_chrono toy_env toy_url (toy_crl 5) [] = toy_cached"
proof -
  have "length (toy_crl 5) \<le> 100" by (simp add: toy_crl_def toy_noon_def ascii_def)
  then show ?thesis
    by (simp add: cache_store_def validity_from_der_def toy_crl_parses toy_parsed_def insert_cache_entry_def
        MAX_CACHE_BYTES_def MAX_CACHE_ENTRIES_def toy_url_def toy_env_def toy_cached_def cache_remove_def
        cache_bytes_def evict.simps)
qed

lemma toy_cached_reachable: "reachable (\<lambda>c. c = []) (cache_step toy_lib toy_chrono) toy_cached"
proof (rule reach_step)
  show "reachable (\<lambda>c. c = []) (cache_step toy_lib toy_chrono) []" by (rule reach_init) simp
  show "cache_step toy_lib toy_chrono [] toy_cached"
    using step_store [of toy_lib toy_chrono "[]" toy_env toy_url "toy_crl 5"] by (simp add: toy_store_step)
qed

definition toy_crl_client :: crl_client where
  "toy_crl_client = \<lparr>cc_http_client = toy_http_client, cc_timeout = 30, cc_grace_period = 3600,
     cc_max_body_size = MAX_BODY_SIZE, cc_freshness = crl_freshness_default\<rparr>"

lemma toy_crl_client_new: "crl_client_new toy_platform = Inr toy_crl_client"
  by (simp add: crl_client_new_def default_http_client_def toy_hardened toy_crl_client_def)

lemma toy_guard: "validate_fetch_url toy_resolver toy_url = Inr ()"
  by (simp add: validate_fetch_url_def toy_resolver_def resolve_public_host_def validate_resolved_addresses_def
      toy_url_def unbracket_def parse_ip_addr_def read_ip_addr_def read_ipv4_addr_def read_octet_def read_separator_def
      read_number_def to_digit_def read_ipv6_addr_def read_groups.simps v4_is_unspecified_def v4_is_broadcast_def Let_def)

lemma toy_fetch:
  "fetch_crl_with_freshness toy_lib toy_chrono toy_crl_client toy_env crl_freshness_default toy_url []
     = (Inr (toy_crl 5), toy_cached, [toy_url])"
proof -
  have l: "length (toy_crl 5) \<le> 100" "toy_crl 5 \<noteq> []" "hd (toy_crl 5) = 0x30"
    by (simp_all add: toy_crl_def toy_noon_def ascii_def)
  then have "receive_crl toy_crl_client (http_get toy_env toy_url) = Inr (toy_crl 5)"
    by (simp add: receive_crl_def toy_env_def toy_crl_client_def MAX_BODY_SIZE_def)
  moreover have "validate_crl_url toy_env toy_url = Inr ()"
    using toy_guard by (simp add: validate_crl_url_def toy_env_def)
  ultimately show ?thesis
    by (simp add: fetch_crl_with_freshness_def cache_check_def cache_remove_def toy_store_step)
qed

text \<open>C21: Whatever lookups, insertions and clearings concurrent tasks make, the CRL cache holds at most
  64 lists of at most 32 MiB together, one per URL, and the dates stored with a list give the same
  currency decision as parsing its bytes again.\<close>

theorem crl_cache_invariant:
  assumes "reachable (\<lambda>c. c = []) (cache_step L ch) c"
  shows "distinct (map fst c) \<and> length c \<le> 64 \<and> cache_bytes c \<le> 32 * 1024 * 1024
    \<and> (\<forall>(url, e)\<in>set c. \<forall>now fr. validity_is_current (ce_validity e) now fr = crl_is_current L ch (ce_der e) now fr)"
  using cache.inv_reachable [OF assms] validity_current_iff
  by (fastforce simp: cache_inv_def MAX_CACHE_ENTRIES_def MAX_CACHE_BYTES_def)

theorem crl_cache_invariant_witness:
  "length toy_cached \<le> 64 \<and> validity_is_current (ce_validity (snd (hd toy_cached))) 0 crl_freshness_default
     = crl_is_current toy_lib toy_chrono (ce_der (snd (hd toy_cached))) 0 crl_freshness_default"
  using crl_cache_invariant [OF toy_cached_reachable] by (simp add: toy_cached_def)

text \<open>C22: A fetched CRL never exceeds the body limit. It is either the unaltered cached list of that URL,
  younger than the grace period and current at the time of the lookup, with no request sent; or the
  whole body of a successful response to the one request sent, to a URL the guard let through.\<close>

theorem fetch_crl_sound:
  assumes "reachable (\<lambda>c. c = []) (cache_step L ch) cache"
    and "fetch_crl_with_freshness L ch client E fr url cache = (Inr crl, cache', sent)"
  shows "length crl \<le> cc_max_body_size client \<and>
    (sent = [] \<and> crl_is_current L ch crl (fe_utc E) fr
       \<and> (\<exists>e. (url, e) \<in> set cache \<and> ce_der e = crl \<and> fe_instant E - ce_fetched_at e < cc_grace_period client)
     \<or> sent = [url] \<and> validate_fetch_url (net_resolver E) url = Inr ()
       \<and> (\<exists>resp bs. http_get E url = Some resp \<and> http_success resp \<and> http_chunks resp = map Some bs \<and> crl = concat bs))"
proof -
  have inv: "cache_inv L ch cache" by (rule cache.inv_reachable [OF assms(1)])
  obtain r c where c: "cache_check client E fr url cache = (r, c)" by (metis surj_pair)
  show ?thesis
  proof (cases r)
    case (Some x)
    with c assms(2) have "x = Inr crl" "sent = []" by (simp_all add: fetch_crl_with_freshness_def)
    with cache_check_hit [OF _ inv, of client E fr url crl c] c Some show ?thesis by blast
  next
    case None
    with c assms(2) have "validate_crl_url E url = Inr ()" "receive_crl client (http_get E url) = Inr crl" "sent = [url]"
      by (auto simp: fetch_crl_with_freshness_def split: sum.splits)
    moreover from this(1) have "validate_fetch_url (net_resolver E) url = Inr ()"
      by (simp add: validate_crl_url_def result_simps split: if_splits)
    ultimately show ?thesis using receive_crl_sound by blast
  qed
qed

theorem fetch_crl_sound_witness:
  "length (toy_crl 5) \<le> cc_max_body_size toy_crl_client
   \<and> validate_fetch_url (net_resolver toy_env) toy_url = Inr ()"
  using fetch_crl_sound [OF reach_init toy_fetch] by simp

text \<open>The client returns the first distribution point's CRL that downloads and is current, else the
  first that downloads at all, else nothing: the early return changes nothing over trying them all.\<close>

theorem fetch_crls_selects_best:
  "fst (fetch_crls_for_cert_with_freshness L ch client Es cert fr cache) =
     best (attempts L ch client Es fr 0 (extract_crl_urls cert) cache)"
  by (simp add: fetch_crls_for_cert_with_freshness_def fetch_points_best)

text \<open>Every request sent while fetching the CRLs of a certificate passed the guard.\<close>

interpretation crl_requests: guarded_client cc_http_client
  "\<lambda>client (L, ch, Es, cert, fr, cache). snd (snd (fetch_crls_for_cert_with_freshness L ch client Es cert fr cache))"
  "\<lambda>(L, ch, Es, cert, fr, cache). range (\<lambda>j. net_resolver (Es j))"
  by unfold_locales (auto simp: fetch_crls_for_cert_with_freshness_def dest: fetch_points_sent)

text \<open>A certificate with one distribution point.\<close>

definition toy_dp_cert :: certificate where
  "toy_dp_cert = toy_cert [] [] [5] (Some [\<lparr>extn_id = CRL_DP_OID, critical = False,
     extn_value = [0x30, 9, 0x30, 7, 0xA0, 5, 0xA0, 3, 0x86, 1, 0x61]\<rparr>])"

lemma toy_dp_urls: "extract_crl_urls toy_dp_cert = [toy_url]"
  by (simp add: extract_crl_urls_def toy_dp_cert_def parse_crl_dp_extension_def dp_loop.simps dp_uris_def gn_uris.simps
      tlv_eval toy_url_def ascii_from_utf8_ok is_ascii_def)

lemma toy_dp_sent:
  "toy_url \<in> set (snd (snd (fetch_crls_for_cert_with_freshness toy_lib toy_chrono toy_crl_client (\<lambda>_. toy_env) toy_dp_cert
     crl_freshness_default [])))"
  by (simp add: fetch_crls_for_cert_with_freshness_def toy_dp_urls toy_fetch)

end
