(* ===== verification/Ocsp.thy ===== *)
theory Ocsp
  imports Crl Http_Client Trust_Store
begin

section \<open>OCSP requests and responses (\<open>src/src/ltv/ocsp.rs\<close>)\<close>

text \<open>
  AIA locations, request building, the response parser, and the checks that bind a response to the
  certificate asked about, to its issuer and to a time. \<open>olib\<close> holds the third-party operations used
  here only. Instants are whole seconds, so the sub-second part the path check asks for is zero; the
  conversion of certificate dates through RFC 3339 text keeps the instant.
\<close>

record olib =
  sha1 :: "bytes \<Rightarrow> bytes option"
  serial_to_der :: "bytes \<Rightarrow> bytes option"
  oid_to_der :: "oid \<Rightarrow> bytes option"
  ku_from_der :: "bytes \<Rightarrow> (bool \<times> bool) option"
  bc_from_der :: "bytes \<Rightarrow> bool"
  eku_from_der :: "bytes \<Rightarrow> bool"
  san_from_der :: "bytes \<Rightarrow> bool"
  utc_year :: "datetime \<Rightarrow> int"
  der_datetime_new :: "datetime \<Rightarrow> datetime option"

datatype (plugins only: size) ocsp_field =
    OOuter | OStatus | OResponseBytes | OResponseBytesSeq | OResponseType | OResponse | OBasic | OTbs | OSigAlg
  | OSignature | OCerts | OCertsSeq | OEmbedded | OVersion | OResponderName | OResponderKey | OResponderKeyHash
  | OProducedAt | OResponses | OSingle | OResponseExtensions | OCertId | OHashAlg | OHashOid | ONameHash | OKeyHash
  | OSerial | OCertStatus | OThisUpdate | ONextUpdate | ONextUpdateTime | OSingleExtensions | ORevocationTime
  | ORevocationReason | OAia

datatype (plugins only: size) ocsp_msg =
    OTlv ocsp_field der_error
  | OTag ocsp_field u8
  | OTime ocsp_field time_error
  | OTrailing ocsp_field
  | OMissing ocsp_field
  | OAlgDecode
  | OResponseTypeOid
  | OStatusTag u8
  | OExtDecode
  | OExtEmpty
  | OExtDuplicate oid
  | OExtNonceInSingle
  | OExtCritical oid
  | OSignatureUnverified
  | OResponderNotYetValid datetime
  | OResponderExpired datetime
  | OResponderEncode
  | OResponderNameMismatch
  | OResponderKeyMismatch
  | OResponderIssuerName
  | OResponderNotIssued
  | OResponderDuplicate oid
  | OResponderKeyUsageDecode
  | OResponderKeyUsage
  | OResponderBcDecode
  | OResponderEkuDecode
  | OResponderSanDecode
  | OResponderNocheck
  | OResponderCritical oid
  | OResponderProfile x509_error
  | OResponderNames name_constraint_error
  | ONonceMismatch
  | ONonceMissing
  | ONonceRequired
  | OWindow datetime datetime
  | OStale datetime datetime
  | OTooOld datetime datetime
  | OIssuerEncode
  | OSerialEncode
  | OOidEncode
  | OCertIdHash
  | ODelegatedNeedsPath
  | ODelegatedNeedsCheck
  | OPathStart
  | OPathYear
  | OPathTime
  | OPath trust_error
  | ONoUrl
  | OFetch fetch_error
  | OEmptyBody
  | ONotDer

text \<open>\<open>LtvError\<close> as this file raises it: \<open>Ocsp\<close>, \<open>OcspResponderStatus\<close>, and the errors of the
  extension parser and of the backend passed on.\<close>

datatype ocsp_error = Ocsp ocsp_msg | OcspResponderStatus u8 | OcspX509 x509_error | OcspCrypto

definition OCSP_RESPONSE_SUCCESSFUL :: u8 where "OCSP_RESPONSE_SUCCESSFUL = 0"
definition OCSP_BASIC_RESPONSE_OID :: bytes where
  "OCSP_BASIC_RESPONSE_OID = [0x2B, 0x06, 0x01, 0x05, 0x05, 0x07, 0x30, 0x01, 0x01]"
definition OCSP_NONCE_OID_BYTES :: bytes where
  "OCSP_NONCE_OID_BYTES = [0x2B, 0x06, 0x01, 0x05, 0x05, 0x07, 0x30, 0x01, 0x02]"
definition CERT_ID_HASH_ALGORITHM_OID :: bytes where "CERT_ID_HASH_ALGORITHM_OID = [0x2B, 0x0E, 0x03, 0x02, 0x1A]"
definition NONCE_SIZE :: nat where "NONCE_SIZE = 30"
definition OCSP_MAX_BODY_SIZE :: nat where "OCSP_MAX_BODY_SIZE = 10 * 1024 * 1024"
definition OCSP_NONCE_OID :: oid where "OCSP_NONCE_OID = [1, 3, 6, 1, 5, 5, 7, 48, 1, 2]"
definition OCSP_NOCHECK_OID :: oid where "OCSP_NOCHECK_OID = [1, 3, 6, 1, 5, 5, 7, 48, 1, 5]"
definition AIA_OID :: oid where "AIA_OID = [1, 3, 6, 1, 5, 5, 7, 1, 1]"

text \<open>One TLV, with the error of the field; and one TLV of a given tag.\<close>

definition ocsp_tlv :: "ocsp_field \<Rightarrow> bytes \<Rightarrow> (ocsp_error, u8 \<times> bytes \<times> bytes) result" where
  "ocsp_tlv f d = map_err (\<lambda>e. Ocsp (OTlv f e)) (parse_tlv_with_rest d)"

definition ocsp_expect :: "ocsp_field \<Rightarrow> u8 \<Rightarrow> bytes \<Rightarrow> (ocsp_error, bytes \<times> bytes) result" where
  "ocsp_expect f t d =
     and_then (ocsp_tlv f d) (\<lambda>(tag, v, r). if tag \<noteq> t then Inl (Ocsp (OTag f tag)) else Inr (v, r))"

definition ocsp_time :: "chrono \<Rightarrow> ocsp_field \<Rightarrow> bytes \<Rightarrow> (ocsp_error, datetime) result" where
  "ocsp_time ch f d = map_err (\<lambda>e. Ocsp (OTime f e)) (parse_generalized_time ch d)"

definition sha1_hash :: "olib \<Rightarrow> bytes \<Rightarrow> (ocsp_error, bytes) result" where
  "sha1_hash Q d = ok_or OcspCrypto (sha1 Q d)"

subsection \<open>Responses\<close>

datatype cert_status =
    CsGood
  | CsRevoked (cs_revocation_time: datetime) (cs_reason: revocation_reason)
  | CsUnknown

record single_response =
  sr_hash_algorithm_oid :: bytes
  sr_issuer_name_hash :: bytes
  sr_issuer_key_hash :: bytes
  sr_serial_number :: bytes
  sr_cert_status :: cert_status
  sr_this_update :: datetime
  sr_next_update :: "datetime option"

datatype responder_id = ByName bytes | ByKeyHash bytes

record parsed_ocsp =
  po_tbs_response_data :: bytes
  po_signature_algorithm :: algorithm_identifier
  po_signature_bytes :: bytes
  po_responder_id :: responder_id
  po_produced_at :: datetime
  po_responses :: "single_response list"
  po_nonce :: "bytes option"
  po_embedded_certs_der :: "bytes list"

subsection \<open>Authority information access\<close>

datatype aia_access_method = AiaOcsp | AiaCaIssuers

fun aia_method_oid :: "aia_access_method \<Rightarrow> oid" where
  "aia_method_oid AiaOcsp = [1, 3, 6, 1, 5, 5, 7, 48, 1]"
| "aia_method_oid AiaCaIssuers = [1, 3, 6, 1, 5, 5, 7, 48, 2]"

text \<open>The URI of one access description, if it is of the wanted method.\<close>

definition access_uri :: "bytes \<Rightarrow> bytes \<Rightarrow> (ocsp_error, rstr list) result" where
  "access_uri target ad_body =
     and_then (ocsp_tlv OAia ad_body) (\<lambda>(oid_tag, oid_body, ad_rest).
       if oid_tag = 0x06 \<and> encode_tlv 0x06 oid_body = target \<and> ad_rest \<noteq> [] then
         and_then (ocsp_tlv OAia ad_rest) (\<lambda>(gn_tag, gn_body, _).
           Inr (if gn_tag = 0x86 \<and> from_utf8_ok gn_body then [gn_body] else []))
       else Inr [])"

function aia_loop :: "bytes \<Rightarrow> bytes \<Rightarrow> rstr list \<Rightarrow> (ocsp_error, rstr list) result" where
  "aia_loop target pos urls =
     (if pos = [] then Inr urls
      else (case parse_tlv_with_rest pos of
              Inl e \<Rightarrow> Inl (Ocsp (OTlv OAia e))
            | Inr (ad_tag, ad_body, rest) \<Rightarrow>
                if ad_tag = 0x30 then
                  (case access_uri target ad_body of
                     Inl e \<Rightarrow> Inl e
                   | Inr new \<Rightarrow> aia_loop target rest (urls @ new))
                else aia_loop target rest urls))"
  by pat_completeness auto
termination
  by (relation "measure (\<lambda>(_, pos, _). length pos)") (auto dest: parse_tlv_with_rest_shorter)

declare aia_loop.simps [simp del]

definition parse_aia_extension :: "olib \<Rightarrow> bytes \<Rightarrow> oid \<Rightarrow> (ocsp_error, rstr list) result" where
  "parse_aia_extension Q der_bytes target_method_oid =
     and_then (map_err (\<lambda>e. Ocsp (OTlv OAia e)) (parse_tlv der_bytes)) (\<lambda>(tag, body).
       if tag \<noteq> 0x30 then Inl (Ocsp (OTag OAia tag))
       else and_then (ok_or (Ocsp OOidEncode) (oid_to_der Q target_method_oid)) (\<lambda>target. aia_loop target body []))"

definition extract_aia_urls :: "olib \<Rightarrow> certificate \<Rightarrow> aia_access_method \<Rightarrow> rstr list" where
  "extract_aia_urls Q cert method =
     (case extensions cert of
        None \<Rightarrow> []
      | Some exts \<Rightarrow>
          concat (map (\<lambda>ext.
            if extn_id ext = AIA_OID then
              (case parse_aia_extension Q (extn_value ext) (aia_method_oid method) of Inr urls \<Rightarrow> urls | Inl _ \<Rightarrow> [])
            else []) exts))"

definition extract_ocsp_urls :: "olib \<Rightarrow> certificate \<Rightarrow> rstr list" where
  "extract_ocsp_urls Q cert = extract_aia_urls Q cert AiaOcsp"

subsection \<open>Requests\<close>

definition build_sha1_algorithm_identifier :: "olib \<Rightarrow> (ocsp_error, bytes) result" where
  "build_sha1_algorithm_identifier Q =
     and_then (ok_or (Ocsp OOidEncode) (oid_to_der Q [1, 3, 14, 3, 2, 26])) (\<lambda>oid_der.
       Inr (encode_sequence_from_parts [oid_der, [0x05, 0x00]]))"

definition build_cert_id :: "lib \<Rightarrow> olib \<Rightarrow> certificate \<Rightarrow> certificate \<Rightarrow> (ocsp_error, bytes) result" where
  "build_cert_id L Q cert issuer_cert =
     and_then (ok_or (Ocsp OIssuerEncode) (name_to_der L (subject issuer_cert))) (\<lambda>issuer_name_der.
     and_then (sha1_hash Q issuer_name_der) (\<lambda>issuer_name_hash.
     and_then (sha1_hash Q (subject_public_key (subject_public_key_info issuer_cert))) (\<lambda>issuer_key_hash.
     and_then (ok_or (Ocsp OSerialEncode) (serial_to_der Q (serial_number cert))) (\<lambda>serial_der.
     and_then (build_sha1_algorithm_identifier Q) (\<lambda>sha1_alg_id.
       Inr (encode_sequence_from_parts
         [sha1_alg_id, encode_tlv 0x04 issuer_name_hash, encode_tlv 0x04 issuer_key_hash, serial_der]))))))"

definition build_ocsp_request :: "lib \<Rightarrow> olib \<Rightarrow> certificate \<Rightarrow> certificate \<Rightarrow> (ocsp_error, bytes) result" where
  "build_ocsp_request L Q cert issuer_cert =
     and_then (build_cert_id L Q cert issuer_cert) (\<lambda>cert_id.
       let request = encode_sequence_from_parts [cert_id];
           request_list = encode_sequence_from_parts [request];
           tbs_request = encode_sequence_from_parts [request_list]
       in Inr (encode_sequence_from_parts [tbs_request]))"

text \<open>\<open>random\<close> is what \<open>riptering::random_bytes\<close> returns for a nonce.\<close>

definition generate_nonce :: "bytes option \<Rightarrow> (ocsp_error, bytes) result" where
  "generate_nonce random = ok_or OcspCrypto random"

definition build_ocsp_request_with_nonce ::
  "lib \<Rightarrow> olib \<Rightarrow> bytes option \<Rightarrow> certificate \<Rightarrow> certificate \<Rightarrow> (ocsp_error, bytes \<times> bytes) result" where
  "build_ocsp_request_with_nonce L Q random cert issuer_cert =
     and_then (build_cert_id L Q cert issuer_cert) (\<lambda>cert_id.
       let request = encode_sequence_from_parts [cert_id];
           request_list = encode_sequence_from_parts [request] in
       and_then (generate_nonce random) (\<lambda>nonce.
         let nonce_oid_tlv = encode_tlv 0x06 OCSP_NONCE_OID_BYTES;
             nonce_inner = encode_tlv 0x04 nonce;
             nonce_outer = encode_tlv 0x04 nonce_inner;
             nonce_ext = encode_sequence_from_parts [nonce_oid_tlv, nonce_outer];
             extensions_seq = encode_sequence_from_parts [nonce_ext];
             request_extensions = encode_tlv 0xA2 extensions_seq;
             tbs_request = encode_sequence_from_parts [request_list, request_extensions]
         in Inr (encode_sequence_from_parts [tbs_request], nonce)))"

subsection \<open>Parsing\<close>

definition validate_ocsp_response_status :: "bytes \<Rightarrow> (ocsp_error, unit) result" where
  "validate_ocsp_response_status der_bytes =
     and_then (map_err (\<lambda>e. Ocsp (OTlv OOuter e)) (parse_tlv der_bytes)) (\<lambda>(tag, body).
       if tag \<noteq> 0x30 then Inl (Ocsp (OTag OOuter tag))
       else
       and_then (ocsp_expect OStatus 0x0A body) (\<lambda>(status_body, _).
         if status_body = [] then Inl (Ocsp (OMissing OStatus))
         else if hd status_body \<noteq> OCSP_RESPONSE_SUCCESSFUL then Inl (OcspResponderStatus (hd status_body))
         else Inr ()))"

definition ocsp_response_status_name :: "u8 \<Rightarrow> string" where
  "ocsp_response_status_name status =
     (if status = 0 then ''successful''
      else if status = 1 then ''malformedRequest''
      else if status = 2 then ''internalError''
      else if status = 3 then ''tryLater''
      else if status = 5 then ''sigRequired''
      else if status = 6 then ''unauthorized''
      else ''unknown'')"

text \<open>The extensions of the response (\<open>response_level\<close>) or of one entry; the nonce is returned.\<close>

fun ocsp_extension_loop ::
  "bool \<Rightarrow> oid set \<Rightarrow> bytes option \<Rightarrow> extension list \<Rightarrow> (ocsp_error, bytes option) result" where
  "ocsp_extension_loop response_level seen nonce [] = Inr nonce"
| "ocsp_extension_loop response_level seen nonce (ext # exts) =
     (if extn_id ext \<in> seen then Inl (Ocsp (OExtDuplicate (extn_id ext)))
      else if extn_id ext = OCSP_NONCE_OID then
        if \<not> response_level then Inl (Ocsp OExtNonceInSingle)
        else
          (let nonce =
             (case parse_tlv_with_rest (extn_value ext) of
                Inr (tag, body, rest) \<Rightarrow> if tag = 0x04 \<and> rest = [] then body else extn_value ext
              | Inl _ \<Rightarrow> extn_value ext)
           in ocsp_extension_loop response_level (insert (extn_id ext) seen) (Some nonce) exts)
      else if critical ext then Inl (Ocsp (OExtCritical (extn_id ext)))
      else ocsp_extension_loop response_level (insert (extn_id ext) seen) nonce exts)"

definition parse_ocsp_extensions :: "lib \<Rightarrow> bytes \<Rightarrow> bool \<Rightarrow> (ocsp_error, bytes option) result" where
  "parse_ocsp_extensions L ext_area response_level =
     and_then (ok_or (Ocsp OExtDecode) (extensions_from_der L ext_area)) (\<lambda>exts.
       if exts = [] then Inl (Ocsp OExtEmpty) else ocsp_extension_loop response_level {} None exts)"

definition parse_revoked_info :: "chrono \<Rightarrow> bytes \<Rightarrow> (ocsp_error, cert_status) result" where
  "parse_revoked_info ch body =
     and_then (ocsp_expect ORevocationTime 0x18 body) (\<lambda>(rt_body, rest).
     and_then (ocsp_time ch ORevocationTime rt_body) (\<lambda>revocation_time.
     and_then
       (if rest \<noteq> [] \<and> hd rest = 0xA0 then
          and_then (ocsp_tlv ORevocationReason rest) (\<lambda>(_, reason_inner, _).
            Inr (case find_tagged_value reason_inner 0x0A of
                   Some enum_body \<Rightarrow> if enum_body \<noteq> [] then from_code (hd enum_body) else Unspecified
                 | None \<Rightarrow> Unspecified))
        else Inr Unspecified) (\<lambda>reason.
       Inr (CsRevoked revocation_time reason))))"

text \<open>\<open>CertID\<close>: hash algorithm, the two hashes and the serial number.\<close>

definition parse_cert_id :: "bytes \<Rightarrow> (ocsp_error, bytes \<times> bytes \<times> bytes \<times> bytes) result" where
  "parse_cert_id cid_body =
     and_then (ocsp_expect OHashAlg 0x30 cid_body) (\<lambda>(alg_body, cid_rest).
     and_then (ocsp_expect OHashOid 0x06 alg_body) (\<lambda>(oid_body, _).
     and_then (ocsp_expect ONameHash 0x04 cid_rest) (\<lambda>(inh_body, cid_rest).
     and_then (ocsp_expect OKeyHash 0x04 cid_rest) (\<lambda>(ikh_body, cid_rest).
     and_then (ocsp_expect OSerial 0x02 cid_rest) (\<lambda>(sn_body, _).
       Inr (oid_body, inh_body, ikh_body, parse_integer_body sn_body))))))"

definition parse_cert_status :: "chrono \<Rightarrow> u8 \<Rightarrow> bytes \<Rightarrow> (ocsp_error, cert_status) result" where
  "parse_cert_status ch cs_tag cs_body =
     (if cs_tag = 0x80 then Inr CsGood
      else if cs_tag = 0xA1 then parse_revoked_info ch cs_body
      else if cs_tag = 0x82 then Inr CsUnknown
      else Inl (Ocsp (OStatusTag cs_tag)))"

definition read_sr_next_update :: "chrono \<Rightarrow> bytes \<Rightarrow> (ocsp_error, datetime option \<times> bytes) result" where
  "read_sr_next_update ch pos =
     (if pos \<noteq> [] \<and> hd pos = 0xA0 then
        and_then (ocsp_tlv ONextUpdate pos) (\<lambda>(_, nu_inner, rest_after_nu).
        and_then (ocsp_tlv ONextUpdateTime nu_inner) (\<lambda>(nu_tag, nu_body, _).
          if nu_tag = 0x18 then and_then (ocsp_time ch ONextUpdate nu_body) (\<lambda>t. Inr (Some t, rest_after_nu))
          else Inr (None, rest_after_nu)))
      else Inr (None, pos))"

definition read_sr_extensions :: "lib \<Rightarrow> bytes \<Rightarrow> (ocsp_error, unit) result" where
  "read_sr_extensions L pos =
     (if pos \<noteq> [] then
        and_then (ocsp_tlv OSingleExtensions pos) (\<lambda>(tag, exts, trailing).
          if tag \<noteq> 0xA1 \<or> trailing \<noteq> [] then Inl (Ocsp (OTrailing OSingleExtensions))
          else and_then (parse_ocsp_extensions L exts False) (\<lambda>_. Inr ()))
      else Inr ())"

definition parse_single_response :: "lib \<Rightarrow> chrono \<Rightarrow> bytes \<Rightarrow> (ocsp_error, single_response) result" where
  "parse_single_response L ch body =
     and_then (ocsp_expect OCertId 0x30 body) (\<lambda>(cid_body, pos).
     and_then (parse_cert_id cid_body) (\<lambda>(alg, inh, ikh, serial).
     and_then (ocsp_tlv OCertStatus pos) (\<lambda>(cs_tag, cs_body, pos).
     and_then (parse_cert_status ch cs_tag cs_body) (\<lambda>cert_status.
     and_then (ocsp_expect OThisUpdate 0x18 pos) (\<lambda>(tu_body, pos).
     and_then (ocsp_time ch OThisUpdate tu_body) (\<lambda>this_update.
     and_then (read_sr_next_update ch pos) (\<lambda>(next_update, pos).
     and_then (read_sr_extensions L pos) (\<lambda>_.
       Inr \<lparr>sr_hash_algorithm_oid = alg, sr_issuer_name_hash = inh, sr_issuer_key_hash = ikh,
            sr_serial_number = serial, sr_cert_status = cert_status, sr_this_update = this_update,
            sr_next_update = next_update\<rparr>))))))))"

function single_loop :: "lib \<Rightarrow> chrono \<Rightarrow> bytes \<Rightarrow> single_response list \<Rightarrow> (ocsp_error, single_response list) result" where
  "single_loop L ch sr_pos responses =
     (if sr_pos = [] then Inr responses
      else (case parse_tlv_with_rest sr_pos of
              Inl e \<Rightarrow> Inl (Ocsp (OTlv OSingle e))
            | Inr (sr_tag, sr_body, sr_rest) \<Rightarrow>
                if sr_tag = 0x30 then
                  (case parse_single_response L ch sr_body of
                     Inl e \<Rightarrow> Inl e
                   | Inr sr \<Rightarrow> single_loop L ch sr_rest (responses @ [sr]))
                else single_loop L ch sr_rest responses))"
  by pat_completeness auto
termination
  by (relation "measure (\<lambda>(_, _, pos, _). length pos)") (auto dest: parse_tlv_with_rest_shorter)

function embedded_loop :: "bytes \<Rightarrow> bytes list \<Rightarrow> (ocsp_error, bytes list) result" where
  "embedded_loop cert_pos certs =
     (if cert_pos = [] then Inr certs
      else (case parse_tlv_with_rest cert_pos of
              Inl e \<Rightarrow> Inl (Ocsp (OTlv OEmbedded e))
            | Inr (cert_tag, _, cert_rest) \<Rightarrow>
                embedded_loop cert_rest
                  (if cert_tag = 0x30 then certs @ [take (length cert_pos - length cert_rest) cert_pos] else certs)))"
  by pat_completeness auto
termination
  by (relation "measure (\<lambda>(pos, _). length pos)") (auto dest: parse_tlv_with_rest_shorter)

declare single_loop.simps [simp del] embedded_loop.simps [simp del]

definition read_embedded_certs :: "bytes \<Rightarrow> (ocsp_error, bytes list) result" where
  "read_embedded_certs rest =
     (if rest \<noteq> [] then
        and_then (ocsp_tlv OCerts rest) (\<lambda>(certs_tag, certs_body, _).
          if certs_tag = 0xA0 then
            and_then (map_err (\<lambda>e. Ocsp (OTlv OCertsSeq e)) (parse_tlv certs_body)) (\<lambda>(seq_tag, seq_body).
              if seq_tag = 0x30 then embedded_loop seq_body [] else Inr [])
          else Inr [])
      else Inr [])"

definition read_responder_id :: "bytes \<Rightarrow> (ocsp_error, responder_id \<times> bytes) result" where
  "read_responder_id pos =
     (if pos \<noteq> [] \<and> hd pos = 0xA1 then
        and_then (ocsp_tlv OResponderName pos) (\<lambda>(_, name_body, r). Inr (ByName name_body, r))
      else if pos \<noteq> [] \<and> hd pos = 0xA2 then
        and_then (ocsp_tlv OResponderKey pos) (\<lambda>(_, hash_wrapper, r).
        and_then (ocsp_expect OResponderKeyHash 0x04 hash_wrapper) (\<lambda>(oct_body, _). Inr (ByKeyHash oct_body, r)))
      else Inl (Ocsp (OMissing OResponderName)))"

definition read_response_nonce :: "lib \<Rightarrow> bytes \<Rightarrow> (ocsp_error, bytes option) result" where
  "read_response_nonce L pos =
     (if pos \<noteq> [] then
        and_then (ocsp_tlv OResponseExtensions pos) (\<lambda>(tag, ext_wrapper, trailing).
          if tag \<noteq> 0xA1 \<or> trailing \<noteq> [] then Inl (Ocsp (OTrailing OResponseExtensions))
          else parse_ocsp_extensions L ext_wrapper True)
      else Inr None)"

text \<open>The fields of \<open>ResponseData\<close>.\<close>

definition parse_response_data ::
  "lib \<Rightarrow> chrono \<Rightarrow> bytes \<Rightarrow> (ocsp_error, responder_id \<times> datetime \<times> single_response list \<times> bytes option) result" where
  "parse_response_data L ch tbs_value =
     and_then
       (if tbs_value \<noteq> [] \<and> hd tbs_value = 0xA0 then and_then (ocsp_tlv OVersion tbs_value) (\<lambda>(_, _, r). Inr r)
        else Inr tbs_value) (\<lambda>pos.
     and_then (read_responder_id pos) (\<lambda>(responder_id, pos).
     and_then (ocsp_expect OProducedAt 0x18 pos) (\<lambda>(pa_body, pos).
     and_then (ocsp_time ch OProducedAt pa_body) (\<lambda>produced_at.
     and_then (ocsp_expect OResponses 0x30 pos) (\<lambda>(resp_seq_body, pos).
     and_then (single_loop L ch resp_seq_body []) (\<lambda>responses.
     and_then (read_response_nonce L pos) (\<lambda>nonce.
       Inr (responder_id, produced_at, responses, nonce))))))))"

definition parse_basic_ocsp_response :: "lib \<Rightarrow> chrono \<Rightarrow> bytes \<Rightarrow> (ocsp_error, parsed_ocsp) result" where
  "parse_basic_ocsp_response L ch der =
     and_then (map_err (\<lambda>e. Ocsp (OTlv OBasic e)) (parse_tlv der)) (\<lambda>(tag, body).
       if tag \<noteq> 0x30 then Inl (Ocsp (OTag OBasic tag))
       else
       and_then (ocsp_expect OTbs 0x30 body) (\<lambda>(tbs_value, rest).
       let tbs_response_data = take (length body - length rest) body;
           sig_alg_input = rest in
       and_then (ocsp_expect OSigAlg 0x30 sig_alg_input) (\<lambda>(_, rest).
       and_then (ok_or (Ocsp OAlgDecode) (algid_from_der L (take (length sig_alg_input - length rest) sig_alg_input))) (\<lambda>alg.
       and_then (ocsp_expect OSignature 0x03 rest) (\<lambda>(sig_body, rest).
       if sig_body = [] then Inl (Ocsp (OMissing OSignature))
       else
       and_then (read_embedded_certs rest) (\<lambda>embedded.
       and_then (parse_response_data L ch tbs_value) (\<lambda>(responder_id, produced_at, responses, nonce).
         Inr \<lparr>po_tbs_response_data = tbs_response_data, po_signature_algorithm = alg,
              po_signature_bytes = tl sig_body, po_responder_id = responder_id, po_produced_at = produced_at,
              po_responses = responses, po_nonce = nonce, po_embedded_certs_der = embedded\<rparr>)))))))"

definition parse_ocsp_response :: "lib \<Rightarrow> chrono \<Rightarrow> bytes \<Rightarrow> (ocsp_error, parsed_ocsp) result" where
  "parse_ocsp_response L ch response_der =
     and_then (map_err (\<lambda>e. Ocsp (OTlv OOuter e)) (parse_tlv response_der)) (\<lambda>(outer_tag, outer_body).
       if outer_tag \<noteq> 0x30 then Inl (Ocsp (OTag OOuter outer_tag))
       else
       and_then (ocsp_tlv OStatus outer_body) (\<lambda>(status_tag, status_body, rest).
       if status_tag \<noteq> 0x0A \<or> status_body = [] then Inl (Ocsp (OMissing OStatus))
       else if hd status_body \<noteq> OCSP_RESPONSE_SUCCESSFUL then Inl (OcspResponderStatus (hd status_body))
       else if rest = [] then Inl (Ocsp (OMissing OResponseBytes))
       else
       and_then (ocsp_expect OResponseBytes 0xA0 rest) (\<lambda>(rb_body, _).
       and_then (map_err (\<lambda>e. Ocsp (OTlv OResponseBytesSeq e)) (parse_tlv rb_body)) (\<lambda>(rb_seq_tag, rb_seq_body).
       if rb_seq_tag \<noteq> 0x30 then Inl (Ocsp (OTag OResponseBytesSeq rb_seq_tag))
       else
       and_then (ocsp_expect OResponseType 0x06 rb_seq_body) (\<lambda>(oid_body, rb_rest).
       if oid_body \<noteq> OCSP_BASIC_RESPONSE_OID then Inl (Ocsp OResponseTypeOid)
       else
       and_then (ocsp_expect OResponse 0x04 rb_rest) (\<lambda>(oct_body, _).
         parse_basic_ocsp_response L ch oct_body))))))"

end
