(* ===== verification/Ocsp_Check.thy ===== *)
theory Ocsp_Check
  imports Ocsp
begin

section \<open>Checking a certificate against an OCSP response (\<open>src/src/ltv/ocsp.rs\<close>)\<close>

text \<open>
  The second half of the file: who signed a response and whether that signer may, nonces, freshness,
  the match of the certificate, and the client that sends requests.
\<close>

subsection \<open>The signer\<close>

text \<open>Name and public key of two certificates agree.\<close>

definition certs_have_same_identity :: "certificate \<Rightarrow> certificate \<Rightarrow> bool" where
  "certs_have_same_identity a b \<longleftrightarrow>
     subject a = subject b \<and> subject_public_key_info a = subject_public_key_info b"

fun try_signers ::
  "lib \<Rightarrow> crypto \<Rightarrow> parsed_ocsp \<Rightarrow> certificate \<Rightarrow> signature_policy \<Rightarrow> certificate list \<Rightarrow> (ocsp_error, certificate) result" where
  "try_signers L K parsed issuer_cert policy [] = Inl (Ocsp OSignatureUnverified)"
| "try_signers L K parsed issuer_cert policy (candidate # candidates) =
     (case spki_to_der L (subject_public_key_info candidate) of
        None \<Rightarrow> try_signers L K parsed issuer_cert policy candidates
      | Some spki_der \<Rightarrow>
          if is_ok (verify_signature_by_algid_with_policy K (po_tbs_response_data parsed) (po_signature_bytes parsed)
               spki_der (po_signature_algorithm parsed) policy)
          then Inr (if certs_have_same_identity candidate issuer_cert then issuer_cert else candidate)
          else try_signers L K parsed issuer_cert policy candidates)"

definition verify_ocsp_response_signature ::
  "lib \<Rightarrow> crypto \<Rightarrow> parsed_ocsp \<Rightarrow> certificate \<Rightarrow> signature_policy \<Rightarrow> (ocsp_error, certificate) result" where
  "verify_ocsp_response_signature L K parsed issuer_cert policy =
     try_signers L K parsed issuer_cert policy
       (List.map_filter (cert_from_der L) (po_embedded_certs_der parsed) @ [issuer_cert])"

datatype responder_revocation_check = NotRequired | Required

definition responder_matches_responder_id :: "lib \<Rightarrow> olib \<Rightarrow> certificate \<Rightarrow> responder_id \<Rightarrow> (ocsp_error, unit) result" where
  "responder_matches_responder_id L Q responder rid =
     (case rid of
        ByName name_der \<Rightarrow>
          and_then (ok_or (Ocsp OResponderEncode) (name_to_der L (subject responder))) (\<lambda>subject_der.
            if subject_der \<noteq> name_der then Inl (Ocsp OResponderNameMismatch) else Inr ())
      | ByKeyHash key_hash \<Rightarrow>
          and_then (sha1_hash Q (subject_public_key (subject_public_key_info responder))) (\<lambda>computed.
            if computed \<noteq> key_hash then Inl (Ocsp OResponderKeyMismatch) else Inr ()))"

text \<open>One extension of a delegated signer: whether it has a processing path here.\<close>

definition process_responder_extension ::
  "olib \<Rightarrow> certificate \<Rightarrow> extension \<Rightarrow> (ocsp_error, bool) result" where
  "process_responder_extension Q cert ext =
     (if extn_id ext = KEY_USAGE_OID then
        and_then (map_err OcspX509 (check_key_usage cert)) (\<lambda>_.
        and_then (ok_or (Ocsp OResponderKeyUsageDecode) (ku_from_der Q (extn_value ext))) (\<lambda>(digital_signature, non_repudiation).
          if \<not> digital_signature \<and> \<not> non_repudiation then Inl (Ocsp OResponderKeyUsage) else Inr True))
      else if extn_id ext = BASIC_CONSTRAINTS_OID then
        if bc_from_der Q (extn_value ext) then Inr True else Inl (Ocsp OResponderBcDecode)
      else if extn_id ext = EKU_OID then
        if eku_from_der Q (extn_value ext) then Inr True else Inl (Ocsp OResponderEkuDecode)
      else if extn_id ext = SAN_OID then
        if san_from_der Q (extn_value ext) then Inr True else Inl (Ocsp OResponderSanDecode)
      else if extn_id ext = OCSP_NOCHECK_OID then
        if extn_value ext \<noteq> [0x05, 0x00] then Inl (Ocsp OResponderNocheck) else Inr True
      else Inr False)"

fun responder_extension_loop ::
  "olib \<Rightarrow> certificate \<Rightarrow> oid list \<Rightarrow> extension list \<Rightarrow> (ocsp_error, unit) result" where
  "responder_extension_loop Q cert seen [] = Inr ()"
| "responder_extension_loop Q cert seen (ext # exts) =
     (if extn_id ext \<in> set seen then Inl (Ocsp (OResponderDuplicate (extn_id ext)))
      else
      and_then (process_responder_extension Q cert ext) (\<lambda>processed.
        if critical ext \<and> \<not> processed then Inl (Ocsp (OResponderCritical (extn_id ext)))
        else responder_extension_loop Q cert (seen @ [extn_id ext]) exts))"

definition validate_delegated_responder_extensions :: "lib \<Rightarrow> olib \<Rightarrow> certificate \<Rightarrow> (ocsp_error, unit) result" where
  "validate_delegated_responder_extensions L Q cert =
     and_then (case extensions cert of Some exts \<Rightarrow> responder_extension_loop Q cert [] exts | None \<Rightarrow> Inr ()) (\<lambda>_.
       map_err (\<lambda>e. Ocsp (OResponderProfile e)) (validate_extensions_for_role L cert OcspResponder))"

definition has_ocsp_nocheck_extension :: "certificate \<Rightarrow> bool" where
  "has_ocsp_nocheck_extension cert =
     (case extensions cert of
        None \<Rightarrow> False
      | Some exts \<Rightarrow> list_ex (\<lambda>ext. extn_id ext = OCSP_NOCHECK_OID \<and> extn_value ext = [0x05, 0x00]) exts)"

definition validate_responder_trust ::
  "lib \<Rightarrow> olib \<Rightarrow> crypto \<Rightarrow> certificate \<Rightarrow> certificate \<Rightarrow> parsed_ocsp \<Rightarrow> signature_policy \<Rightarrow> datetime
    \<Rightarrow> (ocsp_error, responder_revocation_check) result" where
  "validate_responder_trust L Q K responder issuer_cert parsed policy now =
     (if now < not_before responder then Inl (Ocsp (OResponderNotYetValid (not_before responder)))
      else if not_after responder < now then Inl (Ocsp (OResponderExpired (not_after responder)))
      else
      and_then (responder_matches_responder_id L Q responder (po_responder_id parsed)) (\<lambda>_.
      if certs_have_same_identity responder issuer_cert then Inr NotRequired
      else if issuer responder \<noteq> subject issuer_cert then Inl (Ocsp OResponderIssuerName)
      else if \<not> is_ok (verify_certificate_signature_with_policy L K responder issuer_cert policy)
        then Inl (Ocsp OResponderNotIssued)
      else
      and_then (validate_delegated_responder_extensions L Q responder) (\<lambda>_.
      and_then (case add_from_cert nc_default issuer_cert of
          (constraints, Inl e) \<Rightarrow> Inl (Ocsp (OResponderNames e))
        | (constraints, Inr _) \<Rightarrow> map_err (\<lambda>e. Ocsp (OResponderNames e)) (check_cert L constraints responder)) (\<lambda>_.
        Inr (if has_ocsp_nocheck_extension responder then NotRequired else Required)))))"

subsection \<open>Nonce and freshness\<close>

definition validate_nonce :: "bytes \<Rightarrow> bytes \<Rightarrow> (ocsp_error, unit) result" where
  "validate_nonce request_nonce response_nonce =
     (if response_nonce = request_nonce then Inr ()
      else if response_nonce = encode_tlv 0x04 request_nonce then Inr ()
      else if response_nonce \<noteq> [] \<and> hd response_nonce = 0x04 \<and>
        (case parse_tlv_with_rest response_nonce of
           Inr (tag, inner, rest) \<Rightarrow> tag = 0x04 \<and> rest = [] \<and> inner = request_nonce
         | Inl _ \<Rightarrow> False) then Inr ()
      else Inl (Ocsp ONonceMismatch))"

definition ocsp_freshness_default :: freshness where
  "ocsp_freshness_default = \<lparr>clock_skew = 5 * 60, max_age_without_next_update = 24 * 60 * 60\<rparr>"

definition validate_response_freshness :: "single_response \<Rightarrow> datetime \<Rightarrow> freshness \<Rightarrow> (ocsp_error, unit) result" where
  "validate_response_freshness sr now fr =
     (case sr_next_update sr of
        Some nxt \<Rightarrow>
          if nxt < sr_this_update sr then Inl (Ocsp (OWindow nxt (sr_this_update sr)))
          else if nxt + clock_skew fr < now then Inl (Ocsp (OStale nxt now))
          else Inr ()
      | None \<Rightarrow>
          if sr_this_update sr + max_age_without_next_update fr + clock_skew fr < now
          then Inl (Ocsp (OTooOld (sr_this_update sr) now))
          else Inr ())"

subsection \<open>The check\<close>

definition subsec_nanos :: "datetime \<Rightarrow> nat" where "subsec_nanos t = 0"

definition validate_ocsp_certificate_path ::
  "lib \<Rightarrow> olib \<Rightarrow> crypto \<Rightarrow> certificate list \<Rightarrow> trust_store \<Rightarrow> cert_role \<Rightarrow> signature_policy \<Rightarrow> datetime
    \<Rightarrow> (ocsp_error, unit) result" where
  "validate_ocsp_certificate_path L Q K chain store role policy now =
     (if utc_year Q now < 0 \<or> 65535 < utc_year Q now then Inl (Ocsp OPathYear)
      else
      and_then (ok_or (Ocsp OPathTime) (der_datetime_new Q now)) (\<lambda>at.
        let effective = (if allow_legacy policy \<and> allow_legacy (ts_signature_policy store)
                         then policy_allow_legacy else policy_strict);
            scoped = (if effective = ts_signature_policy store then store else with_signature_policy store effective)
        in and_then (map_err (\<lambda>e. Ocsp (OPath e))
             (verify_chain_for_purpose_with_fraction L K scoped chain at role (subsec_nanos now \<noteq> 0))) (\<lambda>_. Inr ())))"

fun find_matching_response ::
  "single_response list \<Rightarrow> bytes \<Rightarrow> bytes \<Rightarrow> bytes \<Rightarrow> (ocsp_error, single_response option) result" where
  "find_matching_response [] issuer_name_hash issuer_key_hash serial = Inr None"
| "find_matching_response (response # responses) issuer_name_hash issuer_key_hash serial =
     (if sr_issuer_name_hash response = issuer_name_hash \<and> sr_issuer_key_hash response = issuer_key_hash
         \<and> integer_bodies_equal (sr_serial_number response) serial then
        if sr_hash_algorithm_oid response \<noteq> CERT_ID_HASH_ALGORITHM_OID then Inl (Ocsp OCertIdHash)
        else Inr (Some response)
      else find_matching_response responses issuer_name_hash issuer_key_hash serial)"

datatype ocsp_why = WhyNotInResponse | WhyResponderUnknown

record ocsp_outcome =
  oo_status :: "ocsp_why validation_status"
  oo_delegated_responder :: "certificate option"

fun map_cert_status :: "cert_status \<Rightarrow> datetime \<Rightarrow> ocsp_why validation_status" where
  "map_cert_status CsGood now = Valid SrcOcsp now"
| "map_cert_status (CsRevoked rt reason) now =
     (if now < rt then Valid SrcOcsp now else Revoked SrcOcsp reason rt)"
| "map_cert_status CsUnknown now = Unknown WhyResponderUnknown"

text \<open>Who signed, with the path checks; then the nonce; then the entry. The middle and last parts are
  functions of their own here.\<close>

definition authorize_responder ::
  "lib \<Rightarrow> olib \<Rightarrow> crypto \<Rightarrow> certificate \<Rightarrow> certificate \<Rightarrow> parsed_ocsp \<Rightarrow> signature_policy \<Rightarrow> datetime
    \<Rightarrow> (certificate list \<times> trust_store) option \<Rightarrow> (ocsp_error, certificate option) result" where
  "authorize_responder L Q K responder issuer_cert parsed policy now issuer_path =
     and_then (case issuer_path of
         Some (chain, store) \<Rightarrow> validate_ocsp_certificate_path L Q K chain store IntermediateCa policy now
       | None \<Rightarrow> Inr ()) (\<lambda>_.
     and_then (validate_responder_trust L Q K responder issuer_cert parsed policy now) (\<lambda>responder_check.
     and_then (if \<not> certs_have_same_identity responder issuer_cert then
         (case issuer_path of
            None \<Rightarrow> Inl (Ocsp ODelegatedNeedsPath)
          | Some (issuer_chain, store) \<Rightarrow>
              validate_ocsp_certificate_path L Q K (responder # issuer_chain) store OcspResponder policy now)
       else Inr ()) (\<lambda>_.
       Inr (case responder_check of Required \<Rightarrow> Some responder | NotRequired \<Rightarrow> None))))"

definition check_response_nonce :: "bytes option \<Rightarrow> bytes option \<Rightarrow> bool \<Rightarrow> (ocsp_error, unit) result" where
  "check_response_nonce nonce response_nonce require_nonce =
     (case nonce of
        None \<Rightarrow> Inr ()
      | Some request_nonce \<Rightarrow>
          (case response_nonce of
             Some r \<Rightarrow> validate_nonce request_nonce r
           | None \<Rightarrow> if require_nonce then Inl (Ocsp ONonceMissing) else Inr ()))"

definition response_for_cert ::
  "lib \<Rightarrow> olib \<Rightarrow> parsed_ocsp \<Rightarrow> certificate \<Rightarrow> certificate \<Rightarrow> (ocsp_error, single_response option) result" where
  "response_for_cert L Q parsed cert issuer_cert =
     and_then (ok_or (Ocsp OIssuerEncode) (name_to_der L (subject issuer_cert))) (\<lambda>issuer_name_der.
     and_then (sha1_hash Q issuer_name_der) (\<lambda>expected_name_hash.
     and_then (sha1_hash Q (subject_public_key (subject_public_key_info issuer_cert))) (\<lambda>expected_key_hash.
       find_matching_response (po_responses parsed) expected_name_hash expected_key_hash
         (parse_integer_body (serial_number cert)))))"

definition check_revocation_detailed_inner ::
  "lib \<Rightarrow> olib \<Rightarrow> crypto \<Rightarrow> chrono \<Rightarrow> datetime \<Rightarrow> bytes \<Rightarrow> certificate \<Rightarrow> certificate \<Rightarrow> bytes option \<Rightarrow> datetime option
    \<Rightarrow> signature_policy \<Rightarrow> freshness \<Rightarrow> (certificate list \<times> trust_store) option \<Rightarrow> bool
    \<Rightarrow> (ocsp_error, ocsp_outcome) result" where
  "check_revocation_detailed_inner L Q K ch wall_clock response_der cert issuer_cert nonce validation_time policy fr
     issuer_path require_nonce =
     (let now = (case validation_time of Some t \<Rightarrow> t | None \<Rightarrow> wall_clock) in
      if require_nonce \<and> (case nonce of None \<Rightarrow> True | Some n \<Rightarrow> n = []) then Inl (Ocsp ONonceRequired)
      else
      and_then (parse_ocsp_response L ch response_der) (\<lambda>parsed.
      and_then (verify_ocsp_response_signature L K parsed issuer_cert policy) (\<lambda>responder.
      and_then (authorize_responder L Q K responder issuer_cert parsed policy now issuer_path) (\<lambda>delegated.
      and_then (check_response_nonce nonce (po_nonce parsed) require_nonce) (\<lambda>_.
      and_then (response_for_cert L Q parsed cert issuer_cert) (\<lambda>matching.
        case matching of
          None \<Rightarrow> Inr \<lparr>oo_status = Unknown WhyNotInResponse, oo_delegated_responder = None\<rparr>
        | Some sr \<Rightarrow>
            and_then (validate_response_freshness sr now fr) (\<lambda>_.
              Inr \<lparr>oo_status = map_cert_status (sr_cert_status sr) now, oo_delegated_responder = delegated\<rparr>)))))))"

definition check_revocation_detailed ::
  "lib \<Rightarrow> olib \<Rightarrow> crypto \<Rightarrow> chrono \<Rightarrow> datetime \<Rightarrow> bytes \<Rightarrow> certificate \<Rightarrow> certificate \<Rightarrow> bytes option \<Rightarrow> datetime option
    \<Rightarrow> signature_policy \<Rightarrow> freshness \<Rightarrow> (ocsp_error, ocsp_outcome) result" where
  "check_revocation_detailed L Q K ch wall_clock response_der cert issuer_cert nonce validation_time policy fr =
     check_revocation_detailed_inner L Q K ch wall_clock response_der cert issuer_cert nonce validation_time policy fr
       None False"

definition check_revocation_detailed_with_issuer_path ::
  "lib \<Rightarrow> olib \<Rightarrow> crypto \<Rightarrow> chrono \<Rightarrow> datetime \<Rightarrow> bytes \<Rightarrow> certificate \<Rightarrow> certificate \<Rightarrow> bytes option \<Rightarrow> datetime option
    \<Rightarrow> signature_policy \<Rightarrow> freshness \<Rightarrow> certificate list \<Rightarrow> trust_store \<Rightarrow> bool \<Rightarrow> (ocsp_error, ocsp_outcome) result" where
  "check_revocation_detailed_with_issuer_path L Q K ch wall_clock response_der cert issuer_cert nonce validation_time
     policy fr issuer_chain store require_nonce =
     (if issuer_chain = [] \<or> hd issuer_chain \<noteq> issuer_cert then Inl (Ocsp OPathStart)
      else check_revocation_detailed_inner L Q K ch wall_clock response_der cert issuer_cert nonce validation_time policy fr
        (Some (issuer_chain, store)) require_nonce)"

definition check_revocation_detailed_with_nonce_policy ::
  "lib \<Rightarrow> olib \<Rightarrow> crypto \<Rightarrow> chrono \<Rightarrow> datetime \<Rightarrow> bytes \<Rightarrow> certificate \<Rightarrow> certificate \<Rightarrow> bytes option \<Rightarrow> datetime option
    \<Rightarrow> signature_policy \<Rightarrow> freshness \<Rightarrow> bool \<Rightarrow> (ocsp_error, ocsp_outcome) result" where
  "check_revocation_detailed_with_nonce_policy L Q K ch wall_clock response_der cert issuer_cert nonce validation_time
     policy fr require_nonce =
     check_revocation_detailed_inner L Q K ch wall_clock response_der cert issuer_cert nonce validation_time policy fr
       None require_nonce"

definition complete_ocsp_outcome :: "ocsp_outcome \<Rightarrow> (ocsp_error, ocsp_why validation_status) result" where
  "complete_ocsp_outcome outcome =
     (if oo_delegated_responder outcome \<noteq> None then Inl (Ocsp ODelegatedNeedsCheck) else Inr (oo_status outcome))"

definition ocsp_check_revocation_with_options ::
  "lib \<Rightarrow> olib \<Rightarrow> crypto \<Rightarrow> chrono \<Rightarrow> datetime \<Rightarrow> bytes \<Rightarrow> certificate \<Rightarrow> certificate \<Rightarrow> bytes option \<Rightarrow> datetime option
    \<Rightarrow> signature_policy \<Rightarrow> freshness \<Rightarrow> (ocsp_error, ocsp_why validation_status) result" where
  "ocsp_check_revocation_with_options L Q K ch wall_clock response_der cert issuer_cert nonce validation_time policy fr =
     and_then (check_revocation_detailed L Q K ch wall_clock response_der cert issuer_cert nonce validation_time policy fr)
       complete_ocsp_outcome"

definition ocsp_check_revocation_with_policy ::
  "lib \<Rightarrow> olib \<Rightarrow> crypto \<Rightarrow> chrono \<Rightarrow> datetime \<Rightarrow> bytes \<Rightarrow> certificate \<Rightarrow> certificate \<Rightarrow> bytes option \<Rightarrow> datetime option
    \<Rightarrow> signature_policy \<Rightarrow> (ocsp_error, ocsp_why validation_status) result" where
  "ocsp_check_revocation_with_policy L Q K ch wall_clock response_der cert issuer_cert nonce validation_time policy =
     ocsp_check_revocation_with_options L Q K ch wall_clock response_der cert issuer_cert nonce validation_time policy
       ocsp_freshness_default"

definition ocsp_check_revocation ::
  "lib \<Rightarrow> olib \<Rightarrow> crypto \<Rightarrow> chrono \<Rightarrow> datetime \<Rightarrow> bytes \<Rightarrow> certificate \<Rightarrow> certificate \<Rightarrow> bytes option \<Rightarrow> datetime option
    \<Rightarrow> (ocsp_error, ocsp_why validation_status) result" where
  "ocsp_check_revocation L Q K ch wall_clock response_der cert issuer_cert nonce validation_time =
     ocsp_check_revocation_with_policy L Q K ch wall_clock response_der cert issuer_cert nonce validation_time policy_default"

subsection \<open>The client\<close>

record ocsp_client =
  oc_http_client :: attested_http_client
  oc_timeout :: nat
  oc_max_body_size :: nat

text \<open>The error of the constructors is the variant \<open>LtvError::HttpClient\<close>.\<close>

definition ocsp_client_new :: "http_platform \<Rightarrow> (http_client_error, ocsp_client) result" where
  "ocsp_client_new P =
     and_then (hardened_http_client P) (\<lambda>client.
       Inr \<lparr>oc_http_client = client, oc_timeout = 30, oc_max_body_size = OCSP_MAX_BODY_SIZE\<rparr>)"

definition ocsp_http_client :: "ocsp_client \<Rightarrow> attested_http_client \<Rightarrow> ocsp_client" where
  "ocsp_http_client c client = c\<lparr>oc_http_client := client\<rparr>"

definition ocsp_unverified_http_client ::
  "http_platform \<Rightarrow> ocsp_client \<Rightarrow> http_client \<Rightarrow> (http_client_error, ocsp_client) result" where
  "ocsp_unverified_http_client P c client =
     and_then (unverified_http_client P client) (\<lambda>client. Inr (c\<lparr>oc_http_client := client\<rparr>))"

definition ocsp_client_timeout :: "ocsp_client \<Rightarrow> nat \<Rightarrow> ocsp_client" where
  "ocsp_client_timeout c t = c\<lparr>oc_timeout := t\<rparr>"

definition ocsp_client_max_body_size :: "ocsp_client \<Rightarrow> nat \<Rightarrow> ocsp_client" where
  "ocsp_client_max_body_size c n = c\<lparr>oc_max_body_size := n\<rparr>"

record ocsp_env = net_env +
  http_post :: "rstr \<Rightarrow> bytes \<Rightarrow> http_response option"

fun read_ocsp_chunks :: "nat \<Rightarrow> bytes \<Rightarrow> bytes option list \<Rightarrow> (ocsp_error, bytes) result" where
  "read_ocsp_chunks max_body body [] = Inr body"
| "read_ocsp_chunks max_body body (None # _) = Inl (Ocsp (OFetch FetchRead))"
| "read_ocsp_chunks max_body body (Some chunk # chunks) =
     (if max_body - length body < length chunk then Inl (Ocsp (OFetch FetchTooLarge))
      else read_ocsp_chunks max_body (body @ chunk) chunks)"

definition read_response_body :: "ocsp_client \<Rightarrow> http_response \<Rightarrow> (ocsp_error, bytes) result" where
  "read_response_body client resp =
     and_then (case http_content_length resp of
         Some len \<Rightarrow> if oc_max_body_size client < len then Inl (Ocsp (OFetch (FetchAnnounced len))) else Inr ()
       | None \<Rightarrow> Inr ()) (\<lambda>_.
       read_ocsp_chunks (oc_max_body_size client) [] (http_chunks resp))"

text \<open>The URLs a request was sent to come back with the result.\<close>

definition send_ocsp_request ::
  "ocsp_client \<Rightarrow> ocsp_env \<Rightarrow> rstr \<Rightarrow> bytes \<Rightarrow> (ocsp_error, bytes) result \<times> rstr list" where
  "send_ocsp_request client E url request_der =
     (if guard_timeout E url then (Inl (Ocsp (OFetch FetchGuardTimeout)), [])
      else case validate_fetch_url (net_resolver E) url of
        Inl e \<Rightarrow> (Inl (Ocsp (OFetch (FetchGuard e))), [])
      | Inr _ \<Rightarrow>
          (and_then (ok_or (Ocsp (OFetch FetchSend)) (http_post E url request_der)) (\<lambda>resp.
             if \<not> http_success resp then Inl (Ocsp (OFetch FetchStatus))
             else
             and_then (read_response_body client resp) (\<lambda>resp_bytes.
               if resp_bytes = [] then Inl (Ocsp OEmptyBody)
               else if hd resp_bytes \<noteq> 0x30 then Inl (Ocsp ONotDer)
               else and_then (validate_ocsp_response_status resp_bytes) (\<lambda>_. Inr resp_bytes))), [url]))"

text \<open>The responders in turn; \<open>Es i\<close> is the network of the \<open>i\<close>th attempt, \<open>last\<close> the last error.\<close>

fun try_responders ::
  "ocsp_client \<Rightarrow> (nat \<Rightarrow> ocsp_env) \<Rightarrow> nat \<Rightarrow> bytes \<Rightarrow> ocsp_error \<Rightarrow> rstr list \<Rightarrow> (ocsp_error, bytes) result \<times> rstr list" where
  "try_responders client Es i request last_error [] = (Inl last_error, [])"
| "try_responders client Es i request last_error (url # urls) =
     (case send_ocsp_request client (Es i) url request of
        (Inr response, sent) \<Rightarrow> (Inr response, sent)
      | (Inl e, sent) \<Rightarrow> map_prod id (append sent) (try_responders client Es (i + 1) request e urls))"

definition fetch_ocsp_response ::
  "lib \<Rightarrow> olib \<Rightarrow> ocsp_client \<Rightarrow> (nat \<Rightarrow> ocsp_env) \<Rightarrow> certificate \<Rightarrow> certificate \<Rightarrow> (ocsp_error, bytes) result \<times> rstr list" where
  "fetch_ocsp_response L Q client Es cert issuer_cert =
     (let urls = extract_ocsp_urls Q cert in
      if urls = [] then (Inl (Ocsp ONoUrl), [])
      else case build_ocsp_request L Q cert issuer_cert of
        Inl e \<Rightarrow> (Inl e, [])
      | Inr request \<Rightarrow> try_responders client Es 0 request (Ocsp ONoUrl) urls)"

definition fetch_ocsp_response_with_nonce ::
  "lib \<Rightarrow> olib \<Rightarrow> ocsp_client \<Rightarrow> (nat \<Rightarrow> ocsp_env) \<Rightarrow> bytes option \<Rightarrow> certificate \<Rightarrow> certificate
    \<Rightarrow> (ocsp_error, bytes \<times> bytes) result \<times> rstr list" where
  "fetch_ocsp_response_with_nonce L Q client Es random cert issuer_cert =
     (let urls = extract_ocsp_urls Q cert in
      if urls = [] then (Inl (Ocsp ONoUrl), [])
      else case build_ocsp_request_with_nonce L Q random cert issuer_cert of
        Inl e \<Rightarrow> (Inl e, [])
      | Inr (request, nonce) \<Rightarrow>
          map_prod (\<lambda>r. and_then r (\<lambda>response. Inr (response, nonce))) id
            (try_responders client Es 0 request (Ocsp ONoUrl) urls))"

end
