(* ===== verification/Revocation.thy ===== *)
theory Revocation
  imports Crl_Client Ocsp_Check Status
begin

section \<open>The revocation orchestrator (\<open>src/src/ltv/revocation.rs\<close>)\<close>

text \<open>
  OCSP and CRL checks run side by side under deadlines; their results are merged and the policy is
  applied. A future is its value with the time from its start until the poll that finds it ready
  (in milliseconds, as are durations), or never. A task is polled as soon as it is woken.
\<close>

subsection \<open>Futures\<close>

datatype 'a future = Resolves nat 'a | Never

fun await :: "'a future \<Rightarrow> ('a \<Rightarrow> 'b future) \<Rightarrow> 'b future" where
  "await Never f = Never"
| "await (Resolves t v) f = (case f v of Resolves u w \<Rightarrow> Resolves (t + u) w | Never \<Rightarrow> Never)"

text \<open>\<open>tokio::time::timeout\<close> polls the future before its timer.\<close>

fun timeout :: "nat \<Rightarrow> 'a future \<Rightarrow> 'a option future" where
  "timeout d (Resolves t v) = (if t \<le> d then Resolves t (Some v) else Resolves d None)"
| "timeout d Never = Resolves d None"

fun takes :: "nat option \<Rightarrow> 'a \<Rightarrow> 'a future" where
  "takes (Some t) v = Resolves t v"
| "takes None v = Never"

abbreviation ready :: "'a \<Rightarrow> 'a future" where "ready \<equiv> Resolves 0"

fun block_on :: "'a future \<Rightarrow> 'a option" where
  "block_on (Resolves t v) = Some v"
| "block_on Never = None"

lemma await_cong [fundef_cong]:
  "m = m' \<Longrightarrow> (\<And>t v. m' = Resolves t v \<Longrightarrow> f v = f' v) \<Longrightarrow> await m f = await m' f'"
  by (cases m') auto

lemma await_Resolves_iff:
  "await m f = Resolves t w \<longleftrightarrow> (\<exists>t1 t2 v. m = Resolves t1 v \<and> f v = Resolves t2 w \<and> t = t1 + t2)"
  by (cases m) (auto split: future.splits)

lemma timeout_Resolves_iff:
  "timeout d m = Resolves t r \<longleftrightarrow>
     (\<exists>v. m = Resolves t v \<and> t \<le> d \<and> r = Some v) \<or> (\<forall>u v. m = Resolves u v \<longrightarrow> d < u) \<and> t = d \<and> r = None"
  by (cases m) (auto split: if_splits)

lemma takes_Resolves_iff: "takes o' v = Resolves t w \<longleftrightarrow> o' = Some t \<and> v = w"
  by (cases o') auto

lemmas future_iff = await_Resolves_iff timeout_Resolves_iff takes_Resolves_iff

subsection \<open>Configuration\<close>

definition from_secs :: "nat \<Rightarrow> nat" where "from_secs n = 1000 * n"

record revocation_config =
  prefer_ocsp :: bool
  require_revocation_check :: bool
  ocsp_timeout :: nat
  crl_timeout :: nat
  use_ocsp_nonce :: bool
  max_ocsp_recursion :: nat
  per_cert_timeout :: nat
  rc_signature_policy :: signature_policy
  rc_ocsp_freshness :: freshness
  rc_crl_freshness :: freshness

definition revocation_config_default :: revocation_config where
  "revocation_config_default = \<lparr>prefer_ocsp = True, require_revocation_check = True, ocsp_timeout = from_secs 3,
     crl_timeout = from_secs 7, use_ocsp_nonce = True, max_ocsp_recursion = 1, per_cert_timeout = from_secs 10,
     rc_signature_policy = policy_default, rc_ocsp_freshness = ocsp_freshness_default,
     rc_crl_freshness = crl_freshness_default\<rparr>"

definition revocation_config_disabled :: revocation_config where
  "revocation_config_disabled = revocation_config_default\<lparr>require_revocation_check := False\<rparr>"

definition revocation_config_strict :: revocation_config where
  "revocation_config_strict = revocation_config_default\<lparr>require_revocation_check := True, ocsp_timeout := from_secs 2,
     crl_timeout := from_secs 5, per_cert_timeout := from_secs 8\<rparr>"

definition allow_legacy_signatures :: "revocation_config \<Rightarrow> revocation_config" where
  "allow_legacy_signatures config = config\<lparr>rc_signature_policy := policy_allow_legacy\<rparr>"

definition with_ocsp_freshness :: "revocation_config \<Rightarrow> freshness \<Rightarrow> revocation_config" where
  "with_ocsp_freshness config fr = config\<lparr>rc_ocsp_freshness := fr\<rparr>"

definition with_crl_freshness :: "revocation_config \<Rightarrow> freshness \<Rightarrow> revocation_config" where
  "with_crl_freshness config fr = config\<lparr>rc_crl_freshness := fr\<rparr>"

record ocsp_validation_context =
  vc_issuer_path :: "(certificate list \<times> trust_store) option"
  vc_require_nonce :: bool

definition ocsp_validation_context_default :: ocsp_validation_context where
  "ocsp_validation_context_default = \<lparr>vc_issuer_path = None, vc_require_nonce = False\<rparr>"

subsection \<open>Reasons\<close>

datatype rev_why =
    RwOcsp ocsp_why
  | RwNoncePolicy
  | RwNoOcspUrl
  | RwOcspFetch ocsp_error
  | RwOcspUnavailable ocsp_error
  | RwOcspInvalid ocsp_error
  | RwNoBudget
  | RwResponder "rev_why validation_status"
  | RwOcspTimeout nat
  | RwNoCrlPoints
  | RwNoCrls
  | RwCrlInvalid crl_error
  | RwCrlTimeout nat
  | RwOcspPending
  | RwCrlPending
  | RwRequired rev_why

type_synonym rev_status = "rev_why validation_status"

subsection \<open>Merging and policy\<close>

definition merge_preferred :: "rev_status \<Rightarrow> rev_status \<Rightarrow> bool \<Rightarrow> rev_status" where
  "merge_preferred ocsp crl prefer = (if prefer then resolve_priority ocsp crl else resolve_priority crl ocsp)"

definition enforce_revocation_policy :: "rev_status \<Rightarrow> bool \<Rightarrow> rev_status" where
  "enforce_revocation_policy status required =
     (if \<not> required then status
      else case status of Unknown reason \<Rightarrow> Invalid (RwRequired reason) | other \<Rightarrow> other)"

definition ocsp_check_error_to_status :: "ocsp_error \<Rightarrow> rev_status" where
  "ocsp_check_error_to_status e =
     (case e of OcspResponderStatus _ \<Rightarrow> Unknown (RwOcspUnavailable e) | other \<Rightarrow> Invalid (RwOcspInvalid other))"

subsection \<open>Collecting the two results under one deadline\<close>

text \<open>One round of the biased \<open>select!\<close>: the task wakes when the first enabled branch is ready and
  takes the first ready branch in the order OCSP, CRL, deadline.\<close>

datatype selected = SelOcsp nat rev_status | SelCrl nat rev_status | SelDeadline nat

fun poll :: "'a future \<Rightarrow> nat \<Rightarrow> 'a option" where
  "poll (Resolves t v) now = (if t \<le> now then Some v else None)"
| "poll Never now = None"

fun wakes_at :: "'a future \<Rightarrow> nat \<Rightarrow> nat" where
  "wakes_at (Resolves t v) deadline = min t deadline"
| "wakes_at Never deadline = deadline"

definition select_branch ::
  "rev_status future \<Rightarrow> rev_status future \<Rightarrow> nat \<Rightarrow> rev_status option \<Rightarrow> rev_status option \<Rightarrow> nat \<Rightarrow> selected" where
  "select_branch ocsp crl deadline ocsp_status crl_status now =
     (let ocsp = (if ocsp_status = None then ocsp else Never);
          crl = (if crl_status = None then crl else Never);
          wake = max now (min (wakes_at ocsp deadline) (wakes_at crl deadline))
      in case poll ocsp wake of
           Some status \<Rightarrow> SelOcsp wake status
         | None \<Rightarrow>
             (case poll crl wake of
                Some status \<Rightarrow> SelCrl wake status
              | None \<Rightarrow> SelDeadline wake))"

function collect_loop ::
  "rev_status future \<Rightarrow> rev_status future \<Rightarrow> nat \<Rightarrow> rev_status option \<Rightarrow> rev_status option \<Rightarrow> nat
    \<Rightarrow> (rev_status option \<times> rev_status option) future" where
  "collect_loop ocsp crl deadline ocsp_status crl_status now =
     (if ocsp_status \<noteq> None \<and> crl_status \<noteq> None then Resolves now (ocsp_status, crl_status)
      else case select_branch ocsp crl deadline ocsp_status crl_status now of
        SelOcsp now status \<Rightarrow> collect_loop ocsp crl deadline (Some status) crl_status now
      | SelCrl now status \<Rightarrow> collect_loop ocsp crl deadline ocsp_status (Some status) now
      | SelDeadline now \<Rightarrow> Resolves now (ocsp_status, crl_status))"
  by pat_completeness auto
termination
  by (relation "measure (\<lambda>(_, _, _, a, b, _). (if a = None then 1 else 0) + (if b = None then 1 else 0))")
    (auto simp: select_branch_def Let_def split: if_splits option.splits)

declare collect_loop.simps [simp del]

definition collect_revocation_results ::
  "rev_status future \<Rightarrow> rev_status future \<Rightarrow> nat \<Rightarrow> (rev_status \<times> rev_status) future" where
  "collect_revocation_results ocsp crl deadline =
     await (collect_loop ocsp crl deadline None None 0) (\<lambda>(ocsp_status, crl_status).
       ready (case ocsp_status of Some s \<Rightarrow> s | None \<Rightarrow> Unknown RwOcspPending,
              case crl_status of Some s \<Rightarrow> s | None \<Rightarrow> Unknown RwCrlPending))"

subsection \<open>The two checks\<close>

text \<open>
  What the checks use: the libraries and clients, and the outside world as the check of the
  certificate sees it (index 0), the check of its delegated responder (index 1), and so on. A fetch takes
  some time or never returns; the CRL cache is the one the check finds when it starts.
\<close>

record services =
  sv_lib :: lib
  sv_olib :: olib
  sv_crypto :: crypto
  sv_chrono :: chrono
  sv_ocsp :: ocsp_client
  sv_crl :: crl_client

record rev_env =
  re_ocsp_time :: "nat option"
  re_ocsp_net :: "nat \<Rightarrow> ocsp_env"
  re_random :: "bytes option"
  re_ocsp_clock :: datetime
  re_crl_time :: "nat option"
  re_crl_net :: "nat \<Rightarrow> fetch_env"
  re_crl_cache :: crl_cache
  re_crl_clock :: datetime

definition run_crl_check ::
  "services \<Rightarrow> rev_env \<Rightarrow> certificate \<Rightarrow> certificate \<Rightarrow> revocation_config \<Rightarrow> datetime option \<Rightarrow> rev_status future" where
  "run_crl_check S e cert issuer_cert config validation_time =
     (if extract_crl_urls cert = [] then ready (Unknown RwNoCrlPoints)
      else
        await (timeout (crl_timeout config)
          (await (takes (re_crl_time e)
             (fst (fetch_crls_for_cert_with_freshness (sv_lib S) (sv_chrono S) (sv_crl S) (re_crl_net e) cert
               (rc_crl_freshness config) (re_crl_cache e)))) (\<lambda>crls.
             if crls = [] then ready (Unknown RwNoCrls)
             else case crl_check_revocation_with_options (sv_lib S) (sv_crypto S) (sv_chrono S) (re_crl_clock e) (hd crls)
                 cert issuer_cert validation_time (rc_signature_policy config) (rc_crl_freshness config) of
               Inr status \<Rightarrow> ready status
             | Inl err \<Rightarrow> ready (Invalid (RwCrlInvalid err)))))
          (\<lambda>result. ready (case result of Some status \<Rightarrow> status | None \<Rightarrow> Unknown (RwCrlTimeout (crl_timeout config)))))"

definition fetch_for_check ::
  "services \<Rightarrow> rev_env \<Rightarrow> certificate \<Rightarrow> certificate \<Rightarrow> revocation_config \<Rightarrow> (ocsp_error, bytes \<times> bytes option) result" where
  "fetch_for_check S e cert issuer_cert config =
     (if use_ocsp_nonce config
      then and_then (fst (fetch_ocsp_response_with_nonce (sv_lib S) (sv_olib S) (sv_ocsp S) (re_ocsp_net e) (re_random e)
             cert issuer_cert)) (\<lambda>(der, nonce). Inr (der, Some nonce))
      else and_then (fst (fetch_ocsp_response (sv_lib S) (sv_olib S) (sv_ocsp S) (re_ocsp_net e) cert issuer_cert))
             (\<lambda>der. Inr (der, None)))"

definition check_response ::
  "services \<Rightarrow> rev_env \<Rightarrow> certificate \<Rightarrow> certificate \<Rightarrow> revocation_config \<Rightarrow> datetime option \<Rightarrow> ocsp_validation_context
    \<Rightarrow> bytes \<Rightarrow> bytes option \<Rightarrow> (ocsp_error, ocsp_outcome) result" where
  "check_response S e cert issuer_cert config validation_time ctx response_der nonce =
     (case vc_issuer_path ctx of
        Some (path, store) \<Rightarrow>
          check_revocation_detailed_with_issuer_path (sv_lib S) (sv_olib S) (sv_crypto S) (sv_chrono S) (re_ocsp_clock e)
            response_der cert issuer_cert nonce validation_time (rc_signature_policy config) (rc_ocsp_freshness config)
            path store (vc_require_nonce ctx)
      | None \<Rightarrow>
          check_revocation_detailed_with_nonce_policy (sv_lib S) (sv_olib S) (sv_crypto S) (sv_chrono S) (re_ocsp_clock e)
            response_der cert issuer_cert nonce validation_time (rc_signature_policy config) (rc_ocsp_freshness config)
            (vc_require_nonce ctx))"

function run_ocsp_check ::
  "services \<Rightarrow> (nat \<Rightarrow> rev_env) \<Rightarrow> certificate \<Rightarrow> certificate \<Rightarrow> revocation_config \<Rightarrow> datetime option
    \<Rightarrow> ocsp_validation_context \<Rightarrow> rev_status future"
and check_delegated_responder_revocation ::
  "services \<Rightarrow> (nat \<Rightarrow> rev_env) \<Rightarrow> certificate \<Rightarrow> certificate \<Rightarrow> revocation_config \<Rightarrow> datetime option
    \<Rightarrow> ocsp_validation_context \<Rightarrow> rev_status future" where
  "run_ocsp_check S W cert issuer_cert config validation_time ctx =
     (if vc_require_nonce ctx \<and> \<not> use_ocsp_nonce config then ready (Invalid RwNoncePolicy)
      else if extract_ocsp_urls (sv_olib S) cert = [] then ready (Unknown RwNoOcspUrl)
      else
        await (timeout (ocsp_timeout config)
          (await (takes (re_ocsp_time (W 0)) (fetch_for_check S (W 0) cert issuer_cert config)) (\<lambda>fetched.
             case fetched of
               Inl e \<Rightarrow> ready (Unknown (RwOcspFetch e))
             | Inr (response_der, nonce) \<Rightarrow>
                 (case check_response S (W 0) cert issuer_cert config validation_time ctx response_der nonce of
                    Inl e \<Rightarrow> ready (ocsp_check_error_to_status e)
                  | Inr outcome \<Rightarrow>
                      (case oo_delegated_responder outcome of
                         None \<Rightarrow> ready (map_validation_status RwOcsp (oo_status outcome))
                       | Some responder \<Rightarrow>
                           if max_ocsp_recursion config = 0 then ready (Invalid RwNoBudget)
                           else
                             await (check_delegated_responder_revocation S W responder issuer_cert config
                               validation_time ctx) (\<lambda>responder_status.
                               if is_revoked responder_status \<or> is_invalid responder_status
                               then ready (Invalid (RwResponder responder_status))
                               else ready (map_validation_status RwOcsp (oo_status outcome))))))))
          (\<lambda>result. ready (case result of Some status \<Rightarrow> status | None \<Rightarrow> Unknown (RwOcspTimeout (ocsp_timeout config)))))"
| "check_delegated_responder_revocation S W responder ca_issuer config validation_time ctx =
     (let sub_config = config\<lparr>max_ocsp_recursion := max_ocsp_recursion config - 1\<rparr>;
          W' = (\<lambda>i. W (i + 1))
      in await (collect_revocation_results
           (run_ocsp_check S W' responder ca_issuer sub_config validation_time ctx)
           (run_crl_check S (W' 0) responder ca_issuer sub_config validation_time)
           (per_cert_timeout config)) (\<lambda>(ocsp_status, crl_status).
           ready (enforce_revocation_policy (merge_preferred ocsp_status crl_status (prefer_ocsp config))
             (require_revocation_check sub_config))))"
  by pat_completeness auto
termination
  by (relation "measure (\<lambda>x. case x of
        Inl (_, _, _, _, config, _) \<Rightarrow> 2 * max_ocsp_recursion config
      | Inr (_, _, _, _, config, _) \<Rightarrow> if max_ocsp_recursion config = 0 then 1 else 2 * max_ocsp_recursion config - 1)")
    auto

declare run_ocsp_check.simps [simp del] check_delegated_responder_revocation.simps [simp del]

definition check_certificate_revocation_with_ocsp_context ::
  "services \<Rightarrow> (nat \<Rightarrow> rev_env) \<Rightarrow> certificate \<Rightarrow> certificate \<Rightarrow> revocation_config \<Rightarrow> datetime option
    \<Rightarrow> ocsp_validation_context \<Rightarrow> rev_status future" where
  "check_certificate_revocation_with_ocsp_context S W cert issuer_cert config validation_time ctx =
     await (collect_revocation_results
       (run_ocsp_check S W cert issuer_cert config validation_time ctx)
       (run_crl_check S (W 0) cert issuer_cert config validation_time)
       (per_cert_timeout config)) (\<lambda>(ocsp_status, crl_status).
       ready (enforce_revocation_policy (merge_preferred ocsp_status crl_status (prefer_ocsp config))
         (require_revocation_check config)))"

definition check_certificate_revocation ::
  "services \<Rightarrow> (nat \<Rightarrow> rev_env) \<Rightarrow> certificate \<Rightarrow> certificate \<Rightarrow> revocation_config \<Rightarrow> datetime option \<Rightarrow> rev_status future" where
  "check_certificate_revocation S W cert issuer_cert config validation_time =
     check_certificate_revocation_with_ocsp_context S W cert issuer_cert config validation_time
       ocsp_validation_context_default"

definition check_certificate_revocation_blocking ::
  "services \<Rightarrow> (nat \<Rightarrow> rev_env) \<Rightarrow> certificate \<Rightarrow> certificate \<Rightarrow> revocation_config \<Rightarrow> datetime option \<Rightarrow> rev_status option" where
  "check_certificate_revocation_blocking S W cert issuer_cert config validation_time =
     block_on (check_certificate_revocation S W cert issuer_cert config validation_time)"

end
