(* ===== verification/Ocsp_Facts.thy ===== *)
theory Ocsp_Facts
  imports Ocsp_Check Path_Validation
begin

section \<open>What an OCSP answer is worth\<close>

text \<open>
  The conditions under which the check of \<open>Ocsp_Check\<close> gives a status: who may sign, which nonce and
  entry count; that the signed bytes fix what is read; and that requests and responses name a
  certificate the same way.
\<close>

subsection \<open>Specifications\<close>

definition ocsp_signed_with :: "lib \<Rightarrow> crypto \<Rightarrow> signature_policy \<Rightarrow> parsed_ocsp \<Rightarrow> certificate \<Rightarrow> bool" where
  "ocsp_signed_with L K policy p signer \<longleftrightarrow>
     (\<exists>spki. spki_to_der L (subject_public_key_info signer) = Some spki
        \<and> verify_signature_by_algid_with_policy K (po_tbs_response_data p) (po_signature_bytes p) spki
            (po_signature_algorithm p) policy = Inr ())"

text \<open>A certification path accepted for a role at a time, under a policy no laxer than either of the two.\<close>

definition path_accepted ::
  "lib \<Rightarrow> olib \<Rightarrow> crypto \<Rightarrow> signature_policy \<Rightarrow> datetime \<Rightarrow> cert_role \<Rightarrow> trust_store \<Rightarrow> certificate list \<Rightarrow> bool" where
  "path_accepted L Q K policy now role store path \<longleftrightarrow>
     (\<exists>at pol anchor. der_datetime_new Q now = Some at
        \<and> (allow_legacy pol \<longrightarrow> allow_legacy policy \<and> allow_legacy (ts_signature_policy store))
        \<and> verify_chain_inner True L K (with_signature_policy store pol) path (Some at) (Some role) False = Inr anchor)"

text \<open>A certificate the issuing CA has delegated OCSP signing to.\<close>

definition delegated_signer ::
  "lib \<Rightarrow> olib \<Rightarrow> crypto \<Rightarrow> signature_policy \<Rightarrow> datetime \<Rightarrow> (certificate list \<times> trust_store) option
    \<Rightarrow> certificate \<Rightarrow> certificate \<Rightarrow> bool" where
  "delegated_signer L Q K policy now path ca signer \<longleftrightarrow>
     issuer signer = subject ca
     \<and> verify_certificate_signature_with_policy L K signer ca policy = Inr ()
     \<and> distinct (ext_ids signer) \<and> role_profile L signer OcspResponder
     \<and> snd (add_from_cert nc_default ca) = Inr ()
     \<and> check_cert L (fst (add_from_cert nc_default ca)) signer = Inr ()
     \<and> (\<exists>chain store. path = Some (chain, store)
          \<and> path_accepted L Q K policy now OcspResponder store (signer # chain))"

definition nonce_matches :: "bytes \<Rightarrow> bytes \<Rightarrow> bool" where
  "nonce_matches request response \<longleftrightarrow> response = request \<or> response = encode_tlv 0x04 request"

text \<open>The entry answers for the certificate: SHA-1 hashes of the issuer's name and key, and the serial.\<close>

definition entry_for :: "lib \<Rightarrow> olib \<Rightarrow> certificate \<Rightarrow> certificate \<Rightarrow> single_response \<Rightarrow> bool" where
  "entry_for L Q cert ca sr \<longleftrightarrow>
     sr_hash_algorithm_oid sr = CERT_ID_HASH_ALGORITHM_OID
     \<and> (\<exists>n. name_to_der L (subject ca) = Some n \<and> sha1 Q n = Some (sr_issuer_name_hash sr))
     \<and> sha1 Q (subject_public_key (subject_public_key_info ca)) = Some (sr_issuer_key_hash sr)
     \<and> integer_bodies_equal (sr_serial_number sr) (parse_integer_body (serial_number cert))"

definition entry_fresh :: "freshness \<Rightarrow> datetime \<Rightarrow> single_response \<Rightarrow> bool" where
  "entry_fresh fr now sr \<longleftrightarrow>
     (case sr_next_update sr of
        Some nxt \<Rightarrow> sr_this_update sr \<le> nxt \<and> now \<le> nxt + clock_skew fr
      | None \<Rightarrow> now \<le> sr_this_update sr + max_age_without_next_update fr + clock_skew fr)"

subsection \<open>The steps\<close>

lemma validate_nonce_iff: "validate_nonce n m = Inr () \<longleftrightarrow> nonce_matches n m"
proof -
  have "m = encode_tlv 0x04 n" if "parse_tlv_with_rest m = Inr (0x04, n, [])"
    using that by (simp add: tlv_Inr_iff)
  then show ?thesis by (auto simp: validate_nonce_def nonce_matches_def split: sum.splits)
qed

lemma try_signers_sound:
  "try_signers L K p ca policy cands = Inr r \<Longrightarrow>
     ocsp_signed_with L K policy p r \<and> (certs_have_same_identity r ca \<longrightarrow> r = ca)"
proof (induction cands)
  case (Cons c cands)
  show ?case
  proof (cases "\<exists>spki. spki_to_der L (subject_public_key_info c) = Some spki
      \<and> is_ok (verify_signature_by_algid_with_policy K (po_tbs_response_data p) (po_signature_bytes p) spki
            (po_signature_algorithm p) policy)")
    case True
    with Cons.prems have r: "r = (if certs_have_same_identity c ca then ca else c)" by auto
    from True have "ocsp_signed_with L K policy p c" by (auto simp: ocsp_signed_with_def is_ok_iff)
    with r show ?thesis by (auto simp: ocsp_signed_with_def certs_have_same_identity_def)
  next
    case False
    with Cons show ?thesis by (auto split: option.splits if_splits)
  qed
qed simp

lemma path_policy:
  fixes policy :: signature_policy and store :: trust_store
  defines "eff \<equiv> (if allow_legacy policy \<and> allow_legacy (ts_signature_policy store) then policy_allow_legacy else policy_strict)"
  shows "(if eff = ts_signature_policy store then store else with_signature_policy store eff) = with_signature_policy store eff"
    and "allow_legacy eff \<longrightarrow> allow_legacy policy \<and> allow_legacy (ts_signature_policy store)"
  by (auto simp: eff_def with_signature_policy_def policy_strict_def)

lemma validate_ocsp_path_sound:
  "validate_ocsp_certificate_path L Q K chain store role policy now = Inr () \<Longrightarrow>
     path_accepted L Q K policy now role store chain"
  unfolding validate_ocsp_certificate_path_def Let_def path_policy(1) path_accepted_def
    verify_chain_for_purpose_with_fraction_def subsec_nanos_def
  using path_policy(2) [of policy store] by (auto simp: result_simps)

lemma delegated_extensions_role:
  "validate_delegated_responder_extensions L Q cert = Inr () \<Longrightarrow>
     distinct (ext_ids cert) \<and> role_profile L cert OcspResponder"
  unfolding validate_delegated_responder_extensions_def and_then_Inr_iff map_err_Inr_iff
  using role_check_iff validate_role_unfold by blast

lemma responder_trust_sound:
  assumes "validate_responder_trust L Q K r ca p policy now = Inr chk"
  shows "not_before r \<le> now" "now \<le> not_after r"
    "responder_matches_responder_id L Q r (po_responder_id p) = Inr ()"
    "\<not> certs_have_same_identity r ca \<Longrightarrow>
       issuer r = subject ca \<and> verify_certificate_signature_with_policy L K r ca policy = Inr ()
       \<and> distinct (ext_ids r) \<and> role_profile L r OcspResponder
       \<and> snd (add_from_cert nc_default ca) = Inr () \<and> check_cert L (fst (add_from_cert nc_default ca)) r = Inr ()
       \<and> (chk = Required \<longleftrightarrow> \<not> has_ocsp_nocheck_extension r)"
    "certs_have_same_identity r ca \<Longrightarrow> chk = NotRequired"
  using assms
  by (auto simp: validate_responder_trust_def result_simps not_less is_ok_iff
      dest!: delegated_extensions_role split: if_splits prod.splits sum.splits)

lemma authorize_sound:
  assumes "authorize_responder L Q K r ca p policy now path = Inr del" and "certs_have_same_identity r ca \<longrightarrow> r = ca"
  shows "not_before r \<le> now \<and> now \<le> not_after r
    \<and> responder_matches_responder_id L Q r (po_responder_id p) = Inr ()
    \<and> (r = ca \<or> delegated_signer L Q K policy now path ca r)
    \<and> del = (if r = ca \<or> has_ocsp_nocheck_extension r then None else Some r)
    \<and> (\<forall>chain store. path = Some (chain, store) \<longrightarrow> path_accepted L Q K policy now IntermediateCa store chain)"
proof -
  from assms(1) obtain chk where
    a: "(case path of Some (chain, store) \<Rightarrow> validate_ocsp_certificate_path L Q K chain store IntermediateCa policy now
          | None \<Rightarrow> Inr ()) = Inr ()"
    and t: "validate_responder_trust L Q K r ca p policy now = Inr chk"
    and b: "(if \<not> certs_have_same_identity r ca then
         (case path of None \<Rightarrow> Inl (Ocsp ODelegatedNeedsPath)
          | Some (chain, store) \<Rightarrow> validate_ocsp_certificate_path L Q K (r # chain) store OcspResponder policy now)
       else Inr ()) = Inr ()"
    and d: "del = (case chk of Required \<Rightarrow> Some r | NotRequired \<Rightarrow> None)"
    unfolding authorize_responder_def and_then_Inr_iff by auto
  from a have path: "\<forall>chain store. path = Some (chain, store) \<longrightarrow>
      validate_ocsp_certificate_path L Q K chain store IntermediateCa policy now = Inr ()"
    by auto
  from b have deleg: "\<not> certs_have_same_identity r ca \<longrightarrow>
      (\<exists>chain store. path = Some (chain, store)
         \<and> validate_ocsp_certificate_path L Q K (r # chain) store OcspResponder policy now = Inr ())"
    by (cases path) (auto split: if_splits)
  note trust = responder_trust_sound [OF t]
  have same: "certs_have_same_identity r ca \<longleftrightarrow> r = ca"
    using assms(2) by (auto simp: certs_have_same_identity_def)
  have "r = ca \<or> delegated_signer L Q K policy now path ca r"
  proof (cases "r = ca")
    case False
    with same deleg obtain chain store where c: "path = Some (chain, store)"
      "validate_ocsp_certificate_path L Q K (r # chain) store OcspResponder policy now = Inr ()" by blast
    from validate_ocsp_path_sound [OF c(2)] trust(4) same False c(1)
    have "delegated_signer L Q K policy now path ca r" by (simp add: delegated_signer_def)
    then show ?thesis ..
  qed simp
  moreover have "del = (if r = ca \<or> has_ocsp_nocheck_extension r then None else Some r)"
    using d trust(4,5) same by (cases chk) auto
  moreover have "\<forall>chain store. path = Some (chain, store) \<longrightarrow> path_accepted L Q K policy now IntermediateCa store chain"
    using path by (auto intro: validate_ocsp_path_sound)
  ultimately show ?thesis using trust(1-3) by (intro conjI)
qed

lemma find_matching_sound:
  "find_matching_response rs nh kh serial = Inr (Some sr) \<Longrightarrow>
     sr \<in> set rs \<and> sr_issuer_name_hash sr = nh \<and> sr_issuer_key_hash sr = kh
     \<and> integer_bodies_equal (sr_serial_number sr) serial \<and> sr_hash_algorithm_oid sr = CERT_ID_HASH_ALGORITHM_OID"
  by (induction rs nh kh serial rule: find_matching_response.induct) (auto split: if_splits)

lemma response_for_cert_sound:
  "response_for_cert L Q p cert ca = Inr (Some sr) \<Longrightarrow> sr \<in> set (po_responses p) \<and> entry_for L Q cert ca sr"
  by (auto simp: response_for_cert_def sha1_hash_def result_simps entry_for_def dest!: find_matching_sound)

lemma entry_fresh_iff: "validate_response_freshness sr now fr = Inr () \<longleftrightarrow> entry_fresh fr now sr"
  by (auto simp: validate_response_freshness_def entry_fresh_def not_less split: option.splits)

lemma check_response_nonce_sound:
  assumes "check_response_nonce nonce rn req = Inr ()" and "req \<longrightarrow> (\<exists>n. nonce = Some n \<and> n \<noteq> [])"
  shows "(\<forall>n m. nonce = Some n \<and> rn = Some m \<longrightarrow> nonce_matches n m)
    \<and> (req \<longrightarrow> (\<exists>n m. nonce = Some n \<and> n \<noteq> [] \<and> rn = Some m))"
  using assms by (auto simp: check_response_nonce_def validate_nonce_iff split: option.splits if_splits)

text \<open>C6: An OCSP outcome rests on a response that parses and whose signature verifies under the key of
  the issuing CA or of a certificate that CA has delegated OCSP signing to (named and signed by the CA,
  fit for the role, within the CA's name constraints, with an accepted path to the trust store); the
  signer is the one the response names and is within its validity. A nonce in the response matches the
  request's, and is there when required. The status is that of a fresh entry for this very certificate
  under SHA-1, or unknown when there is none. A delegated signer without the no-check extension is
  handed back to be checked itself.\<close>

theorem ocsp_check_sound:
  assumes "check_revocation_detailed_inner L Q K ch clock der cert ca nonce vt policy fr path req = Inr out"
  defines "now \<equiv> (case vt of Some t \<Rightarrow> t | None \<Rightarrow> clock)"
  shows "\<exists>p signer.
      parse_ocsp_response L ch der = Inr p \<and> ocsp_signed_with L K policy p signer
      \<and> (signer = ca \<or> delegated_signer L Q K policy now path ca signer)
      \<and> responder_matches_responder_id L Q signer (po_responder_id p) = Inr ()
      \<and> not_before signer \<le> now \<and> now \<le> not_after signer
      \<and> (\<forall>n m. nonce = Some n \<and> po_nonce p = Some m \<longrightarrow> nonce_matches n m)
      \<and> (req \<longrightarrow> (\<exists>n m. nonce = Some n \<and> n \<noteq> [] \<and> po_nonce p = Some m))
      \<and> (out = \<lparr>oo_status = Unknown WhyNotInResponse, oo_delegated_responder = None\<rparr>
         \<or> (\<exists>sr\<in>set (po_responses p). entry_for L Q cert ca sr \<and> entry_fresh fr now sr
              \<and> oo_status out = map_cert_status (sr_cert_status sr) now
              \<and> oo_delegated_responder out
                  = (if signer = ca \<or> has_ocsp_nocheck_extension signer then None else Some signer)))"
proof -
  have req: "req \<longrightarrow> (\<exists>n. nonce = Some n \<and> n \<noteq> [])"
    using assms(1) by (auto simp: check_revocation_detailed_inner_def Let_def split: option.splits if_splits)
  from assms(1) obtain p r del m where
    p: "parse_ocsp_response L ch der = Inr p"
    and sig: "verify_ocsp_response_signature L K p ca policy = Inr r"
    and auth: "authorize_responder L Q K r ca p policy now path = Inr del"
    and non: "check_response_nonce nonce (po_nonce p) req = Inr ()"
    and m: "response_for_cert L Q p cert ca = Inr m"
    and out: "(case m of
          None \<Rightarrow> Inr \<lparr>oo_status = Unknown WhyNotInResponse, oo_delegated_responder = None\<rparr>
        | Some sr \<Rightarrow>
            and_then (validate_response_freshness sr now fr) (\<lambda>_.
              Inr \<lparr>oo_status = map_cert_status (sr_cert_status sr) now, oo_delegated_responder = del\<rparr>)) = Inr out"
    unfolding check_revocation_detailed_inner_def Let_def now_def [symmetric] if_err_Inr_iff and_then_Inr_iff by auto
  note signer = try_signers_sound [OF sig [unfolded verify_ocsp_response_signature_def]]
  note auth' = authorize_sound [OF auth conjunct2 [OF signer]]
  note nonces = check_response_nonce_sound [OF non req]
  have "out = \<lparr>oo_status = Unknown WhyNotInResponse, oo_delegated_responder = None\<rparr>
     \<or> (\<exists>sr\<in>set (po_responses p). entry_for L Q cert ca sr \<and> entry_fresh fr now sr
          \<and> oo_status out = map_cert_status (sr_cert_status sr) now \<and> oo_delegated_responder out = del)"
  proof (cases m)
    case None
    with out show ?thesis by simp
  next
    case (Some sr)
    with response_for_cert_sound m have "sr \<in> set (po_responses p)" "entry_for L Q cert ca sr" by blast+
    with out Some show ?thesis by (auto simp: entry_fresh_iff result_simps)
  qed
  with p signer auth' nonces show ?thesis by blast
qed

subsection \<open>A response signed by the issuing CA\<close>

definition toy_olib :: olib where
  "toy_olib = \<lparr>sha1 = Some, serial_to_der = (\<lambda>s. Some (encode_tlv 0x02 s)),
     oid_to_der = (\<lambda>_. Some (encode_tlv 0x06 CERT_ID_HASH_ALGORITHM_OID)), ku_from_der = (\<lambda>_. None),
     bc_from_der = (\<lambda>_. False), eku_from_der = (\<lambda>_. False), san_from_der = (\<lambda>_. False),
     utc_year = (\<lambda>_. 1970), der_datetime_new = Some\<rparr>"

definition toy_gtime :: bytes where "toy_gtime = 0x18 # 15 # ascii ''20260303120000Z''"

definition toy_cid :: bytes where
  "toy_cid = [0x30, 7, 6, 5] @ CERT_ID_HASH_ALGORITHM_OID @ [4, 2, 0x30, 0, 4, 1, 7, 2, 1, 5]"

definition toy_entry :: bytes where "toy_entry = [0x30, 0x13] @ toy_cid @ [0x80, 0] @ toy_gtime"

definition toy_response_data :: bytes where
  "toy_response_data = [0xA1, 2, 0x30, 0] @ toy_gtime @ [0x30, 0x2A, 0x30, 0x28] @ toy_entry"

definition toy_basic :: bytes where
  "toy_basic = [0x30, 0x48, 0x30, 0x41] @ toy_response_data @ [0x30, 0, 3, 1, 0]"

definition toy_ocsp :: bytes where
  "toy_ocsp = [0x30, 0x5E, 0x0A, 1, 0, 0xA0, 0x59, 0x30, 0x57, 6, 9] @ OCSP_BASIC_RESPONSE_OID @ [4, 0x4A] @ toy_basic"

definition toy_sr :: single_response where
  "toy_sr = \<lparr>sr_hash_algorithm_oid = CERT_ID_HASH_ALGORITHM_OID, sr_issuer_name_hash = [0x30, 0],
     sr_issuer_key_hash = [7], sr_serial_number = [5], sr_cert_status = CsGood,
     sr_this_update = 20515 * 86400 + 43200, sr_next_update = None\<rparr>"

definition toy_po :: parsed_ocsp where
  "toy_po = \<lparr>po_tbs_response_data = [0x30, 0x41] @ toy_response_data,
     po_signature_algorithm = \<lparr>alg_oid = [1, 3, 101, 112], alg_parameters = None\<rparr>, po_signature_bytes = [],
     po_responder_id = ByName [0x30, 0], po_produced_at = 20515 * 86400 + 43200, po_responses = [toy_sr],
     po_nonce = None, po_embedded_certs_der = []\<rparr>"

lemmas ocsp_bytes = toy_ocsp_def toy_basic_def toy_response_data_def toy_entry_def toy_cid_def toy_gtime_def
  CERT_ID_HASH_ALGORITHM_OID_def OCSP_BASIC_RESPONSE_OID_def ascii_def

lemma toy_gtime_tlv: "parse_tlv_with_rest (toy_gtime @ r) = Inr (0x18, ascii ''20260303120000Z'', r)"
  by (simp add: toy_gtime_def ascii_def tlv_eval)

lemma toy_gtime_value: "parse_generalized_time toy_chrono (ascii ''20260303120000Z'') = Inr (20515 * 86400 + 43200)"
  by (simp add: time_eval toy_chrono_def)

lemma toy_single: "parse_single_response toy_lib toy_chrono toy_entry = Inr toy_sr"
proof -
  have "parse_cert_id toy_cid = Inr (CERT_ID_HASH_ALGORITHM_OID, [0x30, 0], [7], [5])"
    by (simp add: parse_cert_id_def toy_cid_def CERT_ID_HASH_ALGORITHM_OID_def ocsp_expect_def ocsp_tlv_def tlv_eval
        parse_integer_body_def)
  moreover have "ocsp_expect OCertId 0x30 toy_entry = Inr (toy_cid, [0x80, 0] @ toy_gtime)"
    by (simp add: ocsp_expect_def ocsp_tlv_def tlv_eval ocsp_bytes)
  moreover have "ocsp_tlv OCertStatus ([0x80, 0] @ toy_gtime) = Inr (0x80, [], toy_gtime)"
    by (simp add: ocsp_tlv_def tlv_eval)
  moreover have "ocsp_expect OThisUpdate 0x18 toy_gtime = Inr (ascii ''20260303120000Z'', [])"
    using toy_gtime_tlv [of "[]"] by (simp add: ocsp_expect_def ocsp_tlv_def)
  ultimately show ?thesis
    by (simp add: parse_single_response_def parse_cert_status_def ocsp_time_def toy_gtime_value
        read_sr_next_update_def read_sr_extensions_def toy_sr_def)
qed

lemma toy_data: "parse_response_data toy_lib toy_chrono toy_response_data
    = Inr (ByName [0x30, 0], 20515 * 86400 + 43200, [toy_sr], None)"
proof -
  have "read_responder_id toy_response_data = Inr (ByName [0x30, 0], toy_gtime @ [0x30, 0x2A, 0x30, 0x28] @ toy_entry)"
    by (simp add: read_responder_id_def toy_response_data_def ocsp_tlv_def tlv_eval)
  moreover have "hd toy_response_data \<noteq> 0xA0" by (simp add: toy_response_data_def)
  moreover have "ocsp_expect OResponses 0x30 ([0x30, 0x2A, 0x30, 0x28] @ toy_entry) = Inr ([0x30, 0x28] @ toy_entry, [])"
    by (simp add: ocsp_expect_def ocsp_tlv_def tlv_eval ocsp_bytes)
  moreover have "single_loop toy_lib toy_chrono ([0x30, 0x28] @ toy_entry) [] = Inr [toy_sr]"
  proof -
    have "parse_tlv_with_rest ([0x30, 0x28] @ toy_entry) = Inr (0x30, toy_entry, [])"
      by (simp add: tlv_eval ocsp_bytes)
    then show ?thesis by (simp add: single_loop.simps toy_single)
  qed
  ultimately show ?thesis
    by (simp add: parse_response_data_def ocsp_expect_def ocsp_tlv_def toy_gtime_tlv ocsp_time_def toy_gtime_value
        read_response_nonce_def)
qed

lemma toy_ocsp_parses: "parse_ocsp_response toy_lib toy_chrono toy_ocsp = Inr toy_po"
proof -
  have "parse_basic_ocsp_response toy_lib toy_chrono toy_basic = Inr toy_po"
  proof -
    have "parse_tlv toy_basic = Inr (0x30, [0x30, 0x41] @ toy_response_data @ [0x30, 0, 3, 1, 0])"
      by (simp add: tlv_eval ocsp_bytes)
    moreover have "ocsp_expect OTbs 0x30 ([0x30, 0x41] @ toy_response_data @ [0x30, 0, 3, 1, 0])
        = Inr (toy_response_data, [0x30, 0, 3, 1, 0])"
      by (simp add: ocsp_expect_def ocsp_tlv_def tlv_eval ocsp_bytes)
    moreover have "ocsp_expect OSigAlg 0x30 [0x30, 0, 3, 1, 0] = Inr ([], [3, 1, 0])"
      "ocsp_expect OSignature 0x03 [3, 1, 0] = Inr ([0], [])"
      by (simp_all add: ocsp_expect_def ocsp_tlv_def tlv_eval)
    ultimately show ?thesis
      by (simp add: parse_basic_ocsp_response_def toy_data read_embedded_certs_def Let_def toy_po_def)
        (simp add: toy_lib_def)
  qed
  moreover have "parse_tlv toy_ocsp = Inr (0x30, [0x0A, 1, 0, 0xA0, 0x59, 0x30, 0x57, 6, 9] @ OCSP_BASIC_RESPONSE_OID @ [4, 0x4A] @ toy_basic)"
    by (simp add: tlv_eval ocsp_bytes)
  moreover have "ocsp_expect OResponseBytes 0xA0 ([0xA0, 0x59, 0x30, 0x57, 6, 9] @ OCSP_BASIC_RESPONSE_OID @ [4, 0x4A] @ toy_basic)
      = Inr ([0x30, 0x57, 6, 9] @ OCSP_BASIC_RESPONSE_OID @ [4, 0x4A] @ toy_basic, [])"
    "parse_tlv ([0x30, 0x57, 6, 9] @ OCSP_BASIC_RESPONSE_OID @ [4, 0x4A] @ toy_basic)
      = Inr (0x30, [6, 9] @ OCSP_BASIC_RESPONSE_OID @ [4, 0x4A] @ toy_basic)"
    "ocsp_expect OResponse 0x04 ([4, 0x4A] @ toy_basic) = Inr (toy_basic, [])"
    by (simp_all add: ocsp_expect_def ocsp_tlv_def tlv_eval ocsp_bytes)
  moreover have "ocsp_expect OResponseType 0x06 ([6, 9] @ OCSP_BASIC_RESPONSE_OID @ [4, 0x4A] @ toy_basic)
      = Inr (OCSP_BASIC_RESPONSE_OID, [4, 0x4A] @ toy_basic)"
    by (simp add: ocsp_expect_def ocsp_tlv_def tlv_eval OCSP_BASIC_RESPONSE_OID_def)
  moreover have "ocsp_tlv OStatus ([0x0A, 1, 0, 0xA0, 0x59, 0x30, 0x57, 6, 9] @ OCSP_BASIC_RESPONSE_OID @ [4, 0x4A] @ toy_basic)
      = Inr (0x0A, [0], [0xA0, 0x59, 0x30, 0x57, 6, 9] @ OCSP_BASIC_RESPONSE_OID @ [4, 0x4A] @ toy_basic)"
    by (simp add: ocsp_tlv_def tlv_eval)
  ultimately show ?thesis
    by (simp add: parse_ocsp_response_def OCSP_RESPONSE_SUCCESSFUL_def)
qed

definition toy_ca :: certificate where "toy_ca = toy_cert [] [] [1] None"

lemma toy_ocsp_check:
  "check_revocation_detailed_inner toy_lib toy_olib toy_crypto toy_chrono 0 toy_ocsp (toy_cert [] [] [5] None) toy_ca None
     (Some 50) policy_strict ocsp_freshness_default None False
   = Inr \<lparr>oo_status = Valid SrcOcsp 50, oo_delegated_responder = None\<rparr>"
proof -
  have "verify_signature_by_algid_with_policy toy_crypto tbs [] key \<lparr>alg_oid = [1, 3, 101, 112], alg_parameters = None\<rparr> pol = Inr ()"
    for tbs key pol
    by (simp add: verify_signature_by_algid_with_policy_def verify_signature_by_oid_with_policy_def is_weak_signature_oid_def
        verify_with_backend_def toy_crypto_def verify_oids)
  moreover have "spki_to_der toy_lib k = Some (subject_public_key k)" for k by (simp add: toy_lib_def)
  ultimately have "verify_ocsp_response_signature toy_lib toy_crypto toy_po toy_ca policy_strict = Inr toy_ca"
    by (simp add: verify_ocsp_response_signature_def toy_po_def certs_have_same_identity_def map_filter_simps)
  moreover have "authorize_responder toy_lib toy_olib toy_crypto toy_ca toy_ca toy_po policy_strict 50 None = Inr None"
    by (simp add: authorize_responder_def validate_responder_trust_def responder_matches_responder_id_def toy_po_def
        toy_ca_def certs_have_same_identity_def)
      (simp add: toy_lib_def)
  moreover have "response_for_cert toy_lib toy_olib toy_po (toy_cert [] [] [5] None) toy_ca = Inr (Some toy_sr)"
    by (simp add: response_for_cert_def toy_po_def toy_ca_def sha1_hash_def toy_olib_def toy_sr_def integer_bodies_equal_def)
      (simp add: toy_lib_def parse_integer_body_def)
  moreover have "validate_response_freshness toy_sr 50 ocsp_freshness_default = Inr ()"
    by (simp add: validate_response_freshness_def toy_sr_def ocsp_freshness_default_def)
  moreover have "sr_cert_status toy_sr = CsGood" "po_nonce toy_po = None" by (simp_all add: toy_sr_def toy_po_def)
  ultimately show ?thesis
    by (simp add: check_revocation_detailed_inner_def toy_ocsp_parses check_response_nonce_def)
qed

theorem ocsp_check_sound_witness:
  "\<exists>p signer. parse_ocsp_response toy_lib toy_chrono toy_ocsp = Inr p \<and> ocsp_signed_with toy_lib toy_crypto policy_strict p signer
     \<and> not_before signer \<le> 50 \<and> 50 \<le> not_after signer"
  using ocsp_check_sound [OF toy_ocsp_check] unfolding option.case by blast

subsection \<open>The signed bytes\<close>

lemma parse_ocsp_tbs:
  assumes "parse_ocsp_response L ch der = Inr p"
  shows "\<exists>v. po_tbs_response_data p = encode_tlv 0x30 v \<and> tlv_fits 0x30 v
    \<and> parse_response_data L ch v = Inr (po_responder_id p, po_produced_at p, po_responses p, po_nonce p)"
proof -
  from assms obtain basic where "parse_basic_ocsp_response L ch basic = Inr p"
    unfolding parse_ocsp_response_def and_then_Inr_iff if_err_Inr_iff case_prod_beta by blast
  then show ?thesis
    by (auto simp: parse_basic_ocsp_response_def result_simps ocsp_expect_def ocsp_tlv_def tlv_Inr_iff Let_def)
qed

text \<open>The signed bytes of a response determine what is read from it: two accepted responses with the
  same to-be-signed bytes agree on the responder, the time, every entry and the nonce, whatever
  certificates they embed.\<close>

theorem signed_bytes_determine_response:
  assumes "parse_ocsp_response L ch d1 = Inr p1" and "parse_ocsp_response L ch d2 = Inr p2"
    and "po_tbs_response_data p1 = po_tbs_response_data p2"
  shows "po_responder_id p1 = po_responder_id p2 \<and> po_produced_at p1 = po_produced_at p2
    \<and> po_responses p1 = po_responses p2 \<and> po_nonce p1 = po_nonce p2"
proof -
  obtain v1 v2 where v: "po_tbs_response_data p1 = encode_tlv 0x30 v1" "tlv_fits 0x30 v1"
      "po_tbs_response_data p2 = encode_tlv 0x30 v2" "tlv_fits 0x30 v2"
    and d: "parse_response_data L ch v1 = Inr (po_responder_id p1, po_produced_at p1, po_responses p1, po_nonce p1)"
      "parse_response_data L ch v2 = Inr (po_responder_id p2, po_produced_at p2, po_responses p2, po_nonce p2)"
    using parse_ocsp_tbs assms(1,2) by meson
  from v assms(3) have "v1 = v2" using der.enc_inject by metis
  with d show ?thesis by simp
qed

theorem signed_bytes_determine_response_witness: "po_responses toy_po = [toy_sr] \<and> po_nonce toy_po = po_nonce toy_po"
  using signed_bytes_determine_response [OF toy_ocsp_parses toy_ocsp_parses refl] by (simp add: toy_po_def)

subsection \<open>Requests\<close>

lemma encode_sequence_from_parts_eq: "encode_sequence_from_parts parts = encode_tlv 0x30 (concat parts)"
  by (simp add: encode_sequence_from_parts_def encode_sequence_raw_def encode_tlv_def)

text \<open>A serial number without the zero octet that marks it as positive, and the entries of a response
  that carry the given hashes and serial number.\<close>

definition without_sign_octet :: "bytes \<Rightarrow> bytes" where
  "without_sign_octet b = (case b of x # y # r \<Rightarrow> if x = 0 then y # r else b | _ \<Rightarrow> b)"

definition carries :: "bytes \<Rightarrow> bytes \<Rightarrow> bytes \<Rightarrow> single_response \<Rightarrow> bool" where
  "carries nh kh serial sr \<longleftrightarrow> sr_issuer_name_hash sr = nh \<and> sr_issuer_key_hash sr = kh
     \<and> without_sign_octet (sr_serial_number sr) = without_sign_octet serial"

lemma without_sign_octet_eq: "parse_integer_body b = without_sign_octet b"
  by (auto simp: parse_integer_body_def without_sign_octet_def split: list.splits)

lemma found_Inr_Some:
  "(case x of None \<Rightarrow> Inr None | Some sr \<Rightarrow> if ok sr then Inr (Some sr) else Inl e) = Inr (Some r) \<longleftrightarrow> x = Some r \<and> ok r"
  by (cases x) auto

lemma find_matching_response_eq:
  "find_matching_response rs nh kh serial =
     (case find (carries nh kh serial) rs of
        None \<Rightarrow> Inr None
      | Some sr \<Rightarrow> if sr_hash_algorithm_oid sr = CERT_ID_HASH_ALGORITHM_OID then Inr (Some sr) else Inl (Ocsp OCertIdHash))"
  by (induction rs nh kh serial rule: find_matching_response.induct)
    (simp_all add: carries_def integer_bodies_equal_def without_sign_octet_eq)

text \<open>C28: The identifier a request asks about is the one a response is matched with. The CertID built for
  a certificate parses back to an algorithm, two hashes and a serial number, and the search of a response for
  that certificate answers with its first entry that carries these hashes and this serial number; that entry
  is refused when its algorithm is another one, and without such an entry there is no answer. The
  hypotheses are the encodings of the SHA-1 object identifier and of a serial number, and that digests
  and serial numbers are short.\<close>

theorem cert_id_roundtrip:
  assumes "build_cert_id L Q cert ca = Inr cid"
    and "oid_to_der Q [1, 3, 14, 3, 2, 26] = Some (encode_tlv 0x06 CERT_ID_HASH_ALGORITHM_OID)"
    and "serial_to_der Q (serial_number cert) = Some (encode_tlv 0x02 (serial_number cert))"
    and "\<And>d h. sha1 Q d = Some h \<Longrightarrow> length h \<le> 20" and "length (serial_number cert) \<le> 21"
  shows "\<exists>body alg nh kh serial. parse_tlv_with_rest cid = Inr (0x30, body, []) \<and> parse_cert_id body = Inr (alg, nh, kh, serial)
    \<and> (\<forall>p. response_for_cert L Q p cert ca =
         (case find (carries nh kh serial) (po_responses p) of
            None \<Rightarrow> Inr None
          | Some sr \<Rightarrow> if sr_hash_algorithm_oid sr = alg then Inr (Some sr) else Inl (Ocsp OCertIdHash)))"
proof -
  let ?s = "serial_number cert"
  from assms(1-3) obtain n nh kh where h: "name_to_der L (subject ca) = Some n" "sha1 Q n = Some nh"
      "sha1 Q (subject_public_key (subject_public_key_info ca)) = Some kh"
    and cid: "cid = encode_tlv 0x30 (encode_tlv 0x30 (encode_tlv 0x06 CERT_ID_HASH_ALGORITHM_OID @ [5, 0])
        @ encode_tlv 0x04 nh @ encode_tlv 0x04 kh @ encode_tlv 0x02 ?s)"
    by (auto simp: build_cert_id_def build_sha1_algorithm_identifier_def sha1_hash_def result_simps
        encode_sequence_from_parts_eq)
  have len: "length nh \<le> 20" "length kh \<le> 20" using assms(4) h by blast+
  have small: "length (encode_tlv t v) \<le> length v + 6" for t v
    by (simp add: encode_tlv_def encode_der_length_def)
  have fits: "tlv_fits t v" if "length v \<le> 1000" "t AND 0x1f \<noteq> 0x1f" for t v
    using that by (simp add: tlv_fits_def)
  have f: "tlv_fits 0x06 CERT_ID_HASH_ALGORITHM_OID" "tlv_fits 0x04 nh" "tlv_fits 0x04 kh" "tlv_fits 0x02 ?s"
    using len assms(5) by (auto intro!: fits simp: CERT_ID_HASH_ALGORITHM_OID_def)
  have alg: "length (encode_tlv 0x06 CERT_ID_HASH_ALGORITHM_OID @ [5, 0]) \<le> 20"
    using small [of "0x06" CERT_ID_HASH_ALGORITHM_OID] by (simp add: CERT_ID_HASH_ALGORITHM_OID_def)
  then have fa: "tlv_fits 0x30 (encode_tlv 0x06 CERT_ID_HASH_ALGORITHM_OID @ [5, 0])" by (intro fits) simp_all
  have fb: "tlv_fits 0x30 (encode_tlv 0x30 (encode_tlv 0x06 CERT_ID_HASH_ALGORITHM_OID @ [5, 0])
        @ encode_tlv 0x04 nh @ encode_tlv 0x04 kh @ encode_tlv 0x02 ?s)"
    using small [of "0x30" "encode_tlv 0x06 CERT_ID_HASH_ALGORITHM_OID @ [5, 0]"] small [of "0x04" nh] small [of "0x04" kh]
      small [of "0x02" "?s"] alg len assms(5)
    by (intro fits) simp_all
  have "parse_cert_id (encode_tlv 0x30 (encode_tlv 0x06 CERT_ID_HASH_ALGORITHM_OID @ [5, 0])
        @ encode_tlv 0x04 nh @ encode_tlv 0x04 kh @ encode_tlv 0x02 ?s)
      = Inr (CERT_ID_HASH_ALGORITHM_OID, nh, kh, parse_integer_body ?s)"
    using f fa parse_encode_tlv_exact [OF f(4)]
    by (simp add: parse_cert_id_def ocsp_expect_def ocsp_tlv_def parse_encode_tlv)
  moreover have "\<forall>p. response_for_cert L Q p cert ca =
      (case find (carries nh kh (parse_integer_body ?s)) (po_responses p) of
         None \<Rightarrow> Inr None
       | Some sr \<Rightarrow> if sr_hash_algorithm_oid sr = CERT_ID_HASH_ALGORITHM_OID then Inr (Some sr) else Inl (Ocsp OCertIdHash))"
    using h by (simp add: response_for_cert_def sha1_hash_def find_matching_response_eq)
  ultimately show ?thesis unfolding cid using parse_encode_tlv_exact [OF fb] by blast
qed

text \<open>On the response of the toy responder the search with the fields of the request finds its entry.\<close>

theorem cert_id_roundtrip_witness:
  "\<exists>cid body nh kh serial. build_cert_id toy_lib (toy_olib\<lparr>sha1 := (\<lambda>d. Some (take 20 d))\<rparr>) (toy_cert [] [] [5] None) toy_ca = Inr cid
     \<and> parse_tlv_with_rest cid = Inr (0x30, body, [])
     \<and> parse_cert_id body = Inr (CERT_ID_HASH_ALGORITHM_OID, nh, kh, serial)
     \<and> find (carries nh kh serial) (po_responses toy_po) = Some toy_sr"
proof -
  let ?Q = "toy_olib\<lparr>sha1 := (\<lambda>d. Some (take 20 d))\<rparr>"
  have "\<exists>cid. build_cert_id toy_lib ?Q (toy_cert [] [] [5] None) toy_ca = Inr cid"
    by (simp add: build_cert_id_def build_sha1_algorithm_identifier_def sha1_hash_def toy_olib_def toy_ca_def)
      (simp add: toy_lib_def)
  then obtain cid where c: "build_cert_id toy_lib ?Q (toy_cert [] [] [5] None) toy_ca = Inr cid" ..
  have r: "response_for_cert toy_lib ?Q toy_po (toy_cert [] [] [5] None) toy_ca = Inr (Some toy_sr)"
    by (simp add: response_for_cert_def toy_po_def toy_ca_def sha1_hash_def toy_olib_def toy_sr_def integer_bodies_equal_def)
      (simp add: toy_lib_def parse_integer_body_def)
  have "\<exists>body alg nh kh serial. parse_tlv_with_rest cid = Inr (0x30, body, []) \<and> parse_cert_id body = Inr (alg, nh, kh, serial)
      \<and> (\<forall>p. response_for_cert toy_lib ?Q p (toy_cert [] [] [5] None) toy_ca =
         (case find (carries nh kh serial) (po_responses p) of
            None \<Rightarrow> Inr None
          | Some sr \<Rightarrow> if sr_hash_algorithm_oid sr = alg then Inr (Some sr) else Inl (Ocsp OCertIdHash)))"
    by (rule cert_id_roundtrip [OF c]) (auto simp: toy_olib_def)
  then obtain body alg nh kh serial where b: "parse_tlv_with_rest cid = Inr (0x30, body, [])"
      "parse_cert_id body = Inr (alg, nh, kh, serial)"
    and eq: "\<forall>p. response_for_cert toy_lib ?Q p (toy_cert [] [] [5] None) toy_ca =
         (case find (carries nh kh serial) (po_responses p) of
            None \<Rightarrow> Inr None
          | Some sr \<Rightarrow> if sr_hash_algorithm_oid sr = alg then Inr (Some sr) else Inl (Ocsp OCertIdHash))" by blast
  from r [unfolded eq [rule_format]]
  have "find (carries nh kh serial) (po_responses toy_po) = Some toy_sr" "sr_hash_algorithm_oid toy_sr = alg"
    unfolding found_Inr_Some by blast+
  moreover have "sr_hash_algorithm_oid toy_sr = CERT_ID_HASH_ALGORITHM_OID" by (simp add: toy_sr_def)
  ultimately show ?thesis using b c by (intro exI [of _ cid] exI [of _ body] exI [of _ nh] exI [of _ kh] exI [of _ serial]) simp
qed

subsection \<open>Requests of the client\<close>

text \<open>Every request of the client went to a responder URL of the certificate, after the guard.\<close>

lemma try_responders_sent:
  "u \<in> set (snd (try_responders client Es i request e urls)) \<Longrightarrow>
     u \<in> set urls \<and> (\<exists>j. validate_fetch_url (net_resolver (Es j)) u = Inr ())"
proof (induction urls arbitrary: i e)
  case (Cons url urls)
  obtain r s where f: "send_ocsp_request client (Es i) url request = (r, s)" by (metis surj_pair)
  then have "set s \<subseteq> {url} \<and> (s \<noteq> [] \<longrightarrow> validate_fetch_url (net_resolver (Es i)) url = Inr ())"
    by (auto simp: send_ocsp_request_def split: if_splits sum.splits)
  moreover from Cons.prems f have "u \<in> set s \<or> (\<exists>e. u \<in> set (snd (try_responders client Es (i + 1) request e urls)))"
    by (auto split: sum.splits)
  ultimately show ?case using Cons.IH by (cases s) auto
qed simp

lemma fetch_ocsp_response_sent:
  "u \<in> set (snd (fetch_ocsp_response L Q client Es cert ca)) \<Longrightarrow>
     u \<in> set (extract_ocsp_urls Q cert) \<and> (\<exists>j. validate_fetch_url (net_resolver (Es j)) u = Inr ())"
  "u \<in> set (snd (fetch_ocsp_response_with_nonce L Q client Es random cert ca)) \<Longrightarrow>
     u \<in> set (extract_ocsp_urls Q cert) \<and> (\<exists>j. validate_fetch_url (net_resolver (Es j)) u = Inr ())"
  by (auto simp: fetch_ocsp_response_def fetch_ocsp_response_with_nonce_def Let_def dest: try_responders_sent
      split: if_splits sum.splits)

interpretation ocsp_requests: guarded_client oc_http_client
  "\<lambda>client (L, Q, Es, random, cert, ca). snd (fetch_ocsp_response L Q client Es cert ca)
     @ snd (fetch_ocsp_response_with_nonce L Q client Es random cert ca)"
  "\<lambda>(L, Q, Es, random, cert, ca). range (\<lambda>j. net_resolver (Es j))"
  by unfold_locales (auto dest: fetch_ocsp_response_sent)

end
