(* ===== verification/Revocation_Facts.thy ===== *)
theory Revocation_Facts
  imports Revocation Ocsp_Facts
begin

section \<open>What a revocation status is worth\<close>

text \<open>
  The select loop computes what its deadline allows of each source, every check ends in time, and a
  definitive status rests on checked evidence down to the last delegated responder.
\<close>

subsection \<open>The deadline\<close>

text \<open>The status of a source at the deadline.\<close>

definition settled :: "rev_status future \<Rightarrow> nat \<Rightarrow> rev_why \<Rightarrow> rev_status" where
  "settled fut deadline why = (case poll fut deadline of Some s \<Rightarrow> s | None \<Rightarrow> Unknown why)"

lemma wakes_at_le: "wakes_at fut d \<le> d"
  by (cases fut) auto

lemma collect_end: "collect_loop ocsp crl d (Some s) (Some c) now = Resolves now (Some s, Some c)"
  by (simp add: collect_loop.simps)

lemma select_one:
  "now \<le> d \<Longrightarrow> select_branch ocsp crl d None (Some c) now =
     (case poll ocsp d of
        Some s \<Rightarrow> SelOcsp (max now (wakes_at ocsp d)) s
      | None \<Rightarrow> SelDeadline (max now (wakes_at ocsp d)))"
  "now \<le> d \<Longrightarrow> select_branch ocsp crl d (Some s) None now =
     (case poll crl d of
        Some c \<Rightarrow> SelCrl (max now (wakes_at crl d)) c
      | None \<Rightarrow> SelDeadline (max now (wakes_at crl d)))"
  by (cases ocsp; cases crl; auto simp: select_branch_def)+

lemma collect_one:
  "now \<le> d \<Longrightarrow> collect_loop ocsp crl d None (Some c) now = Resolves (max now (wakes_at ocsp d)) (poll ocsp d, Some c)"
  "now \<le> d \<Longrightarrow> collect_loop ocsp crl d (Some s) None now = Resolves (max now (wakes_at crl d)) (Some s, poll crl d)"
  by (subst collect_loop.simps, simp add: select_one collect_end split: option.split)+

lemma select_both:
  "select_branch ocsp crl d None None 0 =
     (if wakes_at ocsp d \<le> wakes_at crl d \<and> poll ocsp d \<noteq> None then SelOcsp (wakes_at ocsp d) (the (poll ocsp d))
      else if poll crl d \<noteq> None then SelCrl (wakes_at crl d) (the (poll crl d))
      else if poll ocsp d \<noteq> None then SelOcsp (wakes_at ocsp d) (the (poll ocsp d))
      else SelDeadline d)"
  by (cases ocsp; cases crl; auto simp: select_branch_def Let_def min_def)

lemma wakes_at_pending: "poll fut d = None \<Longrightarrow> wakes_at fut d = d"
  by (cases fut) (auto split: if_splits)

lemma collect_both:
  "collect_loop ocsp crl d None None 0 =
     Resolves (max (wakes_at ocsp d) (wakes_at crl d)) (poll ocsp d, poll crl d)"
  using wakes_at_le [of ocsp d] wakes_at_le [of crl d]
  by (subst collect_loop.simps) (auto simp: select_both collect_one wakes_at_pending)

lemma collect_eq:
  "collect_revocation_results ocsp crl d = Resolves (max (wakes_at ocsp d) (wakes_at crl d))
     (settled ocsp d RwOcspPending, settled crl d RwCrlPending)"
  by (simp add: collect_revocation_results_def collect_both settled_def)

subsection \<open>Sources that end in time\<close>

text \<open>A check that always resolves within its own limit.\<close>

locale bounded_source =
  fixes run :: "'x \<Rightarrow> rev_status future" and limit :: "'x \<Rightarrow> nat"
  assumes within: "\<exists>t s. run x = Resolves t s \<and> t \<le> limit x"
begin

lemma wakes_within: "wakes_at (run x) d \<le> min (limit x) d"
  using within [of x] by auto

lemma not_cut_off: "limit x \<le> d \<Longrightarrow> \<exists>t. run x = Resolves t (settled (run x) d why)"
  using within [of x] by (auto simp: settled_def)

end

lemma timeout_within: "\<exists>t. (\<exists>r. timeout d fut = Resolves t r) \<and> t \<le> d"
  by (cases fut) auto

interpretation ocsp_source: bounded_source
  "\<lambda>(S, W, cert, ca, config, vt, ctx). run_ocsp_check S W cert ca config vt ctx"
  "\<lambda>(S, W, cert, ca, config, vt, ctx). ocsp_timeout config"
proof (unfold_locales, clarify)
  fix S W cert ca config vt ctx
  show "\<exists>t s. run_ocsp_check S W cert ca config vt ctx = Resolves t s \<and> t \<le> ocsp_timeout config"
    by (auto simp: run_ocsp_check.simps await_Resolves_iff timeout_within)
qed

interpretation crl_source: bounded_source
  "\<lambda>(S, e, cert, ca, config, vt). run_crl_check S e cert ca config vt"
  "\<lambda>(S, e, cert, ca, config, vt). crl_timeout config"
proof (unfold_locales, clarify)
  fix S e cert ca config vt
  show "\<exists>t s. run_crl_check S e cert ca config vt = Resolves t s \<and> t \<le> crl_timeout config"
    by (auto simp: run_crl_check_def await_Resolves_iff timeout_within)
qed

lemmas ocsp_within = ocsp_source.wakes_within [of "(S, W, cert, ca, config, vt, ctx)" for S W cert ca config vt ctx, simplified]
lemmas crl_within = crl_source.wakes_within [of "(S, e, cert, ca, config, vt)" for S e cert ca config vt, simplified]
lemmas ocsp_not_cut_off =
  ocsp_source.not_cut_off [of "(S, W, cert, ca, config, vt, ctx)" for S W cert ca config vt ctx, simplified]
lemmas crl_not_cut_off = crl_source.not_cut_off [of "(S, e, cert, ca, config, vt)" for S e cert ca config vt, simplified]

subsection \<open>One level\<close>

lemma check_eq:
  "check_certificate_revocation_with_ocsp_context S W cert ca config vt ctx =
     (let ocsp = run_ocsp_check S W cert ca config vt ctx;
          crl = run_crl_check S (W 0) cert ca config vt;
          d = per_cert_timeout config
      in Resolves (max (wakes_at ocsp d) (wakes_at crl d))
           (enforce_revocation_policy
              (merge_preferred (settled ocsp d RwOcspPending) (settled crl d RwCrlPending) (prefer_ocsp config))
              (require_revocation_check config)))"
  by (simp add: check_certificate_revocation_with_ocsp_context_def collect_eq Let_def)

lemma delegated_eq:
  "check_delegated_responder_revocation S W responder ca config vt ctx =
     check_certificate_revocation_with_ocsp_context S (\<lambda>i. W (i + 1)) responder ca
       (config\<lparr>max_ocsp_recursion := max_ocsp_recursion config - 1\<rparr>) vt ctx"
  by (simp add: check_delegated_responder_revocation.simps check_certificate_revocation_with_ocsp_context_def Let_def)

lemma merge_preferred_cases: "merge_preferred a b p \<in> {a, b}"
  using status.merge_cases by (auto simp: merge_preferred_def)

lemma merge_preferred_preds:
  "is_revoked (merge_preferred a b p) \<longleftrightarrow> is_revoked a \<or> is_revoked b"
  "is_valid (merge_preferred a b p) \<longleftrightarrow> (is_valid a \<or> is_valid b) \<and> \<not> is_revoked a \<and> \<not> is_revoked b"
  "is_unknown (merge_preferred a b p) \<longleftrightarrow> is_unknown a \<and> is_unknown b"
  by (cases a; cases b; simp add: merge_preferred_def resolve_priority_def status_pred_defs)+

lemma enforce_preds:
  "is_revoked (enforce_revocation_policy s req) \<longleftrightarrow> is_revoked s"
  "is_valid (enforce_revocation_policy s req) \<longleftrightarrow> is_valid s"
  "is_unknown (enforce_revocation_policy s req) \<longleftrightarrow> is_unknown s \<and> \<not> req"
  "is_valid s \<or> is_revoked s \<Longrightarrow> enforce_revocation_policy s req = s"
  by (cases s; simp add: enforce_revocation_policy_def status_pred_defs)+

lemma settled_preds:
  "is_revoked (settled fut d why) \<longleftrightarrow> (\<exists>t s. fut = Resolves t s \<and> t \<le> d \<and> is_revoked s)"
  "is_valid (settled fut d why) \<longleftrightarrow> (\<exists>t s. fut = Resolves t s \<and> t \<le> d \<and> is_valid s)"
  by (cases fut; simp add: settled_def status_pred_defs)+

lemma status_exhaust: "is_valid s \<or> is_revoked s \<or> is_invalid s \<or> is_unknown s"
  by (cases s) (simp_all add: status_pred_defs)

lemmas verdict_preds = merge_preferred_preds enforce_preds settled_preds

subsection \<open>Evidence\<close>

text \<open>What justifies a definitive status: a checked CRL; a checked OCSP response of the CA itself or of a
  responder that needs no check; or a checked response of a delegated responder for which there is
  evidence, within one level less of recursion, that it is good.\<close>

inductive evidence ::
  "services \<Rightarrow> datetime option \<Rightarrow> ocsp_validation_context \<Rightarrow> revocation_config \<Rightarrow> (nat \<Rightarrow> rev_env) \<Rightarrow> certificate
    \<Rightarrow> certificate \<Rightarrow> rev_status \<Rightarrow> bool" for S vt ctx where
  ev_crl: "evidence S vt ctx config W cert ca s"
    if "re_crl_time (W 0) = Some t" "t \<le> crl_timeout config"
      "fst (fetch_crls_for_cert_with_freshness (sv_lib S) (sv_chrono S) (sv_crl S) (re_crl_net (W 0)) cert
         (rc_crl_freshness config) (re_crl_cache (W 0))) = crl # crls"
      "crl_check_revocation_with_options (sv_lib S) (sv_crypto S) (sv_chrono S) (re_crl_clock (W 0)) crl
         cert ca vt (rc_signature_policy config) (rc_crl_freshness config) = Inr s"
| ev_ocsp: "evidence S vt ctx config W cert ca (map_validation_status RwOcsp (oo_status out))"
    if "re_ocsp_time (W 0) = Some t" "t \<le> ocsp_timeout config"
      "fetch_for_check S (W 0) cert ca config = Inr (der, nonce)"
      "check_response S (W 0) cert ca config vt ctx der nonce = Inr out"
      "oo_delegated_responder out = None"
| ev_delegated: "evidence S vt ctx config W cert ca (map_validation_status RwOcsp (oo_status out))"
    if "re_ocsp_time (W 0) = Some t" "t \<le> ocsp_timeout config"
      "fetch_for_check S (W 0) cert ca config = Inr (der, nonce)"
      "check_response S (W 0) cert ca config vt ctx der nonce = Inr out"
      "oo_delegated_responder out = Some responder"
      "max_ocsp_recursion config = Suc n"
      "evidence S vt ctx (config\<lparr>max_ocsp_recursion := n\<rparr>) (\<lambda>i. W (i + 1)) responder ca good" "is_valid good"

inductive_cases evidenceE: "evidence S vt ctx config W cert ca s"

text \<open>The recursion budget bounds what evidence can rest on: only the first rounds of the environment
  matter, one for the certificate and one for each level of delegation.\<close>

lemma evidence_local:
  assumes "evidence S vt ctx config W cert ca s" "\<forall>i\<le>max_ocsp_recursion config. W' i = W i"
  shows "evidence S vt ctx config W' cert ca s"
  using assms
proof (induction arbitrary: W')
  case (ev_crl W t config cert crl crls ca s)
  then have "W' 0 = W 0" by simp
  with ev_crl show ?case by (intro evidence.ev_crl) simp_all
next
  case (ev_ocsp W t config cert ca der nonce out)
  then have "W' 0 = W 0" by simp
  with ev_ocsp show ?case by (intro evidence.ev_ocsp) simp_all
next
  case (ev_delegated W t config cert ca der nonce out responder n good)
  then have "W' 0 = W 0" by simp
  moreover have "evidence S vt ctx (config\<lparr>max_ocsp_recursion := n\<rparr>) (\<lambda>i. W' (i + 1)) responder ca good"
    using ev_delegated.prems ev_delegated.hyps(6) by (intro ev_delegated.IH) simp
  ultimately show ?case using ev_delegated.hyps by (intro evidence.ev_delegated) simp_all
qed

text \<open>Without budget there is no delegation: the evidence is a CRL or a response of the issuer itself, or
  of a responder exempt from the check.\<close>

lemma evidence_no_budget:
  assumes "evidence S vt ctx config W cert ca s" "max_ocsp_recursion config = 0"
  shows "(\<exists>crl. crl_check_revocation_with_options (sv_lib S) (sv_crypto S) (sv_chrono S) (re_crl_clock (W 0)) crl
            cert ca vt (rc_signature_policy config) (rc_crl_freshness config) = Inr s)
    \<or> (\<exists>der nonce out. check_response S (W 0) cert ca config vt ctx der nonce = Inr out
          \<and> oo_delegated_responder out = None \<and> s = map_validation_status RwOcsp (oo_status out))"
  using assms(1)
proof (rule evidenceE)
  fix n assume "max_ocsp_recursion config = Suc n"
  with assms(2) show ?thesis by simp
qed blast+

lemma run_crl_check_evidence:
  assumes "run_crl_check S (W 0) cert ca config vt = Resolves t s" "is_valid s \<or> is_revoked s"
  shows "evidence S vt ctx config W cert ca s"
  using assms
  by (auto simp: run_crl_check_def future_iff status_pred_defs neq_Nil_conv split: if_splits sum.splits
      intro!: ev_crl)

lemma is_map_status:
  "is_valid (map_validation_status f s) = is_valid s" "is_revoked (map_validation_status f s) = is_revoked s"
  by (cases s; simp add: status_pred_defs)+

lemma run_ocsp_check_definitive:
  assumes "run_ocsp_check S W cert ca config vt ctx = Resolves t s" "is_valid s \<or> is_revoked s"
  shows "\<exists>t1 der nonce out. re_ocsp_time (W 0) = Some t1 \<and> t1 \<le> ocsp_timeout config
    \<and> fetch_for_check S (W 0) cert ca config = Inr (der, nonce)
    \<and> check_response S (W 0) cert ca config vt ctx der nonce = Inr out
    \<and> s = map_validation_status RwOcsp (oo_status out)
    \<and> (\<forall>responder. oo_delegated_responder out = Some responder \<longrightarrow>
         (\<exists>n t2 g. max_ocsp_recursion config = Suc n \<and> (is_valid g \<or> is_unknown g)
            \<and> check_certificate_revocation_with_ocsp_context S (\<lambda>i. W (i + 1)) responder ca
                (config\<lparr>max_ocsp_recursion := n\<rparr>) vt ctx = Resolves t2 g))"
proof -
  from assms obtain t1 t2 fetched where f: "re_ocsp_time (W 0) = Some t1" "t1 \<le> ocsp_timeout config"
      "fetch_for_check S (W 0) cert ca config = fetched"
    and s: "(case fetched of
               Inl e \<Rightarrow> ready (Unknown (RwOcspFetch e))
             | Inr (response_der, nonce) \<Rightarrow>
                 (case check_response S (W 0) cert ca config vt ctx response_der nonce of
                    Inl e \<Rightarrow> ready (ocsp_check_error_to_status e)
                  | Inr outcome \<Rightarrow>
                      (case oo_delegated_responder outcome of
                         None \<Rightarrow> ready (map_validation_status RwOcsp (oo_status outcome))
                       | Some responder \<Rightarrow>
                           if max_ocsp_recursion config = 0 then ready (Invalid RwNoBudget)
                           else
                             await (check_delegated_responder_revocation S W responder ca config vt ctx) (\<lambda>responder_status.
                               if is_revoked responder_status \<or> is_invalid responder_status
                               then ready (Invalid (RwResponder responder_status))
                               else ready (map_validation_status RwOcsp (oo_status outcome)))))) = Resolves t2 s"
    by (subst (asm) run_ocsp_check.simps)
      (auto simp: await_Resolves_iff timeout_Resolves_iff takes_Resolves_iff status_pred_defs split: if_splits)
  from s assms(2) obtain der nonce out where fetched: "fetched = Inr (der, nonce)"
    and out: "check_response S (W 0) cert ca config vt ctx der nonce = Inr out"
    by (cases fetched)
      (auto simp: status_pred_defs ocsp_check_error_to_status_def split: sum.splits ocsp_error.splits)
  show ?thesis
  proof (cases "oo_delegated_responder out")
    case None
    with s f fetched out show ?thesis by auto
  next
    case (Some r)
    with s fetched out assms(2) obtain n g t3 where "max_ocsp_recursion config = Suc n"
      and g: "check_delegated_responder_revocation S W r ca config vt ctx = Resolves t3 g"
        "\<not> is_revoked g" "\<not> is_invalid g" "s = map_validation_status RwOcsp (oo_status out)"
      by (cases "max_ocsp_recursion config")
        (auto simp: await_Resolves_iff is_valid_def is_revoked_def [of "Invalid _"] split: if_splits)
    moreover from g status_exhaust [of g] have "is_valid g \<or> is_unknown g" by blast
    ultimately show ?thesis using Some f fetched out by (auto simp: delegated_eq)
  qed
qed

lemma definitive_source:
  assumes "check_certificate_revocation_with_ocsp_context S W cert ca config vt ctx = Resolves t s"
    "is_valid s \<or> is_revoked s"
  shows "(\<exists>u. run_ocsp_check S W cert ca config vt ctx = Resolves u s)
    \<or> (\<exists>u. run_crl_check S (W 0) cert ca config vt = Resolves u s)"
proof -
  let ?o = "run_ocsp_check S W cert ca config vt ctx" and ?c = "run_crl_check S (W 0) cert ca config vt"
  let ?d = "per_cert_timeout config"
  have why: "(is_valid (settled f ?d w) \<or> is_revoked (settled f ?d w)) \<Longrightarrow> \<exists>u. f = Resolves u (settled f ?d w)" for f w
    by (cases f) (auto simp: settled_def status_pred_defs split: if_splits)
  from assms have "s = merge_preferred (settled ?o ?d RwOcspPending) (settled ?c ?d RwCrlPending) (prefer_ocsp config)"
    using enforce_preds by (auto simp: check_eq Let_def)
  with merge_preferred_cases have "s = settled ?o ?d RwOcspPending \<or> s = settled ?c ?d RwCrlPending" by blast
  with why assms(2) show ?thesis by blast
qed

lemma definitive_evidence:
  assumes "check_certificate_revocation_with_ocsp_context S W cert ca config vt ctx = Resolves t s"
    "require_revocation_check config" "is_valid s \<or> is_revoked s"
  shows "evidence S vt ctx config W cert ca s"
  using assms
proof (induction "max_ocsp_recursion config" arbitrary: config W cert s t rule: less_induct)
  case less
  from definitive_source [OF less.prems(1,3)] show ?case
  proof
    assume "\<exists>u. run_ocsp_check S W cert ca config vt ctx = Resolves u s"
    then obtain u where "run_ocsp_check S W cert ca config vt ctx = Resolves u s" ..
    from run_ocsp_check_definitive [OF this less.prems(3)] obtain t1 der nonce out where
      o: "re_ocsp_time (W 0) = Some t1" "t1 \<le> ocsp_timeout config"
        "fetch_for_check S (W 0) cert ca config = Inr (der, nonce)"
        "check_response S (W 0) cert ca config vt ctx der nonce = Inr out"
      and s: "s = map_validation_status RwOcsp (oo_status out)"
      and del: "\<forall>responder. oo_delegated_responder out = Some responder \<longrightarrow>
         (\<exists>n t2 g. max_ocsp_recursion config = Suc n \<and> (is_valid g \<or> is_unknown g)
            \<and> check_certificate_revocation_with_ocsp_context S (\<lambda>i. W (i + 1)) responder ca
                (config\<lparr>max_ocsp_recursion := n\<rparr>) vt ctx = Resolves t2 g)"
      by (elim exE conjE) (rule that)
    show ?case
    proof (cases "oo_delegated_responder out")
      case None
      show ?thesis unfolding s by (rule ev_ocsp [where W = W, OF o None])
    next
      case (Some r)
      then obtain n t2 g where n: "max_ocsp_recursion config = Suc n" and g: "is_valid g \<or> is_unknown g"
        and c: "check_certificate_revocation_with_ocsp_context S (\<lambda>i. W (i + 1)) r ca
                (config\<lparr>max_ocsp_recursion := n\<rparr>) vt ctx = Resolves t2 g"
        using del by blast
      have "\<not> is_unknown g" using c less.prems(2) by (auto simp: check_eq Let_def enforce_preds)
      with g have g: "is_valid g" by blast
      with less.hyps [OF _ c] n less.prems(2)
      have "evidence S vt ctx (config\<lparr>max_ocsp_recursion := n\<rparr>) (\<lambda>i. W (i + 1)) r ca g" by simp
      then show ?thesis unfolding s by (rule ev_delegated [where W = W, OF o Some n _ g])
    qed
  next
    assume "\<exists>u. run_crl_check S (W 0) cert ca config vt = Resolves u s"
    with run_crl_check_evidence less.prems(3) show ?case by blast
  qed
qed

subsection \<open>Properties\<close>

text \<open>C26: The biased select loop gives each source its own result when that is ready by the deadline, the
  deadline's instant included, and an unknown status otherwise; it ends when both are in, at the
  latest at the deadline. Evidence of one source is never lost because the other is late.\<close>

theorem collect_revocation_results_spec:
  "collect_revocation_results ocsp crl d = Resolves (max (wakes_at ocsp d) (wakes_at crl d))
     (case poll ocsp d of Some s \<Rightarrow> s | None \<Rightarrow> Unknown RwOcspPending,
      case poll crl d of Some s \<Rightarrow> s | None \<Rightarrow> Unknown RwCrlPending)"
  by (simp add: collect_eq settled_def)

text \<open>C5: Whatever the network does, and however often responders delegate, the check of a certificate
  returns: within the per-certificate deadline, and sooner when the limits of both sources are below it.
  It is undetermined only under the relaxed policy.\<close>

theorem revocation_check_in_time:
  "\<exists>t s. check_certificate_revocation_with_ocsp_context S W cert ca config vt ctx = Resolves t s
     \<and> t \<le> min (per_cert_timeout config) (max (ocsp_timeout config) (crl_timeout config))
     \<and> (is_unknown s \<longleftrightarrow> \<not> require_revocation_check config
          \<and> is_unknown (settled (run_ocsp_check S W cert ca config vt ctx) (per_cert_timeout config) RwOcspPending)
          \<and> is_unknown (settled (run_crl_check S (W 0) cert ca config vt) (per_cert_timeout config) RwCrlPending))"
  using ocsp_within [of S W cert ca config vt ctx "per_cert_timeout config"]
    crl_within [of S "W 0" cert ca config vt "per_cert_timeout config"]
  by (auto simp: check_eq Let_def verdict_preds max_def min_def)

text \<open>C4: A certificate is reported revoked exactly when one of the two checks reports it revoked by the
  deadline, and valid exactly when one reports it valid by then and none revoked: a revocation is never
  masked, by the other source, by a timeout or by the policy.\<close>

theorem revocation_verdict:
  assumes "check_certificate_revocation_with_ocsp_context S W cert ca config vt ctx = Resolves t s"
  defines "by_deadline P \<equiv> (\<exists>u r. run_ocsp_check S W cert ca config vt ctx = Resolves u r
              \<and> u \<le> per_cert_timeout config \<and> P r)
            \<or> (\<exists>u r. run_crl_check S (W 0) cert ca config vt = Resolves u r \<and> u \<le> per_cert_timeout config \<and> P r)"
  shows "(is_revoked s \<longleftrightarrow> by_deadline is_revoked)
    \<and> (is_valid s \<longleftrightarrow> by_deadline is_valid \<and> \<not> by_deadline is_revoked)"
  using assms(1) unfolding by_deadline_def by (simp add: check_eq Let_def) (auto simp: verdict_preds)

text \<open>C2: Under the strict policy a definitive status rests on evidence: a current CRL of the issuer that
  answers for the certificate, or a checked OCSP response; and when that was signed by a delegated
  responder that must itself be checked, the responder is good by evidence of the same kind, to a depth
  of at most the recursion budget.\<close>

theorem revocation_status_justified:
  assumes "check_certificate_revocation_with_ocsp_context S W cert ca config vt ctx = Resolves t s"
    and "require_revocation_check config" and "is_valid s \<or> is_revoked s"
  shows "evidence S vt ctx config W cert ca s"
  using assms by (rule definitive_evidence)

text \<open>The check of a delegated responder is the full check of a certificate, policy included, with
  one level less of recursion.\<close>

theorem delegated_check_is_full_check:
  "check_delegated_responder_revocation S W responder ca config vt ctx =
     check_certificate_revocation_with_ocsp_context S (\<lambda>i. W (i + 1)) responder ca
       (config\<lparr>max_ocsp_recursion := max_ocsp_recursion config - 1\<rparr>) vt ctx"
  by (rule delegated_eq)

text \<open>With the shipped configurations the combined deadline never cuts a source off.\<close>

lemma shipped_configs_not_cut_off:
  assumes "config \<in> {revocation_config_default, revocation_config_disabled, revocation_config_strict}"
  shows "(\<exists>t. run_ocsp_check S W cert ca config vt ctx
             = Resolves t (settled (run_ocsp_check S W cert ca config vt ctx) (per_cert_timeout config) RwOcspPending))
    \<and> (\<exists>t. run_crl_check S e cert ca config vt
             = Resolves t (settled (run_crl_check S e cert ca config vt) (per_cert_timeout config) RwCrlPending))"
proof -
  from assms have "ocsp_timeout config \<le> per_cert_timeout config" "crl_timeout config \<le> per_cert_timeout config"
    by (auto simp: revocation_config_default_def revocation_config_disabled_def revocation_config_strict_def from_secs_def)
  then show ?thesis by (blast intro: ocsp_not_cut_off crl_not_cut_off)
qed

subsection \<open>A certificate revoked by its CRL\<close>

definition toy_ocsp_client :: ocsp_client where
  "toy_ocsp_client = \<lparr>oc_http_client = toy_http_client, oc_timeout = 30, oc_max_body_size = OCSP_MAX_BODY_SIZE\<rparr>"

definition toy_services :: services where
  "toy_services = \<lparr>sv_lib = toy_lib, sv_olib = toy_olib,
     sv_crypto = toy_crypto\<lparr>verify_der_signature := (\<lambda>_ _ sig. Inr (sig = [5]))\<rparr>, sv_chrono = toy_chrono,
     sv_ocsp = toy_ocsp_client, sv_crl = toy_crl_client\<rparr>"

definition toy_world :: "nat \<Rightarrow> rev_env" where
  "toy_world = (\<lambda>_. \<lparr>re_ocsp_time = None,
     re_ocsp_net = (\<lambda>_. \<lparr>net_resolver = toy_resolver, guard_timeout = (\<lambda>_. False), http_get = (\<lambda>_. None), http_post = (\<lambda>_ _. None)\<rparr>),
     re_random = None, re_ocsp_clock = 0, re_crl_time = Some 40, re_crl_net = (\<lambda>_. toy_env), re_crl_cache = [],
     re_crl_clock = 20515 * 86400 + 50000\<rparr>)"

lemma toy_crl_verdict:
  "crl_check_revocation_with_options toy_lib (sv_crypto toy_services) toy_chrono (20515 * 86400 + 50000) (toy_crl 5)
     toy_dp_cert toy_ca None policy_default crl_freshness_default
   = Inr (Revoked SrcCrl Unspecified (20515 * 86400 + 43200) :: rev_status)"
proof -
  have "verify_crl_signature_with_policy toy_lib (sv_crypto toy_services) (toy_parsed 5) toy_ca policy_default = Inr ()"
    by (simp add: verify_crl_signature_with_policy_def check_key_usage_def find_extension_value_def toy_ca_def toy_lib_def toy_parsed_def
        verify_signature_by_algid_with_policy_def verify_signature_by_oid_with_policy_def is_weak_signature_oid_def
        verify_with_backend_def toy_services_def toy_crypto_def verify_oids)
  moreover have "name_to_der toy_lib [] = Some [0x30, 0]" by (simp add: toy_lib_def)
  moreover have "get_cert_serial_body toy_dp_cert = [5]" "issuer toy_dp_cert = []"
    by (simp_all add: get_cert_serial_body_def parse_integer_body_def toy_dp_cert_def)
  moreover have "validate_crl_freshness (toy_parsed 5) (20515 * 86400 + 50000) crl_freshness_default = Inr ()"
    by (simp add: validate_crl_freshness_def validate_crl_dates_def toy_parsed_def crl_freshness_default_def)
  ultimately show ?thesis
    by (simp add: crl_check_revocation_with_options_def toy_crl_parses get_cert_issuer_der_def integer_bodies_equal_def)
      (simp add: toy_parsed_def integer_bodies_equal_def)
qed

lemma toy_revoked:
  "check_certificate_revocation_with_ocsp_context toy_services toy_world toy_dp_cert toy_ca revocation_config_default None
     ocsp_validation_context_default = Resolves 40 (Revoked SrcCrl Unspecified (20515 * 86400 + 43200))"
proof -
  have "fst (fetch_crls_for_cert_with_freshness toy_lib toy_chrono toy_crl_client (\<lambda>_. toy_env) toy_dp_cert
    crl_freshness_default []) = [toy_crl 5]"
    by (simp add: fetch_crls_for_cert_with_freshness_def toy_dp_urls toy_fetch)
  then have c: "run_crl_check toy_services (toy_world 0) toy_dp_cert toy_ca revocation_config_default None
    = Resolves 40 (Revoked SrcCrl Unspecified (20515 * 86400 + 43200))"
    using toy_crl_verdict
    by (simp add: run_crl_check_def toy_dp_urls toy_world_def revocation_config_default_def from_secs_def toy_services_def)
  have o: "run_ocsp_check toy_services toy_world toy_dp_cert toy_ca revocation_config_default None
    ocsp_validation_context_default = ready (Unknown RwNoOcspUrl)"
    by (simp add: run_ocsp_check.simps ocsp_validation_context_default_def extract_ocsp_urls_def extract_aia_urls_def
        toy_dp_cert_def AIA_OID_def CRL_DP_OID_def)
  show ?thesis
    by (simp add: check_eq o c settled_def Let_def)
      (simp add: revocation_config_default_def from_secs_def merge_preferred_def resolve_priority_def
        enforce_revocation_policy_def)
qed

theorem revocation_verdict_witness:
  "\<exists>u r. run_crl_check toy_services (toy_world 0) toy_dp_cert toy_ca revocation_config_default None = Resolves u r \<and> is_revoked r
   \<or> run_ocsp_check toy_services toy_world toy_dp_cert toy_ca revocation_config_default None ocsp_validation_context_default
       = Resolves u r \<and> is_revoked r"
  using revocation_verdict [OF toy_revoked] by (auto simp: is_revoked_def [of "Revoked _ _ _"])

theorem revocation_status_justified_witness:
  "evidence toy_services None ocsp_validation_context_default revocation_config_default toy_world toy_dp_cert toy_ca
     (Revoked SrcCrl Unspecified (20515 * 86400 + 43200))"
  using revocation_status_justified [OF toy_revoked]
  by (simp add: revocation_config_default_def is_revoked_def)

end
