(* ===== verification/Online_Chain.thy ===== *)
theory Online_Chain
  imports Ocsp_Facts Crl_Client
begin

section \<open>Online chain discovery (\<open>src/src/ltv/chain.rs\<close>)\<close>

text \<open>
  The chain builder that follows the \<open>caIssuers\<close> URLs of certificates, and the one that orders known
  certificates. The PEM decoder is a parameter; \<open>Es d j\<close> is the network at depth \<open>d\<close> for the \<open>j\<close>th URL.
  A call also returns the URLs it sent requests to.
\<close>

definition MAX_CHAIN_DEPTH :: nat where "MAX_CHAIN_DEPTH = 10"
definition MAX_CERT_BODY_SIZE :: nat where "MAX_CERT_BODY_SIZE = 1024 * 1024"

record chain_builder =
  cb_http_client :: attested_http_client
  cb_timeout :: nat
  cb_max_body_size :: nat

text \<open>The error of the constructors is the variant \<open>LtvError::HttpClient\<close>.\<close>

definition chain_builder_new :: "http_platform \<Rightarrow> (http_client_error, chain_builder) result" where
  "chain_builder_new P =
     and_then (hardened_http_client P) (\<lambda>client.
       Inr \<lparr>cb_http_client = client, cb_timeout = 30, cb_max_body_size = MAX_CERT_BODY_SIZE\<rparr>)"

definition builder_http_client :: "chain_builder \<Rightarrow> attested_http_client \<Rightarrow> chain_builder" where
  "builder_http_client b client = b\<lparr>cb_http_client := client\<rparr>"

definition builder_unverified_http_client ::
  "http_platform \<Rightarrow> chain_builder \<Rightarrow> http_client \<Rightarrow> (http_client_error, chain_builder) result" where
  "builder_unverified_http_client P b client =
     and_then (unverified_http_client P client) (\<lambda>client. Inr (b\<lparr>cb_http_client := client\<rparr>))"

definition builder_timeout :: "chain_builder \<Rightarrow> nat \<Rightarrow> chain_builder" where
  "builder_timeout b t = b\<lparr>cb_timeout := t\<rparr>"

definition builder_max_body_size :: "chain_builder \<Rightarrow> nat \<Rightarrow> chain_builder" where
  "builder_max_body_size b n = b\<lparr>cb_max_body_size := n\<rparr>"

definition is_self_signed :: "certificate \<Rightarrow> bool" where
  "is_self_signed cert \<longleftrightarrow> subject cert = issuer cert"

subsection \<open>Fetching one certificate\<close>

fun read_cert_body :: "nat \<Rightarrow> bytes \<Rightarrow> bytes option list \<Rightarrow> (fetch_error, bytes) result" where
  "read_cert_body max_body acc [] = Inr acc"
| "read_cert_body max_body acc (None # _) = Inl FetchRead"
| "read_cert_body max_body acc (Some chunk # chunks) =
     (if max_body < length acc + length chunk then Inl FetchTooLarge
      else read_cert_body max_body (acc @ chunk) chunks)"

definition parse_fetched :: "lib \<Rightarrow> (bytes \<Rightarrow> bytes option) \<Rightarrow> bytes \<Rightarrow> (fetch_error, certificate) result" where
  "parse_fetched L pem cert_bytes =
     (case cert_from_der L cert_bytes of
        Some cert \<Rightarrow> Inr cert
      | None \<Rightarrow>
          (case pem cert_bytes of
             Some der \<Rightarrow> ok_or FetchParse (cert_from_der L der)
           | None \<Rightarrow> Inl FetchParse))"

definition fetch_certificate ::
  "lib \<Rightarrow> (bytes \<Rightarrow> bytes option) \<Rightarrow> chain_builder \<Rightarrow> net_env \<Rightarrow> rstr \<Rightarrow> (fetch_error, certificate) result \<times> rstr list" where
  "fetch_certificate L pem builder E url =
     (if guard_timeout E url then (Inl FetchGuardTimeout, [])
      else case validate_fetch_url (net_resolver E) url of
        Inl e \<Rightarrow> (Inl (FetchGuard e), [])
      | Inr _ \<Rightarrow>
          (and_then (ok_or FetchSend (http_get E url)) (\<lambda>response.
             if \<not> http_success response then Inl FetchStatus
             else
             and_then (case http_content_length response of
                 Some len \<Rightarrow> if cb_max_body_size builder < len then Inl (FetchAnnounced len) else Inr ()
               | None \<Rightarrow> Inr ()) (\<lambda>_.
             and_then (read_cert_body (cb_max_body_size builder) [] (http_chunks response)) (parse_fetched L pem))), [url]))"

subsection \<open>Building\<close>

fun fetch_issuer ::
  "lib \<Rightarrow> (bytes \<Rightarrow> bytes option) \<Rightarrow> chain_builder \<Rightarrow> (nat \<Rightarrow> net_env) \<Rightarrow> nat \<Rightarrow> rstr list \<Rightarrow> certificate option \<times> rstr list" where
  "fetch_issuer L pem builder Es j [] = (None, [])"
| "fetch_issuer L pem builder Es j (url # urls) =
     (case fetch_certificate L pem builder (Es j) url of
        (Inr issuer_cert, sent) \<Rightarrow> (Some issuer_cert, sent)
      | (Inl _, sent) \<Rightarrow> map_prod id (append sent) (fetch_issuer L pem builder Es (j + 1) urls))"

datatype chain_error = ChainEncode

text \<open>The loop over the depth; \<open>n\<close> rounds are left.\<close>

fun build_chain_loop ::
  "lib \<Rightarrow> olib \<Rightarrow> (bytes \<Rightarrow> bytes option) \<Rightarrow> chain_builder \<Rightarrow> (nat \<Rightarrow> nat \<Rightarrow> net_env) \<Rightarrow> trust_store \<Rightarrow> nat \<Rightarrow> nat
    \<Rightarrow> bytes list \<Rightarrow> certificate \<Rightarrow> (chain_error, bytes list) result \<times> rstr list" where
  "build_chain_loop L Q pem builder Es store 0 depth chain current = (Inr chain, [])"
| "build_chain_loop L Q pem builder Es store (Suc n) depth chain current =
     (case cert_to_der L current of
        None \<Rightarrow> (Inl ChainEncode, [])
      | Some current_der \<Rightarrow>
          (let chain = chain @ [current_der] in
           if find_issuer store current \<noteq> None then (Inr chain, [])
           else if is_self_signed current then (Inr chain, [])
           else
             let urls = extract_aia_urls Q current AiaCaIssuers in
             if urls = [] then (Inr chain, [])
             else
               (case fetch_issuer L pem builder (Es depth) 0 urls of
                  (None, sent) \<Rightarrow> (Inr chain, sent)
                | (Some issuer_cert, sent) \<Rightarrow>
                    map_prod id (append sent)
                      (build_chain_loop L Q pem builder Es store n (depth + 1) chain issuer_cert))))"

definition build_chain ::
  "lib \<Rightarrow> olib \<Rightarrow> (bytes \<Rightarrow> bytes option) \<Rightarrow> chain_builder \<Rightarrow> (nat \<Rightarrow> nat \<Rightarrow> net_env) \<Rightarrow> certificate \<Rightarrow> trust_store
    \<Rightarrow> (chain_error, bytes list) result \<times> rstr list" where
  "build_chain L Q pem builder Es leaf store = build_chain_loop L Q pem builder Es store MAX_CHAIN_DEPTH 0 [] leaf"

fun chain_from_certs_loop ::
  "lib \<Rightarrow> certificate list \<Rightarrow> trust_store \<Rightarrow> nat \<Rightarrow> bytes list \<Rightarrow> certificate \<Rightarrow> bytes list" where
  "chain_from_certs_loop L available store 0 chain current = chain"
| "chain_from_certs_loop L available store (Suc n) chain current =
     (case cert_to_der L current of
        None \<Rightarrow> chain
      | Some current_der \<Rightarrow>
          (let chain = chain @ [current_der] in
           if find_issuer store current \<noteq> None then chain
           else if is_self_signed current then chain
           else case find (\<lambda>c. subject c = issuer current) available of
               Some issuer_cert \<Rightarrow> chain_from_certs_loop L available store n chain issuer_cert
             | None \<Rightarrow> chain))"

definition build_chain_from_certs :: "lib \<Rightarrow> certificate \<Rightarrow> certificate list \<Rightarrow> trust_store \<Rightarrow> bytes list" where
  "build_chain_from_certs L leaf available store = chain_from_certs_loop L available store MAX_CHAIN_DEPTH [] leaf"

subsection \<open>What is built\<close>

text \<open>The certificate is one that a guarded request to one of the URLs brought, of bounded size.\<close>

definition served_by ::
  "lib \<Rightarrow> (bytes \<Rightarrow> bytes option) \<Rightarrow> chain_builder \<Rightarrow> (nat \<Rightarrow> net_env) \<Rightarrow> rstr list \<Rightarrow> certificate \<Rightarrow> bool" where
  "served_by L pem builder Es urls cert \<longleftrightarrow>
     (\<exists>j url resp bs. url \<in> set urls \<and> validate_fetch_url (net_resolver (Es j)) url = Inr ()
        \<and> http_get (Es j) url = Some resp \<and> http_chunks resp = map Some bs
        \<and> length (concat bs) \<le> cb_max_body_size builder \<and> parse_fetched L pem (concat bs) = Inr cert)"

lemma read_cert_body_Inr:
  "read_cert_body n acc chunks = Inr body \<Longrightarrow> length acc \<le> n \<Longrightarrow>
     \<exists>bs. chunks = map Some bs \<and> body = acc @ concat bs \<and> length body \<le> n"
proof (induction n acc chunks rule: read_cert_body.induct)
  case (3 n acc chunk chunks)
  then obtain bs where "chunks = map Some bs" "body = (acc @ chunk) @ concat bs" "length body \<le> n"
    by (auto split: if_splits)
  then show ?case by (intro exI [of _ "chunk # bs"]) simp
qed auto

lemma fetch_certificate_sound:
  assumes "fetch_certificate L pem builder E url = (r, sent)"
  shows "(\<forall>u\<in>set sent. u = url \<and> validate_fetch_url (net_resolver E) u = Inr ())
    \<and> (\<forall>cert. r = Inr cert \<longrightarrow> (\<exists>resp bs. validate_fetch_url (net_resolver E) url = Inr () \<and> http_get E url = Some resp
         \<and> http_chunks resp = map Some bs \<and> length (concat bs) \<le> cb_max_body_size builder
         \<and> parse_fetched L pem (concat bs) = Inr cert))"
proof (cases "guard_timeout E url \<or> validate_fetch_url (net_resolver E) url \<noteq> Inr ()")
  case True
  with assms show ?thesis
    by (cases "validate_fetch_url (net_resolver E) url") (auto simp: fetch_certificate_def split: if_splits)
next
  case False
  with assms show ?thesis
    by (auto simp: fetch_certificate_def result_simps dest!: read_cert_body_Inr)
qed

lemma served_by_mono: "served_by L pem builder Es urls cert \<Longrightarrow> set urls \<subseteq> set urls' \<Longrightarrow> served_by L pem builder Es urls' cert"
  unfolding served_by_def by blast

lemma fetch_issuer_served:
  "fetch_issuer L pem builder Es j urls = (Some cert, sent) \<Longrightarrow> served_by L pem builder Es urls cert"
proof (induction urls arbitrary: j sent)
  case (Cons url urls)
  obtain x s where f: "fetch_certificate L pem builder (Es j) url = (x, s)" by (metis surj_pair)
  show ?case
  proof (cases x)
    case (Inl e)
    with Cons.prems f obtain s' where "fetch_issuer L pem builder Es (j + 1) urls = (Some cert, s')"
      by (cases "fetch_issuer L pem builder Es (j + 1) urls") auto
    from Cons.IH [OF this] show ?thesis by (rule served_by_mono) auto
  next
    case (Inr c)
    with Cons.prems f have "x = Inr cert" by simp
    with fetch_certificate_sound [OF f] obtain resp bs where
      "validate_fetch_url (net_resolver (Es j)) url = Inr ()" "http_get (Es j) url = Some resp"
      "http_chunks resp = map Some bs" "length (concat bs) \<le> cb_max_body_size builder"
      "parse_fetched L pem (concat bs) = Inr cert"
      by blast
    then show ?thesis unfolding served_by_def
      by (intro exI [of _ j] exI [of _ url] exI [of _ resp] exI [of _ bs]) simp
  qed
qed simp

lemma fetch_issuer_sent:
  "u \<in> set (snd (fetch_issuer L pem builder Es j urls)) \<Longrightarrow>
     u \<in> set urls \<and> (\<exists>i. validate_fetch_url (net_resolver (Es i)) u = Inr ())"
proof (induction urls arbitrary: j)
  case (Cons url urls)
  obtain x s where f: "fetch_certificate L pem builder (Es j) url = (x, s)" by (metis surj_pair)
  from Cons.prems f have "u \<in> set s \<or> u \<in> set (snd (fetch_issuer L pem builder Es (j + 1) urls))"
    by (auto split: sum.splits)
  with fetch_certificate_sound [OF f] Cons.IH show ?case by auto
qed simp

text \<open>One step of the walk, and why a walk may end.\<close>

definition walk_step ::
  "lib \<Rightarrow> olib \<Rightarrow> (bytes \<Rightarrow> bytes option) \<Rightarrow> chain_builder \<Rightarrow> (nat \<Rightarrow> nat \<Rightarrow> net_env) \<Rightarrow> certificate \<Rightarrow> certificate \<Rightarrow> bool" where
  "walk_step L Q pem builder Es c d \<longleftrightarrow> (\<exists>i. served_by L pem builder (Es i) (extract_aia_urls Q c AiaCaIssuers) d)"

lemma build_chain_loop_walk:
  "build_chain_loop L Q pem builder Es store n depth chain current = (Inr ders, sent) \<Longrightarrow>
     \<exists>certs. length certs \<le> n \<and> (n > 0 \<longrightarrow> certs \<noteq> [] \<and> hd certs = current)
       \<and> map Some ders = map Some chain @ map (cert_to_der L) certs
       \<and> successively (walk_step L Q pem builder Es) certs
       \<and> (\<forall>c\<in>set (butlast certs). find_issuer store c = None \<and> \<not> is_self_signed c)
       \<and> (\<forall>u\<in>set sent. \<exists>c\<in>set certs. u \<in> set (extract_aia_urls Q c AiaCaIssuers)
            \<and> (\<exists>i j. validate_fetch_url (net_resolver (Es i j)) u = Inr ()))"
proof (induction n arbitrary: depth chain current sent)
  case (Suc n)
  from Suc.prems obtain der where der: "cert_to_der L current = Some der" by (auto split: option.splits)
  let ?urls = "extract_aia_urls Q current AiaCaIssuers"
  obtain r s where f: "fetch_issuer L pem builder (Es depth) 0 ?urls = (r, s)" by (metis surj_pair)
  have s: "\<forall>u\<in>set s. u \<in> set ?urls \<and> (\<exists>i j. validate_fetch_url (net_resolver (Es i j)) u = Inr ())"
    using fetch_issuer_sent [of _ L pem builder "Es depth" 0 ?urls] f by (metis snd_conv)
  show ?case
  proof (cases "find_issuer store current \<noteq> None \<or> is_self_signed current \<or> ?urls = [] \<or> r = None")
    case True
    with Suc.prems der f have "ders = chain @ [der]" "sent = [] \<or> sent = s"
      by (auto simp: Let_def split: if_splits option.splits)
    with der s show ?thesis by (intro exI [of _ "[current]"]) auto
  next
    case False
    then obtain c where c: "r = Some c" by auto
    with False Suc.prems der f obtain s' where
      rest: "build_chain_loop L Q pem builder Es store n (depth + 1) (chain @ [der]) c = (Inr ders, s')" and "sent = s @ s'"
      by (cases "build_chain_loop L Q pem builder Es store n (depth + 1) (chain @ [der]) c") (auto simp: Let_def)
    from Suc.IH [OF rest] obtain certs where certs: "length certs \<le> n" "n > 0 \<longrightarrow> certs \<noteq> [] \<and> hd certs = c"
      "map Some ders = map Some (chain @ [der]) @ map (cert_to_der L) certs"
      "successively (walk_step L Q pem builder Es) certs"
      "\<forall>c\<in>set (butlast certs). find_issuer store c = None \<and> \<not> is_self_signed c"
      "\<forall>u\<in>set s'. \<exists>c\<in>set certs. u \<in> set (extract_aia_urls Q c AiaCaIssuers)
            \<and> (\<exists>i j. validate_fetch_url (net_resolver (Es i j)) u = Inr ())" by blast
    have step: "walk_step L Q pem builder Es current c"
      using fetch_issuer_served f c unfolding walk_step_def by blast
    have "successively (walk_step L Q pem builder Es) (current # certs)"
      using certs(1,2,4) step by (cases certs) auto
    with certs der False s \<open>sent = s @ s'\<close> show ?thesis
      by (intro exI [of _ "current # certs"]) auto
  qed
qed auto

text \<open>Whatever comes of the walk, its requests passed the guard.\<close>

lemma build_chain_loop_sent:
  "u \<in> set (snd (build_chain_loop L Q pem builder Es store n depth chain current)) \<Longrightarrow>
     \<exists>i j. validate_fetch_url (net_resolver (Es i j)) u = Inr ()"
proof (induction n arbitrary: depth chain current)
  case (Suc n)
  let ?urls = "extract_aia_urls Q current AiaCaIssuers"
  obtain r s where f: "fetch_issuer L pem builder (Es depth) 0 ?urls = (r, s)" by (metis surj_pair)
  from Suc.prems f have "u \<in> set s \<or> (\<exists>chain c. u \<in> set (snd (build_chain_loop L Q pem builder Es store n (depth + 1) chain c)))"
    by (auto simp: Let_def split: if_splits option.splits)
  with Suc.IH fetch_issuer_sent [of u L pem builder "Es depth" 0 ?urls] f show ?case by auto
qed simp

interpretation issuer_requests: guarded_client cb_http_client
  "\<lambda>builder (L, Q, pem, Es, leaf, store). snd (build_chain L Q pem builder Es leaf store)"
  "\<lambda>(L, Q, pem, Es, leaf, store). range (\<lambda>(i, j). net_resolver (Es i j))"
  by unfold_locales (auto simp: build_chain_def dest!: build_chain_loop_sent, blast)

lemma chain_from_certs_loop_walk:
  "\<exists>certs. length certs \<le> n \<and> (certs \<noteq> [] \<longrightarrow> hd certs = current)
     \<and> map Some (chain_from_certs_loop L available store n chain current) = map Some chain @ map (cert_to_der L) certs
     \<and> successively (\<lambda>c d. subject d = issuer c \<and> d \<in> set available) certs"
proof (induction n arbitrary: chain current)
  case (Suc n)
  show ?case
  proof (cases "cert_to_der L current")
    case None
    then show ?thesis by (intro exI [of _ "[]"]) simp
  next
    case (Some der)
    show ?thesis
    proof (cases "find_issuer store current \<noteq> None \<or> is_self_signed current
        \<or> find (\<lambda>c. subject c = issuer current) available = None")
      case True
      with Some show ?thesis by (intro exI [of _ "[current]"]) (auto simp: Let_def)
    next
      case False
      then obtain d where d: "find (\<lambda>c. subject c = issuer current) available = Some d" by auto
      then have step: "subject d = issuer current" "d \<in> set available" by (auto simp: find_Some_iff)
      obtain certs where certs: "length certs \<le> n" "certs \<noteq> [] \<longrightarrow> hd certs = d"
        "map Some (chain_from_certs_loop L available store n (chain @ [der]) d) = map Some (chain @ [der]) @ map (cert_to_der L) certs"
        "successively (\<lambda>c d. subject d = issuer c \<and> d \<in> set available) certs"
        using Suc.IH by blast
      have "successively (\<lambda>c d. subject d = issuer c \<and> d \<in> set available) (current # certs)"
        using certs(2,4) step by (cases certs) auto
      with certs False d Some show ?thesis by (intro exI [of _ "current # certs"]) (auto simp: Let_def)
    qed
  qed
qed auto

text \<open>C27: A discovered chain starts with the leaf, has at most ten certificates, and each further one was
  brought by a guarded request, within the size limit, from a \<open>caIssuers\<close> URL of the one before; the
  walk goes on only past certificates that are neither self-signed nor issued by an anchor. Every
  request, also of failed attempts, went to such a URL through the guard.\<close>

theorem online_chain_walk:
  assumes "build_chain L Q pem builder Es leaf store = (Inr ders, sent)"
  shows "\<exists>certs. certs \<noteq> [] \<and> hd certs = leaf \<and> length certs \<le> 10 \<and> map Some ders = map (cert_to_der L) certs
     \<and> successively (walk_step L Q pem builder Es) certs
     \<and> (\<forall>c\<in>set (butlast certs). find_issuer store c = None \<and> \<not> is_self_signed c)
     \<and> (\<forall>u\<in>set sent. \<exists>c\<in>set certs. u \<in> set (extract_aia_urls Q c AiaCaIssuers)
          \<and> (\<exists>i j. validate_fetch_url (net_resolver (Es i j)) u = Inr ()))"
  using build_chain_loop_walk [OF assms [unfolded build_chain_def]] unfolding MAX_CHAIN_DEPTH_def by auto

text \<open>A leaf whose issuer URL serves a certificate of another name.\<close>

definition toy_aia_leaf :: certificate where
  "toy_aia_leaf = ed_cert 2 1 (Some [\<lparr>extn_id = AIA_OID, critical = False,
     extn_value = [0x30, 8, 0x30, 6, 6, 1, 2, 0x86, 1, 0x61]\<rparr>])"

definition toy_stranger :: certificate where "toy_stranger = ed_cert 4 4 None"

definition toy_aia_net :: net_env where
  "toy_aia_net = \<lparr>net_resolver = toy_resolver, guard_timeout = (\<lambda>_. False),
     http_get = (\<lambda>_. Some \<lparr>http_success = True, http_content_length = None, http_chunks = [Some [9]]\<rparr>)\<rparr>"

definition toy_builder :: chain_builder where
  "toy_builder = \<lparr>cb_http_client = toy_http_client, cb_timeout = 30, cb_max_body_size = MAX_CERT_BODY_SIZE\<rparr>"

lemma toy_aia_chain:
  "build_chain (toy_lib\<lparr>cert_from_der := (\<lambda>_. Some toy_stranger)\<rparr>) (toy_olib\<lparr>oid_to_der := (\<lambda>_. Some [6, 1, 2])\<rparr>)
     (\<lambda>_. None) toy_builder (\<lambda>_ _. toy_aia_net) toy_aia_leaf store_new = (Inr [[2], [4]], [toy_url])"
proof -
  let ?L = "toy_lib\<lparr>cert_from_der := (\<lambda>_. Some toy_stranger)\<rparr>" and ?Q = "toy_olib\<lparr>oid_to_der := (\<lambda>_. Some [6, 1, 2])\<rparr>"
  have urls: "extract_aia_urls ?Q toy_aia_leaf AiaCaIssuers = [toy_url]"
    by (simp add: extract_aia_urls_def toy_aia_leaf_def parse_aia_extension_def aia_loop.simps access_uri_def ocsp_tlv_def
        tlv_eval encode_tlv_def encode_der_length_def as_u8_def toy_url_def ascii_from_utf8_ok is_ascii_def)
  have fetch: "fetch_certificate ?L (\<lambda>_. None) toy_builder toy_aia_net toy_url = (Inr toy_stranger, [toy_url])"
    using toy_guard by (simp add: fetch_certificate_def toy_aia_net_def toy_builder_def MAX_CERT_BODY_SIZE_def parse_fetched_def)
  have der: "cert_to_der toy_lib c = Some (serial_number c)" for c by (simp add: toy_lib_def)
  have none: "find_issuer store_new c = None" for c by (simp add: find_issuer_def store_new_def)
  have leaf: "\<not> is_self_signed toy_aia_leaf" "serial_number toy_aia_leaf = [2]"
    "is_self_signed toy_stranger" "serial_number toy_stranger = [4]"
    by (simp_all add: is_self_signed_def toy_aia_leaf_def toy_stranger_def)
  have loop: "build_chain_loop ?L ?Q (\<lambda>_. None) toy_builder (\<lambda>_ _. toy_aia_net) store_new (Suc (Suc 8)) 0 [] toy_aia_leaf
    = (Inr [[2], [4]], [toy_url])"
    unfolding build_chain_loop.simps by (simp add: der none urls fetch leaf Let_def)
  have "MAX_CHAIN_DEPTH = Suc (Suc 8)" by (simp add: MAX_CHAIN_DEPTH_def)
  with loop show ?thesis unfolding build_chain_def by (simp only:)
qed

theorem online_chain_walk_witness:
  "\<exists>certs. hd certs = toy_aia_leaf \<and> length certs \<le> 10
     \<and> map Some [[2], [4]] = map (cert_to_der (toy_lib\<lparr>cert_from_der := (\<lambda>_. Some toy_stranger)\<rparr>)) certs"
  using online_chain_walk [OF toy_aia_chain] by blast

text \<open>Discovery does not compare names: the builder goes on with whatever certificate the URL serves,
  here one whose subject is not the issuer of the leaf.\<close>

theorem online_chain_ignores_names:
  "build_chain (toy_lib\<lparr>cert_from_der := (\<lambda>_. Some toy_stranger)\<rparr>) (toy_olib\<lparr>oid_to_der := (\<lambda>_. Some [6, 1, 2])\<rparr>)
     (\<lambda>_. None) toy_builder (\<lambda>_ _. toy_aia_net) toy_aia_leaf store_new
     = (Inr [serial_number toy_aia_leaf, serial_number toy_stranger], [toy_url])
   \<and> subject toy_stranger \<noteq> issuer toy_aia_leaf"
  by (simp add: toy_aia_chain) (simp add: toy_aia_leaf_def toy_stranger_def)

text \<open>The offline builder links by names: each certificate after the leaf is one of the given ones and
  carries the issuer name of the one before, and there are at most ten.\<close>

theorem chain_from_certs_linked:
  "\<exists>certs. length certs \<le> 10 \<and> (certs = [] \<or> hd certs = leaf)
     \<and> map Some (build_chain_from_certs L leaf available store) = map (cert_to_der L) certs
     \<and> successively (\<lambda>c d. subject d = issuer c \<and> d \<in> set available) certs"
  using chain_from_certs_loop_walk [of MAX_CHAIN_DEPTH leaf L available store "[]"]
  unfolding build_chain_from_certs_def MAX_CHAIN_DEPTH_def by auto

end
