(* ===== verification/Ltv_Error.thy ===== *)
theory Ltv_Error
  imports Revocation Online_Chain
begin

section \<open>The error type of long-term validation (\<open>LtvError\<close> of \<open>src/src/error.rs\<close>)\<close>

text \<open>
  The components of \<open>src/src/ltv/\<close> return one error type. In the model each has a type of its own, with
  the variants it raises; here is the whole enumeration and the place of each of those types in it. No
  code of the crate raises \<open>Dss\<close> and \<open>Revocation\<close>.
\<close>

datatype chain_msg = ChainMsgEncode | ChainMsgFetch fetch_error

datatype crl_text = CrlMsg crl_msg | CrlMsgFetch fetch_error

datatype ltv_error =
    LtvCrypto
  | LtvHttpClient http_client_error
  | LtvOcsp ocsp_msg
  | LtvOcspResponderStatus u8
  | LtvCrl crl_text
  | LtvChain chain_msg
  | LtvDss string
  | LtvRevocation string
  | LtvX509Extension ext_msg

definition ltv_of_x509 :: "x509_error \<Rightarrow> ltv_error" where
  "ltv_of_x509 e = (case e of X509Extension m \<Rightarrow> LtvX509Extension m)"

fun ltv_of_crl :: "crl_error \<Rightarrow> ltv_error" where
  "ltv_of_crl (Crl m) = LtvCrl (CrlMsg m)"
| "ltv_of_crl (CrlX509 e) = ltv_of_x509 e"

fun ltv_of_ocsp :: "ocsp_error \<Rightarrow> ltv_error" where
  "ltv_of_ocsp (Ocsp m) = LtvOcsp m"
| "ltv_of_ocsp (OcspResponderStatus s) = LtvOcspResponderStatus s"
| "ltv_of_ocsp (OcspX509 e) = ltv_of_x509 e"
| "ltv_of_ocsp OcspCrypto = LtvCrypto"

fun ltv_of_chain :: "chain_error \<Rightarrow> ltv_error" where
  "ltv_of_chain ChainEncode = LtvChain ChainMsgEncode"

fun ltv_of_crl_fetch :: "fetch_error \<Rightarrow> ltv_error" where
  "ltv_of_crl_fetch e = LtvCrl (CrlMsgFetch e)"

fun ltv_of_chain_fetch :: "fetch_error \<Rightarrow> ltv_error" where
  "ltv_of_chain_fetch e = LtvChain (ChainMsgFetch e)"

text \<open>The embeddings lose nothing: what a caller sees as \<open>LtvError\<close> determines the error of the component.\<close>

lemma ltv_of_x509_inject: "ltv_of_x509 e = ltv_of_x509 e' \<longleftrightarrow> e = e'"
  by (simp add: ltv_of_x509_def split: x509_error.splits)
lemma ltv_of_crl_inject: "ltv_of_crl e = ltv_of_crl e' \<longleftrightarrow> e = e'"
  by (cases e; cases e') (auto simp: ltv_of_x509_inject ltv_of_x509_def split: x509_error.splits)

lemma ltv_of_ocsp_inject: "ltv_of_ocsp e = ltv_of_ocsp e' \<longleftrightarrow> e = e'"
  by (cases e; cases e') (auto simp: ltv_of_x509_inject ltv_of_x509_def split: x509_error.splits)

text \<open>Of the errors of an OCSP check, the orchestrator keeps exactly those that are an
  \<open>LtvError::OcspResponderStatus\<close> undetermined; every other one is a failed validation.\<close>

theorem ocsp_error_status_iff:
  "(\<exists>why. ocsp_check_error_to_status e = Unknown why) \<longleftrightarrow> ltv_of_ocsp e \<in> range LtvOcspResponderStatus"
  "(\<exists>why. ocsp_check_error_to_status e = Invalid why) \<longleftrightarrow> ltv_of_ocsp e \<notin> range LtvOcspResponderStatus"
  by (cases e; auto simp: ocsp_check_error_to_status_def ltv_of_x509_def split: x509_error.splits)+

end
