(* ===== verification/Token.thy ===== *)
theory Token
  imports Trust_Store Http_Client Status
begin

section \<open>Timestamp requests, responses and TSTInfo (\<open>src/src/tsp/token.rs\<close>)\<close>

text \<open>
  The RFC 3161 data structures. The typed decoders of the \<open>der\<close>, \<open>cms\<close> and \<open>x509-cert\<close> crates that the
  file calls are the fields of \<open>tlib\<close>; a decoder that the code applies to a field it has already
  parsed takes the field's contents. \<open>any_ref_ok\<close> is \<open>AnyRef::from_der\<close> on one encoding, which
  checks that encoding and keeps its contents.
\<close>

subsection \<open>Third-party decoders\<close>

datatype general_name = DirectoryName name | DnsName rstr | OtherGeneralName u8 bytes

record cms_attribute =
  ca_oid :: oid
  ca_values :: "any list"

datatype signer_identifier = IssuerAndSerialNumber name bytes | SubjectKeyIdentifier bytes

record signer_info =
  si_sid :: signer_identifier
  si_digest_alg :: algorithm_identifier
  si_signed_attrs :: "cms_attribute list option"
  si_signature_algorithm :: algorithm_identifier
  si_signature :: bytes
  si_unsigned_attrs :: "cms_attribute list option"

datatype certificate_choice = CertificateChoice certificate | OtherCertificate

record signed_data =
  sd_econtent_type :: oid
  sd_econtent :: "any option"
  sd_certificates :: "certificate_choice list option"
  sd_signer_infos :: "signer_info list"

record tlib =
  any_ref_ok :: "bytes \<Rightarrow> bool"
  any_int_ok :: "bytes \<Rightarrow> bool"
  dec_u64 :: "bytes \<Rightarrow> u64 option"
  dec_u16 :: "bytes \<Rightarrow> nat option"
  dec_uint_ok :: "bytes \<Rightarrow> bool"
  dec_int_ok :: "bytes \<Rightarrow> bool"
  dec_bool_ok :: "bytes \<Rightarrow> bool"
  dec_oid :: "bytes \<Rightarrow> oid option"
  dec_algid :: "bytes \<Rightarrow> algorithm_identifier option"
  dec_bits :: "bytes \<Rightarrow> (nat \<times> bytes) option"
  dec_extension :: "bytes \<Rightarrow> extension option"
  dec_general_names :: "bytes \<Rightarrow> general_name list option"
  dec_serial :: "bytes \<Rightarrow> bytes option"
  general_name_from_der :: "bytes \<Rightarrow> general_name option"
  san_names_from_der :: "bytes \<Rightarrow> general_name list option"
  eku_oids_from_der :: "bytes \<Rightarrow> oid list option"
  gtime_from_der :: "bytes \<Rightarrow> datetime option"
  algid_to_der :: "algorithm_identifier \<Rightarrow> bytes option"
  octets_to_der :: "bytes \<Rightarrow> bytes option"
  policy_to_der :: "oid \<Rightarrow> bytes option"
  content_info_from_der :: "bytes \<Rightarrow> (oid \<times> any) option"
  signed_data_from_any :: "any \<Rightarrow> signed_data option"
  attributes_to_der :: "cms_attribute list \<Rightarrow> bytes option"
  any_as_octets :: "any \<Rightarrow> bytes option"
  hash_bytes :: "hash_algorithm \<Rightarrow> bytes \<Rightarrow> bytes option"

definition is_null :: "any \<Rightarrow> bool" where "is_null a \<longleftrightarrow> a = Any 0x05 []"

subsection \<open>Status and errors\<close>

datatype pki_status =
  Granted | GrantedWithMods | Rejection | Waiting | RevocationWarning | RevocationNotification | UnknownStatus u64

definition pki_from_u64 :: "u64 \<Rightarrow> pki_status" where
  "pki_from_u64 v =
     (if v = 0 then Granted
      else if v = 1 then GrantedWithMods
      else if v = 2 then Rejection
      else if v = 3 then Waiting
      else if v = 4 then RevocationWarning
      else if v = 5 then RevocationNotification
      else UnknownStatus v)"

definition is_success :: "pki_status \<Rightarrow> bool" where
  "is_success s \<longleftrightarrow> s = Granted \<or> s = GrantedWithMods"

fun pki_status_display :: "pki_status \<Rightarrow> string" where
  "pki_status_display Granted = ''granted (0)''"
| "pki_status_display GrantedWithMods = ''grantedWithMods (1)''"
| "pki_status_display Rejection = ''rejection (2)''"
| "pki_status_display Waiting = ''waiting (3)''"
| "pki_status_display RevocationWarning = ''revocationWarning (4)''"
| "pki_status_display RevocationNotification = ''revocationNotification (5)''"
| "pki_status_display (UnknownStatus v) = ''unknown ('' @ nat_display (unat v) @ '')''"

text \<open>Messages: the fixed text, with the value it is formatted with where there is one.\<close>

datatype tsp_msg =
    Msg string
  | MsgTlv string der_error
  | MsgTag string u8 u8
  | MsgByte string u8
  | MsgNat string nat
  | MsgOid string oid
  | MsgTrust string trust_error
  | MsgTsaKu tsa_key_usage_error
  | MsgGuard url_guard_error

datatype tsp_error =
    TspCrypto
  | TspHttpClient http_client_error
  | HttpError tsp_msg
  | TsaError pki_status "rstr option"
  | InvalidResponse tsp_msg
  | VerificationFailed tsp_msg

subsection \<open>Object identifiers\<close>

definition ID_CT_TST_INFO :: oid where "ID_CT_TST_INFO = [1, 2, 840, 113549, 1, 9, 16, 1, 4]"
definition ID_SIGNED_DATA :: oid where "ID_SIGNED_DATA = [1, 2, 840, 113549, 1, 7, 2]"
definition ID_CONTENT_TYPE_ATTR :: oid where "ID_CONTENT_TYPE_ATTR = [1, 2, 840, 113549, 1, 9, 3]"
definition ID_MESSAGE_DIGEST_ATTR :: oid where "ID_MESSAGE_DIGEST_ATTR = [1, 2, 840, 113549, 1, 9, 4]"
definition ID_SIGNING_CERTIFICATE :: oid where "ID_SIGNING_CERTIFICATE = [1, 2, 840, 113549, 1, 9, 16, 2, 12]"
definition ID_SIGNING_CERTIFICATE_V2 :: oid where "ID_SIGNING_CERTIFICATE_V2 = [1, 2, 840, 113549, 1, 9, 16, 2, 47]"
definition ID_KP_TIME_STAMPING :: oid where "ID_KP_TIME_STAMPING = [1, 3, 6, 1, 5, 5, 7, 3, 8]"
definition OID_RSA_ENCRYPTION :: oid where "OID_RSA_ENCRYPTION = [1, 2, 840, 113549, 1, 1, 1]"

subsection \<open>Requests\<close>

definition digest_algorithm_identifier :: "digest_algorithm \<Rightarrow> algorithm_identifier" where
  "digest_algorithm_identifier alg = \<lparr>alg_oid = digest_oid alg, alg_parameters = None\<rparr>"

definition build_timestamp_request ::
  "tlib \<Rightarrow> digest_algorithm \<Rightarrow> bytes \<Rightarrow> oid option \<Rightarrow> u64 option \<Rightarrow> bool \<Rightarrow> (tsp_error, bytes) result" where
  "build_timestamp_request T alg message_hash policy_oid nonce cert_req =
     and_then (ok_or (InvalidResponse (Msg ''failed to encode hash algorithm''))
         (algid_to_der T (digest_algorithm_identifier alg))) (\<lambda>hash_alg_der.
     and_then (ok_or (InvalidResponse (Msg ''failed to encode hash'')) (octets_to_der T message_hash)) (\<lambda>hashed_message_der.
     and_then (case policy_oid of
         Some oid \<Rightarrow> and_then (ok_or (InvalidResponse (Msg ''failed to encode policy OID'')) (policy_to_der T oid)) (\<lambda>d. Inr [d])
       | None \<Rightarrow> Inr []) (\<lambda>policy.
       Inr (encode_sequence_raw (concat (
         [encode_integer_u64 1, encode_sequence_from_parts [hash_alg_der, hashed_message_der]] @ policy
         @ (case nonce of Some n \<Rightarrow> [encode_integer_u64 n] | None \<Rightarrow> [])
         @ (if cert_req then [encode_boolean True] else [])))))))"

text \<open>\<open>random\<close> is what the random source returns; the machine is little-endian.\<close>

definition token_generate_nonce :: "bytes option \<Rightarrow> (tsp_error, u64) result" where
  "token_generate_nonce random = map_err (\<lambda>_. TspCrypto) (and_then (ok_or () random) (\<lambda>buf. Inr (be_loop 0 (rev buf))))"

subsection \<open>Fields\<close>

definition parse_tst_field :: "tlib \<Rightarrow> bytes \<Rightarrow> u8 \<Rightarrow> string \<Rightarrow> (tsp_error, bytes \<times> bytes) result" where
  "parse_tst_field T input expected_tag ctx =
     and_then (map_err (\<lambda>e. InvalidResponse (MsgTlv ctx e)) (parse_tlv_with_rest input)) (\<lambda>(tag, body, rest).
       if tag \<noteq> expected_tag then Inl (InvalidResponse (MsgTag ctx expected_tag tag))
       else if \<not> any_ref_ok T (take (length input - length rest) input) then Inl (InvalidResponse (Msg ctx))
       else Inr (body, rest))"

lemma parse_tst_field_shorter:
  "parse_tst_field T input tag ctx = Inr (body, rest) \<Longrightarrow> length rest < length input"
  by (auto simp: parse_tst_field_def result_simps split: if_splits dest: parse_tlv_with_rest_shorter)

subsection \<open>Responses\<close>

record time_stamp_resp =
  tr_status :: pki_status
  tr_status_string :: "rstr option"
  tr_failure_info :: "bytes option"
  tr_token_der :: "bytes option"

function status_texts :: "tlib \<Rightarrow> bytes \<Rightarrow> rstr option \<Rightarrow> (tsp_error, rstr option) result" where
  "status_texts T elems status_string =
     (if elems = [] then Inr status_string
      else if hd elems \<noteq> 0x0C then Inl (InvalidResponse (MsgByte ''statusString element is not a UTF8String'' (hd elems)))
      else (case parse_tst_field T elems 0x0C ''statusString'' of
              Inl e \<Rightarrow> Inl e
            | Inr (content, inner_rest) \<Rightarrow>
                if \<not> from_utf8_ok content then Inl (InvalidResponse (Msg ''statusString is not valid UTF-8''))
                else status_texts T inner_rest (case status_string of None \<Rightarrow> Some content | Some s \<Rightarrow> Some s)))"
  by pat_completeness auto
termination
  by (relation "measure (\<lambda>(_, elems, _). length elems)") (auto dest: parse_tst_field_shorter)

declare status_texts.simps [simp del]

definition read_failure_info :: "tlib \<Rightarrow> bytes \<Rightarrow> (tsp_error, unit) result" where
  "read_failure_info T body =
     and_then (ok_or (InvalidResponse (Msg ''PKIStatusInfo failureInfo'')) (dec_bits T body)) (\<lambda>(unused, raw).
       if raw \<noteq> [] \<and> last raw AND (push_bit unused 1 - 1) \<noteq> 0
       then Inl (InvalidResponse (Msg ''PKIStatusInfo failureInfo: nonzero unused bits'')) else Inr ())"

function status_fields ::
  "tlib \<Rightarrow> bytes \<Rightarrow> rstr option \<Rightarrow> bytes option \<Rightarrow> (tsp_error, rstr option \<times> bytes option) result" where
  "status_fields T remaining status_string failure_info =
     (if remaining = [] then Inr (status_string, failure_info)
      else (case parse_tst_field T remaining (hd remaining) ''PKIStatusInfo field'' of
              Inl e \<Rightarrow> Inl e
            | Inr (sbody, srest) \<Rightarrow>
                if hd remaining = 0x30 then
                  if status_string \<noteq> None \<or> failure_info \<noteq> None
                  then Inl (InvalidResponse (Msg ''PKIStatusInfo: duplicate or out-of-order statusString''))
                  else if sbody = [] then Inl (InvalidResponse (Msg ''statusString PKIFreeText SEQUENCE is empty''))
                  else (case status_texts T sbody None of
                          Inl e \<Rightarrow> Inl e
                        | Inr texts \<Rightarrow> status_fields T srest texts failure_info)
                else if hd remaining = 0x03 then
                  if failure_info \<noteq> None then Inl (InvalidResponse (Msg ''PKIStatusInfo: duplicate failureInfo''))
                  else (case read_failure_info T sbody of
                          Inl e \<Rightarrow> Inl e
                        | Inr _ \<Rightarrow> status_fields T srest status_string (Some sbody))
                else Inl (InvalidResponse (MsgByte ''PKIStatusInfo: unexpected field'' (hd remaining)))))"
  by pat_completeness auto
termination
  by (relation "measure (\<lambda>(_, remaining, _). length remaining)") (auto dest: parse_tst_field_shorter)

declare status_fields.simps [simp del]

definition parse_timestamp_response :: "tlib \<Rightarrow> bytes \<Rightarrow> (tsp_error, time_stamp_resp) result" where
  "parse_timestamp_response T der_bytes =
     and_then (parse_tst_field T der_bytes 0x30 ''TimeStampResp'') (\<lambda>(response, trailing).
       if trailing \<noteq> [] then Inl (InvalidResponse (Msg ''trailing data after TimeStampResp''))
       else
       and_then (parse_tst_field T response 0x30 ''PKIStatusInfo'') (\<lambda>(status_info, rest).
       and_then (parse_tst_field T status_info 0x02 ''PKIStatus'') (\<lambda>(status_field, status_rest).
       and_then (ok_or (InvalidResponse (Msg ''PKIStatus'')) (dec_u64 T status_field)) (\<lambda>status_val.
       and_then (status_fields T status_rest None None) (\<lambda>(status_string, failure_info).
       and_then (if rest \<noteq> [] then
           and_then (parse_tst_field T rest 0x30 ''TimeStampToken SEQUENCE'') (\<lambda>(_, after).
             if after \<noteq> [] then Inl (InvalidResponse (Msg ''trailing data after TimeStampToken in TimeStampResp''))
             else Inr (Some rest))
         else Inr None) (\<lambda>token_der.
         Inr \<lparr>tr_status = pki_from_u64 status_val, tr_status_string = status_string,
           tr_failure_info = failure_info, tr_token_der = token_der\<rparr>))))))"

subsection \<open>TSTInfo\<close>

record tst_info =
  ti_hash_algorithm :: digest_algorithm
  ti_message_hash :: bytes
  ti_serial_number :: bytes
  ti_gen_time_der :: bytes
  ti_nonce :: "u64 option"
  ti_policy_oid :: "oid option"

definition oid_to_digest_algorithm :: "oid \<Rightarrow> (tsp_error, digest_algorithm) result" where
  "oid_to_digest_algorithm oid =
     ok_or (InvalidResponse (MsgOid ''unsupported hash algorithm OID'' oid)) (digest_from_oid oid)"

definition parse_message_imprint :: "tlib \<Rightarrow> bytes \<Rightarrow> (tsp_error, digest_algorithm \<times> bytes) result" where
  "parse_message_imprint T body =
     and_then (parse_tst_field T body 0x30 ''messageImprint hashAlgorithm'') (\<lambda>(algorithm, rest).
     and_then (ok_or (InvalidResponse (Msg ''messageImprint hashAlgorithm'')) (dec_algid T algorithm)) (\<lambda>algorithm.
     and_then (oid_to_digest_algorithm (alg_oid algorithm)) (\<lambda>digest_alg.
       if (case alg_parameters algorithm of Some p \<Rightarrow> \<not> is_null p | None \<Rightarrow> False)
       then Inl (InvalidResponse (Msg ''messageImprint hashAlgorithm parameters must be absent or NULL''))
       else
       and_then (parse_tst_field T rest 0x04 ''messageImprint hashedMessage'') (\<lambda>(hash, trailing).
         if trailing \<noteq> [] then Inl (InvalidResponse (Msg ''messageImprint: trailing data after hashedMessage''))
         else if length hash \<noteq> output_size digest_alg
         then Inl (InvalidResponse (MsgNat ''messageImprint: hash length'' (length hash)))
         else Inr (digest_alg, hash)))))"

definition accuracy_rank :: "u8 \<Rightarrow> nat option" where
  "accuracy_rank tag = (if tag = 0x02 then Some 1 else if tag = 0x80 then Some 2 else if tag = 0x81 then Some 3 else None)"

definition check_accuracy_component :: "tlib \<Rightarrow> nat \<Rightarrow> bytes \<Rightarrow> (tsp_error, unit) result" where
  "check_accuracy_component T rank value =
     (if \<not> any_int_ok T value then Inl (InvalidResponse (Msg ''TSTInfo accuracy''))
      else if rank = 1 then
        if dec_uint_ok T value then Inr () else Inl (InvalidResponse (Msg ''TSTInfo accuracy seconds''))
      else
        and_then (ok_or (InvalidResponse (Msg ''TSTInfo accuracy millis/micros'')) (dec_u16 T value)) (\<lambda>fraction.
          if 1 \<le> fraction \<and> fraction \<le> 999 then Inr ()
          else Inl (InvalidResponse (Msg ''TSTInfo accuracy millis/micros must be in 1..=999''))))"

function accuracy_loop :: "tlib \<Rightarrow> nat \<Rightarrow> bytes \<Rightarrow> (tsp_error, unit) result" where
  "accuracy_loop T last_component pos =
     (if pos = [] then Inr ()
      else (case accuracy_rank (hd pos) of
              None \<Rightarrow> Inl (InvalidResponse (MsgByte ''TSTInfo accuracy: unexpected field'' (hd pos)))
            | Some rank \<Rightarrow>
                if rank \<le> last_component
                then Inl (InvalidResponse (Msg ''TSTInfo accuracy: duplicate or out-of-order component''))
                else (case parse_tst_field T pos (hd pos) ''TSTInfo accuracy'' of
                        Inl e \<Rightarrow> Inl e
                      | Inr (value, rest) \<Rightarrow>
                          (case check_accuracy_component T rank value of
                             Inl e \<Rightarrow> Inl e
                           | Inr _ \<Rightarrow> accuracy_loop T rank rest))))"
  by pat_completeness auto
termination
  by (relation "measure (\<lambda>(_, _, pos). length pos)") (auto dest: parse_tst_field_shorter)

declare accuracy_loop.simps [simp del]

definition validate_tst_accuracy :: "tlib \<Rightarrow> bytes \<Rightarrow> (tsp_error, unit) result" where
  "validate_tst_accuracy T pos = accuracy_loop T 0 pos"

definition validate_tst_tsa_name :: "tlib \<Rightarrow> bytes \<Rightarrow> (tsp_error, unit) result" where
  "validate_tst_tsa_name T body =
     (if body = [] then Inl (InvalidResponse (Msg ''TSTInfo tsa: missing GeneralName''))
      else if hd body \<notin> {0xA0, 0x81, 0x82, 0xA3, 0xA4, 0xA5, 0x86, 0x87, 0x88}
      then Inl (InvalidResponse (MsgByte ''TSTInfo tsa: invalid GeneralName tag'' (hd body)))
      else
      and_then (parse_tst_field T body (hd body) ''TSTInfo tsa GeneralName'') (\<lambda>(_, rest).
        if rest \<noteq> [] then Inl (InvalidResponse (Msg ''TSTInfo tsa: trailing data after GeneralName'')) else Inr ()))"

function tst_extension_loop :: "tlib \<Rightarrow> oid list \<Rightarrow> bytes \<Rightarrow> (tsp_error, unit) result" where
  "tst_extension_loop T seen pos =
     (if pos = [] then Inr ()
      else (case parse_tst_field T pos 0x30 ''TSTInfo extension'' of
              Inl e \<Rightarrow> Inl e
            | Inr (value, rest) \<Rightarrow>
                (case dec_extension T value of
                   None \<Rightarrow> Inl (InvalidResponse (Msg ''TSTInfo extension''))
                 | Some ext \<Rightarrow>
                     if extn_id ext \<in> set seen
                     then Inl (InvalidResponse (MsgOid ''TSTInfo extension: duplicate OID'' (extn_id ext)))
                     else if critical ext
                     then Inl (InvalidResponse (MsgOid ''TSTInfo extension: unsupported critical extension'' (extn_id ext)))
                     else tst_extension_loop T (extn_id ext # seen) rest)))"
  by pat_completeness auto
termination
  by (relation "measure (\<lambda>(_, _, pos). length pos)") (auto dest: parse_tst_field_shorter)

declare tst_extension_loop.simps [simp del]

definition validate_tst_extensions :: "tlib \<Rightarrow> bytes \<Rightarrow> (tsp_error, unit) result" where
  "validate_tst_extensions T pos =
     (if pos = [] then Inl (InvalidResponse (Msg ''TSTInfo extensions: empty Extensions''))
      else tst_extension_loop T [] pos)"

definition optional_rank :: "u8 \<Rightarrow> (nat \<times> string) option" where
  "optional_rank tag =
     (if tag = 0x30 then Some (1, ''TSTInfo accuracy'')
      else if tag = 0x01 then Some (2, ''TSTInfo ordering'')
      else if tag = 0x02 then Some (3, ''TSTInfo nonce'')
      else if tag = 0xA0 then Some (4, ''TSTInfo tsa'')
      else if tag = 0xA1 then Some (5, ''TSTInfo extensions'')
      else None)"

text \<open>One optional field: the nonce afterwards.\<close>

definition optional_field :: "tlib \<Rightarrow> nat \<Rightarrow> string \<Rightarrow> bytes \<Rightarrow> u64 option \<Rightarrow> (tsp_error, u64 option) result" where
  "optional_field T rank ctx value nonce =
     (if rank = 1 then and_then (validate_tst_accuracy T value) (\<lambda>_. Inr nonce)
      else if rank = 2 then if dec_bool_ok T value then Inr nonce else Inl (InvalidResponse (Msg ctx))
      else if rank = 3 then and_then (ok_or (InvalidResponse (Msg ctx)) (dec_u64 T value)) (\<lambda>n. Inr (Some n))
      else if rank = 4 then and_then (validate_tst_tsa_name T value) (\<lambda>_. Inr nonce)
      else and_then (validate_tst_extensions T value) (\<lambda>_. Inr nonce))"

function optional_loop :: "tlib \<Rightarrow> nat \<Rightarrow> u64 option \<Rightarrow> bytes \<Rightarrow> (tsp_error, u64 option) result" where
  "optional_loop T last_optional nonce pos =
     (if pos = [] then Inr nonce
      else (case optional_rank (hd pos) of
              None \<Rightarrow> Inl (InvalidResponse (MsgByte ''TSTInfo: unexpected optional field'' (hd pos)))
            | Some (rank, ctx) \<Rightarrow>
                if rank \<le> last_optional then Inl (InvalidResponse (Msg (ctx @ '': duplicate or out-of-order field'')))
                else (case parse_tst_field T pos (hd pos) ctx of
                        Inl e \<Rightarrow> Inl e
                      | Inr (value, rest) \<Rightarrow>
                          (case optional_field T rank ctx value nonce of
                             Inl e \<Rightarrow> Inl e
                           | Inr nonce \<Rightarrow> optional_loop T rank nonce rest))))"
  by pat_completeness auto
termination
  by (relation "measure (\<lambda>(_, _, _, pos). length pos)") (auto dest: parse_tst_field_shorter)

declare optional_loop.simps [simp del]

definition parse_tst_info_body :: "tlib \<Rightarrow> bytes \<Rightarrow> (tsp_error, tst_info) result" where
  "parse_tst_info_body T der_bytes =
     and_then (parse_tst_field T der_bytes 0x30 ''TSTInfo'') (\<lambda>(pos, trailing).
       if trailing \<noteq> [] then Inl (InvalidResponse (Msg ''TSTInfo: trailing data after SEQUENCE''))
       else
       and_then (parse_tst_field T pos 0x02 ''TSTInfo version'') (\<lambda>(version, pos).
       and_then (ok_or (InvalidResponse (Msg ''TSTInfo version'')) (dec_u64 T version)) (\<lambda>version.
       if version \<noteq> 1 then Inl (InvalidResponse (MsgNat ''TSTInfo: unsupported version'' (unat version)))
       else
       and_then (parse_tst_field T pos 0x06 ''TSTInfo policy'') (\<lambda>(policy, pos).
       and_then (ok_or (InvalidResponse (Msg ''TSTInfo policy'')) (dec_oid T policy)) (\<lambda>policy_oid.
       and_then (parse_tst_field T pos 0x30 ''TSTInfo messageImprint'') (\<lambda>(message_imprint, pos).
       and_then (parse_message_imprint T message_imprint) (\<lambda>(hash_algorithm, message_hash).
       and_then (parse_tst_field T pos 0x02 ''TSTInfo serialNumber'') (\<lambda>(serial, pos).
       if \<not> dec_int_ok T serial then Inl (InvalidResponse (Msg ''TSTInfo serialNumber''))
       else
       and_then (parse_tst_field T pos 0x18 ''TSTInfo genTime'') (\<lambda>(gen_time, pos).
       and_then (optional_loop T 0 None pos) (\<lambda>nonce.
         Inr \<lparr>ti_hash_algorithm = hash_algorithm, ti_message_hash = message_hash, ti_serial_number = serial,
           ti_gen_time_der = gen_time, ti_nonce = nonce, ti_policy_oid = Some policy_oid\<rparr>))))))))))"

text \<open>The unauthenticated reader of a token.\<close>

definition extract_tst_info :: "tlib \<Rightarrow> bytes \<Rightarrow> (tsp_error, tst_info) result" where
  "extract_tst_info T token_der =
     and_then (map_err (\<lambda>e. InvalidResponse (MsgTlv ''ContentInfo'' e)) (parse_tlv token_der)) (\<lambda>(tag, ci_body).
       if tag \<noteq> 0x30 then Inl (InvalidResponse (Msg ''ContentInfo: expected SEQUENCE''))
       else
       and_then (map_err (\<lambda>e. InvalidResponse (MsgTlv ''contentType'' e)) (parse_tlv_with_rest ci_body)) (\<lambda>(_, _, ci_rest).
       and_then (map_err (\<lambda>e. InvalidResponse (MsgTlv ''content [0]'' e)) (parse_tlv_with_rest ci_rest)) (\<lambda>(ctx_tag, sd_inner, _).
       if ctx_tag \<noteq> 0xA0 then Inl (InvalidResponse (MsgByte ''expected [0] EXPLICIT tag'' ctx_tag))
       else
       and_then (map_err (\<lambda>e. InvalidResponse (MsgTlv ''SignedData'' e)) (parse_tlv sd_inner)) (\<lambda>(sd_tag, sd_body).
       if sd_tag \<noteq> 0x30 then Inl (InvalidResponse (Msg ''SignedData: expected SEQUENCE''))
       else
       and_then (map_err (\<lambda>e. InvalidResponse (MsgTlv ''SD version'' e)) (parse_tlv_with_rest sd_body)) (\<lambda>(_, _, sd_rest).
       and_then (map_err (\<lambda>e. InvalidResponse (MsgTlv ''digestAlgorithms'' e)) (parse_tlv_with_rest sd_rest)) (\<lambda>(_, _, sd_rest2).
       and_then (map_err (\<lambda>e. InvalidResponse (MsgTlv ''encapContentInfo'' e)) (parse_tlv_with_rest sd_rest2)) (\<lambda>(_, eci_body, _).
       and_then (map_err (\<lambda>e. InvalidResponse (MsgTlv ''eContentType'' e)) (parse_tlv_with_rest eci_body)) (\<lambda>(_, _, eci_rest).
       and_then (map_err (\<lambda>e. InvalidResponse (MsgTlv ''eContent [0]'' e)) (parse_tlv_with_rest eci_rest)) (\<lambda>(ec_tag, ec_inner, _).
       if ec_tag \<noteq> 0xA0 then Inl (InvalidResponse (MsgByte ''expected eContent [0] tag'' ec_tag))
       else
       and_then (map_err (\<lambda>e. InvalidResponse (MsgTlv ''eContent OCTET STRING'' e)) (parse_tlv_with_rest ec_inner))
         (\<lambda>(os_tag, tst_info_der, _).
       if os_tag \<noteq> 0x04 then Inl (InvalidResponse (MsgByte ''expected OCTET STRING for eContent'' os_tag))
       else parse_tst_info_body T tst_info_der))))))))))"

end
