(* ===== verification/Token_Verify.thy ===== *)
theory Token_Verify
  imports Token
begin

section \<open>Verifying timestamp tokens (\<open>src/src/tsp/token.rs\<close>)\<close>

text \<open>
  The verification of a token: the CMS signature and what it signs, the certificate bindings, the TSA
  profile of the signer, the match with the request, and the chain to a trust anchor. \<open>ltv\<close> tells
  whether the crate is built with the role checks.
\<close>

subsection \<open>Signed attributes\<close>

definition find_attribute :: "cms_attribute list \<Rightarrow> oid \<Rightarrow> (tsp_error, any option) result" where
  "find_attribute attrs oid =
     (case filter (\<lambda>attr. ca_oid attr = oid) attrs of
        [] \<Rightarrow> Inr None
      | [attr] \<Rightarrow>
          (case ca_values attr of
             [v] \<Rightarrow> Inr (Some v)
           | vs \<Rightarrow> Inl (VerificationFailed (MsgOid ''signed attribute must have exactly one value'' oid)))
      | _ \<Rightarrow> Inl (VerificationFailed (MsgOid ''duplicate signed attribute'' oid)))"

subsection \<open>ESS certificate bindings\<close>

record ess_binding =
  eb_digest :: hash_algorithm
  eb_hash :: bytes
  eb_issuer_serial :: "(name \<times> bytes) option"

definition ess_matches :: "lib \<Rightarrow> tlib \<Rightarrow> ess_binding \<Rightarrow> certificate \<Rightarrow> (tsp_error, bool) result" where
  "ess_matches L T b cert =
     (if (case eb_issuer_serial b of
            Some (iss, serial) \<Rightarrow> iss \<noteq> issuer cert \<or> serial \<noteq> serial_number cert
          | None \<Rightarrow> False) then Inr False
      else
      and_then (ok_or (VerificationFailed (Msg ''ESS certificate encoding'')) (cert_to_der L cert)) (\<lambda>der.
      and_then (ok_or TspCrypto (hash_bytes T (eb_digest b) der)) (\<lambda>hash. Inr (hash = eb_hash b))))"

definition ess_hash_algorithm :: "tlib \<Rightarrow> bool \<Rightarrow> bytes \<Rightarrow> (tsp_error, hash_algorithm \<times> bytes) result" where
  "ess_hash_algorithm T v2 pos =
     (if v2 \<and> pos \<noteq> [] \<and> hd pos = 0x30 then
        and_then (parse_tst_field T pos 0x30 ''ESS hashAlgorithm'') (\<lambda>(alg, rest).
        and_then (ok_or (InvalidResponse (Msg ''ESS hashAlgorithm'')) (dec_algid T alg)) (\<lambda>alg.
          if (case alg_parameters alg of Some p \<Rightarrow> \<not> is_null p | None \<Rightarrow> False)
          then Inl (InvalidResponse (Msg ''ESS hash parameters must be absent or NULL''))
          else if alg_oid alg = [1, 3, 14, 3, 2, 26] then Inr (HSha1, rest)
          else and_then (oid_to_digest_algorithm (alg_oid alg)) (\<lambda>d. Inr (to_hash_algorithm d, rest))))
      else Inr (if v2 then HSha256 else HSha1, pos))"

fun ess_hash_length :: "hash_algorithm \<Rightarrow> nat option" where
  "ess_hash_length HSha1 = Some 20"
| "ess_hash_length HSha256 = Some 32"
| "ess_hash_length HSha3_256 = Some 32"
| "ess_hash_length HSha384 = Some 48"
| "ess_hash_length HSha3_384 = Some 48"
| "ess_hash_length HSha512 = Some 64"
| "ess_hash_length HSha3_512 = Some 64"
| "ess_hash_length _ = None"

definition ess_issuer_serial :: "tlib \<Rightarrow> bytes \<Rightarrow> (tsp_error, (name \<times> bytes) option) result" where
  "ess_issuer_serial T rest =
     (if rest = [] then Inr None
      else
      and_then (parse_tst_field T rest 0x30 ''ESS issuerSerial'') (\<lambda>(issuer_serial, trailing).
        if trailing \<noteq> [] then Inl (InvalidResponse (Msg ''ESS certificate ID trailing fields''))
        else
        and_then (parse_tst_field T issuer_serial 0x30 ''ESS issuer names'') (\<lambda>(names, rest).
        and_then (ok_or (InvalidResponse (Msg ''ESS issuer names'')) (dec_general_names T names)) (\<lambda>names.
        and_then (case names of
            [DirectoryName name] \<Rightarrow> Inr name
          | _ \<Rightarrow> Inl (InvalidResponse (Msg ''ESS issuer must be exactly one directoryName''))) (\<lambda>iss.
        and_then (parse_tst_field T rest 0x02 ''ESS serialNumber'') (\<lambda>(serial, trailing).
          if trailing \<noteq> [] then Inl (InvalidResponse (Msg ''ESS issuerSerial trailing fields''))
          else
          and_then (ok_or (InvalidResponse (Msg ''ESS serialNumber'')) (dec_serial T serial)) (\<lambda>serial.
            Inr (Some (iss, serial)))))))))"

definition parse_ess_binding :: "crypto \<Rightarrow> tlib \<Rightarrow> any \<Rightarrow> bool \<Rightarrow> (tsp_error, ess_binding) result" where
  "parse_ess_binding K T value v2 =
     and_then (ok_or (InvalidResponse (Msg ''ESS'')) (any_to_der K value)) (\<lambda>encoded.
     and_then (parse_tst_field T encoded 0x30 ''ESS signing certificate'') (\<lambda>(attribute, trailing).
       if trailing \<noteq> [] then Inl (InvalidResponse (Msg ''ESS trailing data''))
       else
       and_then (parse_tst_field T attribute 0x30 ''ESS certs'') (\<lambda>(certs, policies).
       if policies \<noteq> [] then Inl (VerificationFailed (Msg ''ESS certificate policy restrictions are unsupported''))
       else
       and_then (parse_tst_field T certs 0x30 ''ESS certificate ID'') (\<lambda>(cid, more).
       if more \<noteq> [] then Inl (VerificationFailed (Msg ''ESS multiple certificate restrictions are unsupported''))
       else
       and_then (ess_hash_algorithm T v2 cid) (\<lambda>(digest, pos).
       and_then (parse_tst_field T pos 0x04 ''ESS certHash'') (\<lambda>(hash, rest).
       and_then (ok_or (InvalidResponse (Msg ''unsupported ESS digest'')) (ess_hash_length digest)) (\<lambda>expected_len.
       if length hash \<noteq> expected_len then Inl (InvalidResponse (Msg ''ESS certHash has incorrect length''))
       else
       and_then (ess_issuer_serial T rest) (\<lambda>issuer_serial.
         Inr \<lparr>eb_digest = digest, eb_hash = hash, eb_issuer_serial = issuer_serial\<rparr>))))))))"

definition optional_binding ::
  "crypto \<Rightarrow> tlib \<Rightarrow> cms_attribute list \<Rightarrow> oid \<Rightarrow> bool \<Rightarrow> (tsp_error, ess_binding list) result" where
  "optional_binding K T attrs oid v2 =
     and_then (find_attribute attrs oid) (\<lambda>found.
       case found of
         Some value \<Rightarrow> and_then (parse_ess_binding K T value v2) (\<lambda>b. Inr [b])
       | None \<Rightarrow> Inr [])"

definition signing_certificate_bindings ::
  "crypto \<Rightarrow> tlib \<Rightarrow> cms_attribute list \<Rightarrow> (tsp_error, ess_binding list) result" where
  "signing_certificate_bindings K T attrs =
     and_then (optional_binding K T attrs ID_SIGNING_CERTIFICATE False) (\<lambda>bs1.
     and_then (optional_binding K T attrs ID_SIGNING_CERTIFICATE_V2 True) (\<lambda>bs2.
       if bs1 @ bs2 = []
       then Inl (VerificationFailed (Msg ''timestamp signedAttrs lacks ESS SigningCertificate/SigningCertificateV2''))
       else Inr (bs1 @ bs2)))"

subsection \<open>The signer\<close>

definition cert_ski :: "certificate \<Rightarrow> bytes option" where
  "cert_ski cert =
     (case find_ext cert [2, 5, 29, 14] of
        None \<Rightarrow> None
      | Some ext \<Rightarrow>
          (case parse_tlv (extn_value ext) of
             Inr (tag, body) \<Rightarrow> if tag \<noteq> 0x04 then None else Some body
           | Inl _ \<Rightarrow> None))"

fun signer_identifier_matches :: "signer_identifier \<Rightarrow> certificate \<Rightarrow> bool" where
  "signer_identifier_matches (IssuerAndSerialNumber iss serial) cert \<longleftrightarrow>
     issuer cert = iss \<and> serial_number cert = serial"
| "signer_identifier_matches (SubjectKeyIdentifier skid) cert \<longleftrightarrow> cert_ski cert = Some skid"

fun all_bindings_match :: "lib \<Rightarrow> tlib \<Rightarrow> certificate \<Rightarrow> ess_binding list \<Rightarrow> (tsp_error, bool) result" where
  "all_bindings_match L T cert [] = Inr True"
| "all_bindings_match L T cert (b # bs) =
     and_then (ess_matches L T b cert) (\<lambda>ok. if \<not> ok then Inr False else all_bindings_match L T cert bs)"

fun find_signer ::
  "lib \<Rightarrow> tlib \<Rightarrow> signer_identifier \<Rightarrow> ess_binding list \<Rightarrow> certificate list \<Rightarrow> (tsp_error, certificate option) result" where
  "find_signer L T sid bindings [] = Inr None"
| "find_signer L T sid bindings (cert # certs) =
     (if \<not> signer_identifier_matches sid cert then find_signer L T sid bindings certs
      else and_then (all_bindings_match L T cert bindings) (\<lambda>ok.
        if ok then Inr (Some cert) else find_signer L T sid bindings certs))"

definition collect_certificates :: "signed_data \<Rightarrow> certificate list \<Rightarrow> certificate list" where
  "collect_certificates sd extra_certs =
     foldl (\<lambda>embedded cert. if cert \<in> set embedded then embedded else embedded @ [cert])
       (case sd_certificates sd of
          None \<Rightarrow> []
        | Some cs \<Rightarrow> concat (map (\<lambda>c. case c of CertificateChoice cert \<Rightarrow> [cert] | OtherCertificate \<Rightarrow> []) cs))
       extra_certs"

subsection \<open>The TSA profile\<close>

definition require_timestamping_eku :: "tlib \<Rightarrow> certificate \<Rightarrow> (tsp_error, unit) result" where
  "require_timestamping_eku T cert =
     and_then (ok_or (VerificationFailed (Msg ''TSA certificate has no extensions (no EKU)'')) (extensions cert)) (\<lambda>exts.
       case filter (\<lambda>e. extn_id e = EKU_OID) exts of
         [] \<Rightarrow> Inl (VerificationFailed (Msg ''TSA certificate lacks an extendedKeyUsage extension''))
       | [eku_ext] \<Rightarrow>
           if \<not> critical eku_ext
           then Inl (VerificationFailed (Msg ''TSA certificate extendedKeyUsage is not marked critical''))
           else
           and_then (ok_or (VerificationFailed (Msg ''TSA extendedKeyUsage'')) (eku_oids_from_der T (extn_value eku_ext))) (\<lambda>eku.
             if eku \<noteq> [ID_KP_TIME_STAMPING]
             then Inl (VerificationFailed (Msg ''TSA certificate extendedKeyUsage must contain only id-kp-timeStamping''))
             else Inr ())
       | _ \<Rightarrow> Inl (VerificationFailed (Msg ''TSA certificate has duplicate extendedKeyUsage extensions'')))"

definition require_not_ca :: "certificate \<Rightarrow> (tsp_error, unit) result" where
  "require_not_ca cert =
     (case extensions cert of
        None \<Rightarrow> Inr ()
      | Some exts \<Rightarrow>
          (case filter (\<lambda>e. extn_id e = BASIC_CONSTRAINTS_OID) exts of
             [] \<Rightarrow> Inr ()
           | [bc_ext] \<Rightarrow>
               and_then (map_err (\<lambda>e. VerificationFailed (MsgTlv ''TSA basicConstraints'' e))
                 (parse_basic_constraints (extn_value bc_ext))) (\<lambda>(is_ca, _).
                 if is_ca then Inl (VerificationFailed (Msg ''TSA certificate asserts basicConstraints CA:TRUE'')) else Inr ())
           | _ \<Rightarrow> Inl (VerificationFailed (Msg ''TSA certificate has duplicate basicConstraints extensions''))))"

subsection \<open>The CMS signature\<close>

definition combined_oid_digest :: "oid \<Rightarrow> digest_algorithm option" where
  "combined_oid_digest oid =
     (if oid = SHA_256_WITH_RSA_ENCRYPTION \<or> oid = ECDSA_WITH_SHA_256 then Some Sha256
      else if oid = SHA_384_WITH_RSA_ENCRYPTION \<or> oid = ECDSA_WITH_SHA_384 then Some Sha384
      else if oid = SHA_512_WITH_RSA_ENCRYPTION \<or> oid = ECDSA_WITH_SHA_512 then Some Sha512
      else None)"

definition verify_pss_signature ::
  "crypto \<Rightarrow> bytes \<Rightarrow> bytes \<Rightarrow> bytes \<Rightarrow> algorithm_identifier \<Rightarrow> digest_algorithm \<Rightarrow> (trust_error, unit) result" where
  "verify_pss_signature K signed_attrs_der sig spki_der sig_alg digest_alg =
     and_then (verify_rsa_pss_signature_strict K signed_attrs_der sig spki_der (alg_parameters sig_alg)) (\<lambda>pss_hash.
       if pss_hash \<noteq> digest_alg then Inl (SignatureVerification (SigCmsPssHash pss_hash digest_alg)) else Inr ())"

definition resolve_cms_oid :: "oid \<Rightarrow> digest_algorithm \<Rightarrow> (trust_error, oid) result" where
  "resolve_cms_oid oid digest_alg =
     (if oid = OID_RSA_ENCRYPTION then
        Inr (case digest_alg of
               Sha256 \<Rightarrow> SHA_256_WITH_RSA_ENCRYPTION
             | Sha384 \<Rightarrow> SHA_384_WITH_RSA_ENCRYPTION
             | Sha512 \<Rightarrow> SHA_512_WITH_RSA_ENCRYPTION
             | _ \<Rightarrow> oid)
      else if oid = OID_EC_PUBLIC_KEY then
        Inr (case digest_alg of
               Sha256 \<Rightarrow> ECDSA_WITH_SHA_256
             | Sha384 \<Rightarrow> ECDSA_WITH_SHA_384
             | Sha512 \<Rightarrow> ECDSA_WITH_SHA_512
             | _ \<Rightarrow> oid)
      else case combined_oid_digest oid of
          Some embedded \<Rightarrow>
            if embedded \<noteq> digest_alg then Inl (SignatureVerification (SigCmsHash embedded digest_alg)) else Inr oid
        | None \<Rightarrow> Inr oid)"

definition verify_cms_signature ::
  "crypto \<Rightarrow> bytes \<Rightarrow> bytes \<Rightarrow> bytes \<Rightarrow> algorithm_identifier \<Rightarrow> digest_algorithm \<Rightarrow> (trust_error, unit) result" where
  "verify_cms_signature K signed_attrs_der sig spki_der sig_alg digest_alg =
     (if alg_oid sig_alg = OID_RSASSA_PSS then verify_pss_signature K signed_attrs_der sig spki_der sig_alg digest_alg
      else
      and_then (resolve_cms_oid (alg_oid sig_alg) digest_alg) (\<lambda>resolved.
        verify_signature_by_oid K signed_attrs_der sig spki_der resolved))"

subsection \<open>Time and identity\<close>

definition is_ascii_digit :: "u8 \<Rightarrow> bool" where "is_ascii_digit b \<longleftrightarrow> 0x30 \<le> b \<and> b \<le> 0x39"

definition gen_time_parts :: "tlib \<Rightarrow> tst_info \<Rightarrow> (tsp_error, datetime \<times> bool) result" where
  "gen_time_parts T info =
     (let bs = ti_gen_time_der info; n = length bs in
      and_then (if n = 15 \<and> bs ! 14 = 0x5A then Inr False
        else if 17 \<le> n \<and> bs ! 14 = 0x2E \<and> last bs = 0x5A
          \<and> list_all is_ascii_digit (take (n - 1 - 15) (drop 15 bs)) \<and> bs ! (n - 2) \<noteq> 0x30 then Inr True
        else Inl (VerificationFailed (Msg ''invalid DER genTime fractional/UTC encoding''))) (\<lambda>fractional.
      and_then (ok_or (VerificationFailed (Msg ''invalid genTime''))
          (gtime_from_der T (encode_tlv 0x18 (take 14 bs @ [0x5A])))) (\<lambda>time.
        Inr (time, fractional))))"

definition gen_time_datetime :: "tlib \<Rightarrow> tst_info \<Rightarrow> (tsp_error, datetime) result" where
  "gen_time_datetime T info = and_then (gen_time_parts T info) (\<lambda>(time, _). Inr time)"

definition check_gen_time_within_validity :: "tlib \<Rightarrow> certificate \<Rightarrow> tst_info \<Rightarrow> (tsp_error, unit) result" where
  "check_gen_time_within_validity T signer info =
     and_then (gen_time_parts T info) (\<lambda>(gen_time, fractional).
       if gen_time < not_before signer \<or> not_after signer < gen_time \<or> fractional \<and> gen_time = not_after signer
       then Inl (VerificationFailed (Msg ''timestamp genTime is outside the TSA certificate validity'')) else Inr ())"

fun san_name_matches :: "general_name \<Rightarrow> general_name \<Rightarrow> bool" where
  "san_name_matches (DnsName a) (DnsName b) \<longleftrightarrow> to_ascii_lowercase a = to_ascii_lowercase b"
| "san_name_matches a b \<longleftrightarrow> a = b"

definition tsa_name_matches :: "tlib \<Rightarrow> certificate \<Rightarrow> bytes \<Rightarrow> (tsp_error, unit) result" where
  "tsa_name_matches T signer value =
     and_then (ok_or (VerificationFailed (Msg ''TSTInfo tsa name is malformed or unsupported'')) (general_name_from_der T value)) (\<lambda>name.
       if name = DirectoryName (subject signer) then Inr ()
       else
       and_then (case filter (\<lambda>e. extn_id e = SAN_OID) (case extensions signer of None \<Rightarrow> [] | Some es \<Rightarrow> es) of
           [] \<Rightarrow> Inr False
         | [san] \<Rightarrow>
             and_then (ok_or (VerificationFailed (Msg ''TSA subjectAltName'')) (san_names_from_der T (extn_value san))) (\<lambda>names.
               Inr (list_ex (san_name_matches name) names))
         | _ \<Rightarrow> Inl (VerificationFailed (Msg ''TSA certificate has duplicate subjectAltName''))) (\<lambda>found.
         if found then Inr ()
         else Inl (VerificationFailed (Msg ''TSTInfo tsa does not match signer subject or subjectAltName''))))"

function tsa_identity_loop :: "tlib \<Rightarrow> certificate \<Rightarrow> bytes \<Rightarrow> (tsp_error, unit) result" where
  "tsa_identity_loop T signer pos =
     (if pos = [] then Inr ()
      else (case parse_tst_field T pos (hd pos) ''TSTInfo identity'' of
              Inl e \<Rightarrow> Inl e
            | Inr (value, rest) \<Rightarrow>
                if hd pos \<noteq> 0xA0 then tsa_identity_loop T signer rest else tsa_name_matches T signer value))"
  by pat_completeness auto
termination
  by (relation "measure (\<lambda>(_, _, pos). length pos)") (auto dest: parse_tst_field_shorter)

declare tsa_identity_loop.simps [simp del]

definition check_tsa_identity :: "tlib \<Rightarrow> bytes \<Rightarrow> certificate \<Rightarrow> (tsp_error, unit) result" where
  "check_tsa_identity T tst_der signer =
     and_then (parse_tst_field T tst_der 0x30 ''TSTInfo'') (\<lambda>(pos, _). tsa_identity_loop T signer pos)"

subsection \<open>The token\<close>

record verified_token =
  vt_signer :: certificate
  vt_embedded :: "certificate list"

definition open_signed_data :: "tlib \<Rightarrow> bytes \<Rightarrow> (tsp_error, signed_data \<times> bytes \<times> signer_info \<times> cms_attribute list) result" where
  "open_signed_data T token_der =
     and_then (ok_or (InvalidResponse (Msg ''failed to parse ContentInfo'')) (content_info_from_der T token_der)) (\<lambda>(content_type, content).
       if content_type \<noteq> ID_SIGNED_DATA
       then Inl (InvalidResponse (MsgOid ''ContentInfo contentType is not id-signedData'' content_type))
       else
       and_then (ok_or (InvalidResponse (Msg ''failed to parse SignedData'')) (signed_data_from_any T content)) (\<lambda>sd.
       if sd_econtent_type sd \<noteq> ID_CT_TST_INFO
       then Inl (InvalidResponse (MsgOid ''encapContentInfo eContentType is not id-ct-TSTInfo'' (sd_econtent_type sd)))
       else
       and_then (ok_or (InvalidResponse (Msg ''SignedData has no encapsulated content'')) (sd_econtent sd)) (\<lambda>econtent.
         case sd_signer_infos sd of
           [si] \<Rightarrow>
             and_then (ok_or (VerificationFailed (Msg ''SignerInfo has no signedAttrs'')) (si_signed_attrs si)) (\<lambda>attrs.
               Inr (sd, any_body econtent, si, attrs))
         | sis \<Rightarrow> Inl (InvalidResponse (MsgNat ''expected exactly one SignerInfo'' (length sis))))))"

definition select_signer ::
  "lib \<Rightarrow> crypto \<Rightarrow> tlib \<Rightarrow> signer_info \<Rightarrow> cms_attribute list \<Rightarrow> certificate list \<Rightarrow> (tsp_error, certificate) result" where
  "select_signer L K T si attrs embedded =
     (if embedded = [] then Inl (InvalidResponse (Msg ''timestamp token contains no certificates and no extra_certs were supplied''))
      else
      and_then (signing_certificate_bindings K T attrs) (\<lambda>bindings.
        if (case si_unsigned_attrs si of
              Some uattrs \<Rightarrow> list_ex (\<lambda>a. ca_oid a = ID_SIGNING_CERTIFICATE \<or> ca_oid a = ID_SIGNING_CERTIFICATE_V2) uattrs
            | None \<Rightarrow> False)
        then Inl (VerificationFailed (Msg ''ESS signing-certificate attribute must be signed''))
        else
        and_then (find_signer L T (si_sid si) bindings embedded) (\<lambda>signer.
          ok_or (VerificationFailed (Msg ''no signing certificate matches SignerInfo and ESS certificate bindings'')) signer)))"

definition check_content_type :: "crypto \<Rightarrow> cms_attribute list \<Rightarrow> (tsp_error, unit) result" where
  "check_content_type K attrs =
     and_then (find_attribute attrs ID_CONTENT_TYPE_ATTR) (\<lambda>found.
     and_then (ok_or (VerificationFailed (Msg ''signedAttrs missing content-type attribute'')) found) (\<lambda>attr.
     and_then (ok_or (VerificationFailed (Msg ''invalid content-type attribute'')) (any_as_oid K attr)) (\<lambda>oid.
       if oid \<noteq> ID_CT_TST_INFO then Inl (VerificationFailed (MsgOid ''signed content-type is not id-ct-TSTInfo'' oid))
       else Inr ())))"

definition check_message_digest ::
  "tlib \<Rightarrow> cms_attribute list \<Rightarrow> digest_algorithm \<Rightarrow> bytes \<Rightarrow> (tsp_error, unit) result" where
  "check_message_digest T attrs digest_alg tst_info_der =
     and_then (find_attribute attrs ID_MESSAGE_DIGEST_ATTR) (\<lambda>found.
     and_then (ok_or (VerificationFailed (Msg ''signedAttrs missing message-digest attribute'')) found) (\<lambda>attr.
     and_then (ok_or (VerificationFailed (Msg ''message-digest attribute is not an OCTET STRING'')) (any_as_octets T attr)) (\<lambda>signed_digest.
     and_then (ok_or TspCrypto (hash_bytes T (to_hash_algorithm digest_alg) tst_info_der)) (\<lambda>computed_digest.
       if signed_digest \<noteq> computed_digest
       then Inl (VerificationFailed (Msg ''message-digest signed attribute does not match the TSTInfo content''))
       else Inr ()))))"

definition check_signature ::
  "lib \<Rightarrow> crypto \<Rightarrow> tlib \<Rightarrow> signer_info \<Rightarrow> cms_attribute list \<Rightarrow> certificate \<Rightarrow> digest_algorithm \<Rightarrow> (tsp_error, unit) result" where
  "check_signature L K T si attrs signer digest_alg =
     and_then (ok_or (VerificationFailed (Msg ''failed to re-encode signedAttrs'')) (attributes_to_der T attrs)) (\<lambda>signed_attrs_der.
     and_then (ok_or (VerificationFailed (Msg ''failed to encode signer SPKI'')) (spki_to_der L (subject_public_key_info signer))) (\<lambda>spki_der.
       map_err (\<lambda>e. VerificationFailed (MsgTrust ''TSA signature verification failed'' e))
         (verify_cms_signature K signed_attrs_der (si_signature si) spki_der (si_signature_algorithm si) digest_alg)))"

definition verify_token_cms ::
  "lib \<Rightarrow> crypto \<Rightarrow> tlib \<Rightarrow> bytes \<Rightarrow> certificate list \<Rightarrow> (tsp_error, verified_token \<times> tst_info) result" where
  "verify_token_cms L K T token_der extra_certs =
     and_then (open_signed_data T token_der) (\<lambda>(sd, tst_info_der, si, attrs).
     let embedded = collect_certificates sd extra_certs in
     and_then (select_signer L K T si attrs embedded) (\<lambda>signer.
     and_then (ok_or (VerificationFailed (MsgOid ''unsupported SignerInfo digestAlgorithm OID'' (alg_oid (si_digest_alg si))))
         (digest_from_oid (alg_oid (si_digest_alg si)))) (\<lambda>digest_alg.
     and_then (check_content_type K attrs) (\<lambda>_.
     and_then (check_message_digest T attrs digest_alg tst_info_der) (\<lambda>_.
     and_then (check_signature L K T si attrs signer digest_alg) (\<lambda>_.
     and_then (require_timestamping_eku T signer) (\<lambda>_.
     and_then (require_not_ca signer) (\<lambda>_.
     and_then (map_err (\<lambda>e. VerificationFailed (MsgTsaKu e)) (require_timestamp_signing_key_usage L signer)) (\<lambda>_.
     and_then (parse_tst_info_body T tst_info_der) (\<lambda>info.
     and_then (check_tsa_identity T tst_info_der signer) (\<lambda>_.
     and_then (check_gen_time_within_validity T signer info) (\<lambda>_.
       Inr (\<lparr>vt_signer = signer, vt_embedded = embedded\<rparr>, info)))))))))))))"

definition check_tst_info_matches ::
  "tst_info \<Rightarrow> bytes \<Rightarrow> u64 option \<Rightarrow> digest_algorithm \<Rightarrow> (tsp_error, unit) result" where
  "check_tst_info_matches info expected_hash expected_nonce digest_alg =
     (if ti_message_hash info \<noteq> expected_hash
      then Inl (InvalidResponse (Msg ''TSTInfo messageImprint hash does not match request''))
      else if ti_hash_algorithm info \<noteq> digest_alg
      then Inl (InvalidResponse (Msg ''TSTInfo hash algorithm mismatch''))
      else case expected_nonce of
          None \<Rightarrow> Inr ()
        | Some expected \<Rightarrow>
            (case ti_nonce info of
               Some actual \<Rightarrow> if actual = expected then Inr () else Inl (InvalidResponse (Msg ''nonce mismatch''))
             | None \<Rightarrow> Inl (InvalidResponse (Msg ''expected nonce in TSTInfo but none present''))))"

definition check_tst_policy :: "oid option \<Rightarrow> oid option \<Rightarrow> (tsp_error, unit) result" where
  "check_tst_policy actual expected =
     (case expected of
        Some e \<Rightarrow> if actual \<noteq> Some e then Inl (VerificationFailed (Msg ''timestamp policy does not match requested policy'')) else Inr ()
      | None \<Rightarrow> Inr ())"

definition validate_timestamp_response_for_policy ::
  "lib \<Rightarrow> crypto \<Rightarrow> tlib \<Rightarrow> time_stamp_resp \<Rightarrow> bytes \<Rightarrow> u64 option \<Rightarrow> digest_algorithm \<Rightarrow> certificate list \<Rightarrow> oid option
    \<Rightarrow> (tsp_error, bytes) result" where
  "validate_timestamp_response_for_policy L K T resp expected_hash expected_nonce digest_alg extra_certs expected_policy =
     (if \<not> is_success (tr_status resp) then Inl (TsaError (tr_status resp) (tr_status_string resp))
      else
      and_then (ok_or (InvalidResponse (Msg ''no token in response despite success status'')) (tr_token_der resp)) (\<lambda>token_der.
      and_then (verify_token_cms L K T token_der extra_certs) (\<lambda>(_, info).
      and_then (check_tst_info_matches info expected_hash expected_nonce digest_alg) (\<lambda>_.
      and_then (check_tst_policy (ti_policy_oid info) expected_policy) (\<lambda>_. Inr token_der)))))"

definition validate_timestamp_response ::
  "lib \<Rightarrow> crypto \<Rightarrow> tlib \<Rightarrow> time_stamp_resp \<Rightarrow> bytes \<Rightarrow> u64 option \<Rightarrow> digest_algorithm \<Rightarrow> certificate list
    \<Rightarrow> (tsp_error, bytes) result" where
  "validate_timestamp_response L K T resp expected_hash expected_nonce digest_alg extra_certs =
     validate_timestamp_response_for_policy L K T resp expected_hash expected_nonce digest_alg extra_certs None"

subsection \<open>The chain\<close>

text \<open>Equality of the signed parts of two certificates.\<close>

definition same_tbs :: "certificate \<Rightarrow> certificate \<Rightarrow> bool" where
  "same_tbs a b \<longleftrightarrow> a\<lparr>signature_algorithm := signature_algorithm b, signature := signature b\<rparr> = b"

definition chain_candidates :: "certificate list \<Rightarrow> certificate list \<Rightarrow> certificate list" where
  "chain_candidates chain embedded =
     filter (\<lambda>c. subject c = issuer (last chain) \<and> \<not> list_ex (\<lambda>existing. same_tbs existing c) chain) embedded"

definition choose_issuer ::
  "lib \<Rightarrow> crypto \<Rightarrow> signature_policy \<Rightarrow> certificate \<Rightarrow> certificate list \<Rightarrow> certificate option" where
  "choose_issuer L K policy current candidates =
     (case find (\<lambda>c. is_ok (verify_certificate_signature_with_policy L K current c policy)) candidates of
        Some c \<Rightarrow> Some c
      | None \<Rightarrow> (case candidates of [] \<Rightarrow> None | c # _ \<Rightarrow> Some c))"

fun order_loop ::
  "lib \<Rightarrow> crypto \<Rightarrow> signature_policy \<Rightarrow> certificate list \<Rightarrow> nat \<Rightarrow> certificate list \<Rightarrow> certificate list" where
  "order_loop L K policy embedded 0 chain = chain"
| "order_loop L K policy embedded (Suc n) chain =
     (let current = last chain in
      if issuer current = subject current then chain
      else case choose_issuer L K policy current (chain_candidates chain embedded) of
          Some c \<Rightarrow> order_loop L K policy embedded n (chain @ [c])
        | None \<Rightarrow> chain)"

definition order_chain :: "lib \<Rightarrow> crypto \<Rightarrow> certificate \<Rightarrow> certificate list \<Rightarrow> signature_policy \<Rightarrow> certificate list" where
  "order_chain L K signer embedded policy = order_loop L K policy embedded 16 [signer]"

definition verify_timestamp_token ::
  "bool \<Rightarrow> lib \<Rightarrow> crypto \<Rightarrow> tlib \<Rightarrow> bytes \<Rightarrow> bytes \<Rightarrow> digest_algorithm \<Rightarrow> u64 option \<Rightarrow> trust_store option \<Rightarrow> datetime option
    \<Rightarrow> certificate list \<Rightarrow> (tsp_error, tst_info) result" where
  "verify_timestamp_token ltv L K T token_der expected_hash digest_alg expected_nonce trust_store validation_time extra_certs =
     and_then (verify_token_cms L K T token_der extra_certs) (\<lambda>(verified, info).
     and_then (check_tst_info_matches info expected_hash expected_nonce digest_alg) (\<lambda>_.
     and_then (case trust_store of
         None \<Rightarrow> Inr ()
       | Some store \<Rightarrow>
           and_then (case validation_time of Some t \<Rightarrow> Inr t | None \<Rightarrow> gen_time_datetime T info) (\<lambda>effective_time.
           and_then (case validation_time of
               Some _ \<Rightarrow> Inr False
             | None \<Rightarrow> and_then (gen_time_parts T info) (\<lambda>(_, fraction). Inr fraction)) (\<lambda>positive_fraction.
           and_then (map_err (\<lambda>e. VerificationFailed (MsgTrust ''TSA certificate chain validation failed'' e))
             (verify_timestamp_chain ltv L K store
               (order_chain L K (vt_signer verified) (vt_embedded verified) (ts_signature_policy store))
               effective_time positive_fraction)) (\<lambda>_. Inr ())))) (\<lambda>_.
       Inr info)))"

end
