(* ===== verification/Tsa_Client.thy ===== *)
theory Tsa_Client
  imports Token_Verify
begin

section \<open>The TSA client and its pool (\<open>src/src/tsp/client.rs\<close>)\<close>

text \<open>
  One request to a timestamp authority and the pool that falls back to the next one. The network and
  the random source are the environment of an attempt. A call also returns the requests it sent.
\<close>

definition TSA_MAX_BODY_SIZE :: nat where "TSA_MAX_BODY_SIZE = 10 * 1024 * 1024"

record tsa_client =
  tc_url :: rstr
  tc_http_client :: "attested_http_client"
  tc_digest_algorithm :: digest_algorithm
  tc_policy_oid :: "oid option"
  tc_timeout :: nat
  tc_max_body_size :: nat
  tc_cert_req :: bool
  tc_verification_certs :: "certificate list"

definition tsa_client_new ::
  "http_platform \<Rightarrow> rstr \<Rightarrow> (tsp_error, tsa_client) result" where
  "tsa_client_new P url =
     and_then (map_err TspHttpClient (hardened_http_client P)) (\<lambda>client.
       Inr \<lparr>tc_url = url, tc_http_client = client, tc_digest_algorithm = Sha256, tc_policy_oid = None, tc_timeout = 30,
        tc_max_body_size = TSA_MAX_BODY_SIZE, tc_cert_req = True, tc_verification_certs = []\<rparr>)"

definition with_digest_algorithm :: "tsa_client \<Rightarrow> digest_algorithm \<Rightarrow> tsa_client" where
  "with_digest_algorithm c alg = c\<lparr>tc_digest_algorithm := alg\<rparr>"

definition with_policy_oid :: "tsa_client \<Rightarrow> oid \<Rightarrow> tsa_client" where
  "with_policy_oid c oid = c\<lparr>tc_policy_oid := Some oid\<rparr>"

definition with_timeout :: "tsa_client \<Rightarrow> nat \<Rightarrow> tsa_client" where
  "with_timeout c t = c\<lparr>tc_timeout := t\<rparr>"

definition with_max_body_size :: "tsa_client \<Rightarrow> nat \<Rightarrow> tsa_client" where
  "with_max_body_size c n = c\<lparr>tc_max_body_size := n\<rparr>"

definition with_cert_req :: "tsa_client \<Rightarrow> bool \<Rightarrow> tsa_client" where
  "with_cert_req c b = c\<lparr>tc_cert_req := b\<rparr>"

definition with_verification_certs :: "tsa_client \<Rightarrow> certificate list \<Rightarrow> tsa_client" where
  "with_verification_certs c certs = c\<lparr>tc_verification_certs := certs\<rparr>"

definition with_http_client :: "tsa_client \<Rightarrow> attested_http_client \<Rightarrow> tsa_client" where
  "with_http_client c client = c\<lparr>tc_http_client := client\<rparr>"

text \<open>Not in builds with the feature \<open>fips\<close>.\<close>

definition with_unverified_http_client ::
  "http_platform \<Rightarrow> tsa_client \<Rightarrow> http_client \<Rightarrow> (tsp_error, tsa_client) result" where
  "with_unverified_http_client P c client =
     and_then (map_err TspHttpClient (unverified_http_client P client)) (\<lambda>client.
       Inr (c\<lparr>tc_http_client := client\<rparr>))"

record tsa_env =
  te_resolver :: resolver
  te_guard_timeout :: bool
  te_random :: "bytes option"
  te_post :: "rstr \<Rightarrow> bytes \<Rightarrow> http_response option"

fun read_tsa_chunks :: "nat \<Rightarrow> bytes \<Rightarrow> bytes option list \<Rightarrow> (tsp_error, bytes) result" where
  "read_tsa_chunks max_body body [] = Inr body"
| "read_tsa_chunks max_body body (None # _) = Inl (HttpError (Msg ''failed to read TSA response body''))"
| "read_tsa_chunks max_body body (Some chunk # chunks) =
     (if max_body - length body < length chunk then Inl (HttpError (Msg ''TSA response exceeds max body size''))
      else read_tsa_chunks max_body (body @ chunk) chunks)"

definition tsa_read_response_body :: "tsa_client \<Rightarrow> http_response \<Rightarrow> (tsp_error, bytes) result" where
  "tsa_read_response_body client response =
     (if (case http_content_length response of Some len \<Rightarrow> tc_max_body_size client < len | None \<Rightarrow> False)
      then Inl (HttpError (Msg ''TSA response exceeds max body size''))
      else read_tsa_chunks (tc_max_body_size client) [] (http_chunks response))"

definition receive_token ::
  "lib \<Rightarrow> crypto \<Rightarrow> tlib \<Rightarrow> tsa_client \<Rightarrow> bytes \<Rightarrow> u64 \<Rightarrow> http_response option \<Rightarrow> (tsp_error, bytes) result" where
  "receive_token L K T client data_hash nonce response =
     and_then (ok_or (HttpError (Msg ''TSA request failed'')) response) (\<lambda>response.
       if \<not> http_success response then Inl (HttpError (Msg ''TSA returned HTTP status''))
       else
       and_then (tsa_read_response_body client response) (\<lambda>resp_bytes.
       and_then (parse_timestamp_response T resp_bytes) (\<lambda>resp.
         validate_timestamp_response_for_policy L K T resp data_hash (Some nonce) (tc_digest_algorithm client)
           (tc_verification_certs client) (tc_policy_oid client))))"

definition tsa_timestamp ::
  "lib \<Rightarrow> crypto \<Rightarrow> tlib \<Rightarrow> tsa_env \<Rightarrow> tsa_client \<Rightarrow> bytes \<Rightarrow> (tsp_error, bytes) result \<times> (rstr \<times> bytes) list" where
  "tsa_timestamp L K T E client data_hash =
     (if te_guard_timeout E then (Inl (HttpError (Msg ''URL validation timed out'')), [])
      else case validate_fetch_url (te_resolver E) (tc_url client) of
        Inl e \<Rightarrow> (Inl (HttpError (MsgGuard e)), [])
      | Inr _ \<Rightarrow>
          (case token_generate_nonce (te_random E) of
             Inl e \<Rightarrow> (Inl e, [])
           | Inr nonce \<Rightarrow>
               (case build_timestamp_request T (tc_digest_algorithm client) data_hash (tc_policy_oid client) (Some nonce)
                   (tc_cert_req client) of
                  Inl e \<Rightarrow> (Inl e, [])
                | Inr req_der \<Rightarrow>
                    (receive_token L K T client data_hash nonce (te_post E (tc_url client) req_der),
                     [(tc_url client, req_der)]))))"

subsection \<open>The pool\<close>

text \<open>Creation of an empty pool panics, here \<open>None\<close>.\<close>

definition pool_new :: "tsa_client list \<Rightarrow> tsa_client list option" where
  "pool_new clients = (if clients = [] then None else Some clients)"

definition pool_from_url :: "http_platform \<Rightarrow> rstr \<Rightarrow> (tsp_error, tsa_client list option) result" where
  "pool_from_url P url = and_then (tsa_client_new P url) (\<lambda>c. Inr (pool_new [c]))"

fun collect_clients :: "http_platform \<Rightarrow> rstr list \<Rightarrow> (tsp_error, tsa_client list) result" where
  "collect_clients P [] = Inr []"
| "collect_clients P (u # us) =
     and_then (tsa_client_new P u) (\<lambda>c. and_then (collect_clients P us) (\<lambda>cs. Inr (c # cs)))"

definition pool_from_urls :: "http_platform \<Rightarrow> rstr list \<Rightarrow> (tsp_error, tsa_client list option) result" where
  "pool_from_urls P urls = and_then (collect_clients P urls) (\<lambda>cs. Inr (pool_new cs))"

fun pool_loop ::
  "lib \<Rightarrow> crypto \<Rightarrow> tlib \<Rightarrow> (nat \<Rightarrow> tsa_env) \<Rightarrow> nat \<Rightarrow> bytes \<Rightarrow> tsp_error option \<Rightarrow> tsa_client list
    \<Rightarrow> (tsp_error, bytes) result \<times> (rstr \<times> bytes) list" where
  "pool_loop L K T Es i data_hash last_error [] =
     (Inl (case last_error of Some e \<Rightarrow> e | None \<Rightarrow> HttpError (Msg ''no TSA clients configured'')), [])"
| "pool_loop L K T Es i data_hash last_error (client # clients) =
     (case tsa_timestamp L K T (Es i) client data_hash of
        (Inr token, sent) \<Rightarrow> (Inr token, sent)
      | (Inl e, sent) \<Rightarrow> map_prod id (append sent) (pool_loop L K T Es (i + 1) data_hash (Some e) clients))"

definition pool_timestamp ::
  "lib \<Rightarrow> crypto \<Rightarrow> tlib \<Rightarrow> (nat \<Rightarrow> tsa_env) \<Rightarrow> tsa_client list \<Rightarrow> bytes \<Rightarrow> (tsp_error, bytes) result \<times> (rstr \<times> bytes) list" where
  "pool_timestamp L K T Es clients data_hash = pool_loop L K T Es 0 data_hash None clients"

definition pool_len :: "tsa_client list \<Rightarrow> nat" where "pool_len clients = length clients"
definition pool_is_empty :: "tsa_client list \<Rightarrow> bool" where "pool_is_empty clients = (clients = [])"

end
