(* ===== verification/Tst_Facts.thy ===== *)
theory Tst_Facts
  imports Token_Verify
begin

section \<open>The grammar of TSTInfo and its time\<close>

text \<open>
  The parsers of TSTInfo and of timestamp responses accept exactly a grammar: a sequence of canonical
  encodings, with the optional fields in strictly increasing order.
\<close>

subsection \<open>Fields\<close>

definition tst_enc :: "tlib \<Rightarrow> u8 \<Rightarrow> bytes \<Rightarrow> bool" where
  "tst_enc T t v \<longleftrightarrow> tlv_fits t v \<and> any_ref_ok T (encode_tlv t v)"

lemma parse_tst_field_Inr [result_simps]:
  "parse_tst_field T d t ctx = Inr (v, rest) \<longleftrightarrow> tst_enc T t v \<and> d = encode_tlv t v @ rest"
proof (cases "parse_tlv_with_rest d")
  case (Inl e)
  then have "d \<noteq> encode_tlv t v @ rest" if "tlv_fits t v" using that parse_encode_tlv by fastforce
  with Inl show ?thesis by (auto simp: parse_tst_field_def tst_enc_def)
next
  case (Inr x)
  obtain t' v' rest' where x: "x = (t', v', rest')" by (cases x)
  with Inr have d: "tlv_fits t' v'" "d = encode_tlv t' v' @ rest'" by (auto simp: tlv_Inr_iff)
  have "t' = t \<and> v' = v \<and> rest' = rest" if "tlv_fits t v" "d = encode_tlv t v @ rest"
    using parse_encode_tlv [OF that(1), of rest] Inr x that(2) by simp
  with Inr x d show ?thesis by (auto simp: parse_tst_field_def tst_enc_def)
qed

lemma encode_tlv_hd: "encode_tlv t v \<noteq> []" "hd (encode_tlv t v @ rest) = t"
  by (simp_all add: encode_tlv_def)

definition enc_fields :: "(u8 \<times> bytes) list \<Rightarrow> bytes" where
  "enc_fields fs = concat (map (\<lambda>(t, v). encode_tlv t v) fs)"

lemma enc_fields_simps [simp]:
  "enc_fields [] = []" "enc_fields ((t, v) # fs) = encode_tlv t v @ enc_fields fs"
  by (simp_all add: enc_fields_def)

lemma enc_fields_Nil: "enc_fields fs = [] \<longleftrightarrow> fs = []"
  by (cases fs) (auto simp: encode_tlv_hd)

subsection \<open>Optional fields\<close>

definition tst_rank :: "u8 \<Rightarrow> nat" where
  "tst_rank t = (case optional_rank t of Some (r, _) \<Rightarrow> r | None \<Rightarrow> 0)"

definition tst_field_ok :: "tlib \<Rightarrow> u8 \<Rightarrow> bytes \<Rightarrow> bool" where
  "tst_field_ok T t v \<longleftrightarrow>
     t = 0x30 \<and> validate_tst_accuracy T v = Inr () \<or> t = 0x01 \<and> dec_bool_ok T v \<or> t = 0x02 \<and> dec_u64 T v \<noteq> None
     \<or> t = 0xA0 \<and> validate_tst_tsa_name T v = Inr () \<or> t = 0xA1 \<and> validate_tst_extensions T v = Inr ()"

text \<open>One step of the loop: the rank, the check, and the nonce afterwards.\<close>

lemma optional_step:
  "(\<exists>c. optional_rank t = Some (q, c) \<and> optional_field T q c v n = Inr n') \<longleftrightarrow>
     tst_field_ok T t v \<and> q = tst_rank t \<and> n' = (if t = 0x02 then dec_u64 T v else n)"
proof -
  consider "t = 0x30" | "t = 0x01" | "t = 0x02" | "t = 0xA0" | "t = 0xA1" | "t \<notin> {0x30, 0x01, 0x02, 0xA0, 0xA1}" by auto
  then show ?thesis
    by cases (auto simp: optional_rank_def tst_rank_def tst_field_ok_def optional_field_def and_then_Inr_iff ok_or_Inr_iff)
qed

lemma optional_loop_step:
  assumes "pos \<noteq> []"
  shows "optional_loop T prev n pos = Inr m \<longleftrightarrow>
    (\<exists>t v rest. pos = encode_tlv t v @ rest \<and> tst_enc T t v \<and> tst_field_ok T t v \<and> prev < tst_rank t
       \<and> optional_loop T (tst_rank t) (if t = 0x02 then dec_u64 T v else n) rest = Inr m)"
    (is "_ \<longleftrightarrow> ?rhs")
proof
  assume "optional_loop T prev n pos = Inr m"
  then obtain q c v rest n' where q: "optional_rank (hd pos) = Some (q, c)" "prev < q"
      "parse_tst_field T pos (hd pos) c = Inr (v, rest)" "optional_field T q c v n = Inr n'"
      "optional_loop T q n' rest = Inr m"
    using assms by (subst (asm) optional_loop.simps) (auto split: option.splits sum.splits prod.splits if_splits)
  from q(1,4) optional_step have "tst_field_ok T (hd pos) v \<and> q = tst_rank (hd pos)
      \<and> n' = (if hd pos = 0x02 then dec_u64 T v else n)" by blast
  with q show ?rhs unfolding parse_tst_field_Inr by blast
next
  assume ?rhs
  then obtain t v rest where r: "pos = encode_tlv t v @ rest" "tst_enc T t v" "tst_field_ok T t v" "prev < tst_rank t"
    "optional_loop T (tst_rank t) (if t = 0x02 then dec_u64 T v else n) rest = Inr m" by blast
  from r(3) optional_step obtain c where "optional_rank t = Some (tst_rank t, c)"
    "optional_field T (tst_rank t) c v n = Inr (if t = 0x02 then dec_u64 T v else n)" by blast
  moreover have "parse_tst_field T pos t c = Inr (v, rest)" "hd pos = t"
    using r(1,2) by (simp_all add: parse_tst_field_Inr encode_tlv_hd)
  ultimately show "optional_loop T prev n pos = Inr m" using r(4,5) assms by (subst optional_loop.simps) simp
qed

definition tst_nonce :: "tlib \<Rightarrow> (u8 \<times> bytes) list \<Rightarrow> u64 option \<Rightarrow> u64 option" where
  "tst_nonce T fs n = (case map_of fs 0x02 of Some v \<Rightarrow> dec_u64 T v | None \<Rightarrow> n)"

definition tst_options :: "tlib \<Rightarrow> nat \<Rightarrow> (u8 \<times> bytes) list \<Rightarrow> bool" where
  "tst_options T prev fs \<longleftrightarrow> sorted_wrt (<) (prev # map (tst_rank \<circ> fst) fs)
     \<and> (\<forall>(t, v)\<in>set fs. tst_enc T t v \<and> tst_field_ok T t v)"

lemma tst_options_Cons:
  "tst_options T prev ((t, v) # fs) \<longleftrightarrow> prev < tst_rank t \<and> tst_enc T t v \<and> tst_field_ok T t v \<and> tst_options T (tst_rank t) fs"
  by (auto simp: tst_options_def)

lemma tst_nonce_Cons:
  "tst_options T (tst_rank t) fs \<Longrightarrow> tst_nonce T fs (if t = 0x02 then dec_u64 T v else n) = tst_nonce T ((t, v) # fs) n"
proof -
  assume o: "tst_options T (tst_rank t) fs"
  have "map_of fs 0x02 = None" if "t = 0x02"
  proof -
    from o that have "\<forall>f\<in>set fs. tst_rank 0x02 < tst_rank (fst f)" by (auto simp: tst_options_def)
    then show ?thesis by (force simp: map_of_eq_None_iff)
  qed
  then show ?thesis by (auto simp: tst_nonce_def)
qed

lemma optional_loop_iff:
  "optional_loop T prev n pos = Inr m \<longleftrightarrow> (\<exists>fs. pos = enc_fields fs \<and> tst_options T prev fs \<and> m = tst_nonce T fs n)"
proof (induction "length pos" arbitrary: pos prev n rule: less_induct)
  case less
  show ?case
  proof (cases "pos = []")
    case True
    then show ?thesis
      by (subst optional_loop.simps) (auto simp: enc_fields_Nil eq_commute [of "[]"] tst_options_def tst_nonce_def)
  next
    case False
    have IH: "pos = encode_tlv t v @ rest \<Longrightarrow> optional_loop T q k rest = Inr m \<longleftrightarrow>
        (\<exists>fs. rest = enc_fields fs \<and> tst_options T q fs \<and> m = tst_nonce T fs k)" for t v rest q k
      by (rule less) (simp add: encode_tlv_hd)
    show ?thesis
    proof
      assume "optional_loop T prev n pos = Inr m"
      then obtain t v rest where r: "pos = encode_tlv t v @ rest" "tst_enc T t v" "tst_field_ok T t v" "prev < tst_rank t"
        "optional_loop T (tst_rank t) (if t = 0x02 then dec_u64 T v else n) rest = Inr m"
        unfolding optional_loop_step [OF False] by blast
      then obtain fs where "rest = enc_fields fs" "tst_options T (tst_rank t) fs"
        "m = tst_nonce T fs (if t = 0x02 then dec_u64 T v else n)"
        using IH by blast
      with r show "\<exists>fs. pos = enc_fields fs \<and> tst_options T prev fs \<and> m = tst_nonce T fs n"
        by (intro exI [of _ "(t, v) # fs"]) (simp add: tst_options_Cons tst_nonce_Cons)
    next
      assume "\<exists>fs. pos = enc_fields fs \<and> tst_options T prev fs \<and> m = tst_nonce T fs n"
      with False obtain t v fs where "pos = encode_tlv t v @ enc_fields fs" "tst_options T prev ((t, v) # fs)"
        "m = tst_nonce T ((t, v) # fs) n"
        by (metis enc_fields_simps neq_Nil_conv surj_pair)
      then show "optional_loop T prev n pos = Inr m"
        unfolding optional_loop_step [OF False]
        by (intro exI [of _ t] exI [of _ v] exI [of _ "enc_fields fs"])
          (use IH [of t v "enc_fields fs"] tst_nonce_Cons [of T t fs v n] in \<open>auto simp: tst_options_Cons\<close>)
    qed
  qed
qed

subsection \<open>TSTInfo\<close>

text \<open>The body of a message imprint, and of a TSTInfo.\<close>

definition imprint_grammar :: "tlib \<Rightarrow> bytes \<Rightarrow> digest_algorithm \<Rightarrow> bytes \<Rightarrow> bool" where
  "imprint_grammar T body d h \<longleftrightarrow>
     (\<exists>alg a. body = encode_tlv 0x30 alg @ encode_tlv 0x04 h \<and> tst_enc T 0x30 alg \<and> tst_enc T 0x04 h
        \<and> dec_algid T alg = Some a \<and> alg_parameters a \<in> {None, Some (Any 0x05 [])}
        \<and> digest_from_oid (alg_oid a) = Some d \<and> length h = output_size d)"

definition tst_grammar :: "tlib \<Rightarrow> bytes \<Rightarrow> tst_info \<Rightarrow> bool" where
  "tst_grammar T der info \<longleftrightarrow>
     (\<exists>body version policy imprint serial gen_time fs p d h.
        der = encode_tlv 0x30 body \<and> tst_enc T 0x30 body
        \<and> body = encode_tlv 0x02 version @ encode_tlv 0x06 policy @ encode_tlv 0x30 imprint @ encode_tlv 0x02 serial
            @ encode_tlv 0x18 gen_time @ enc_fields fs
        \<and> tst_enc T 0x02 version \<and> dec_u64 T version = Some 1
        \<and> tst_enc T 0x06 policy \<and> dec_oid T policy = Some p
        \<and> tst_enc T 0x30 imprint \<and> imprint_grammar T imprint d h
        \<and> tst_enc T 0x02 serial \<and> dec_int_ok T serial \<and> tst_enc T 0x18 gen_time
        \<and> tst_options T 0 fs
        \<and> info = \<lparr>ti_hash_algorithm = d, ti_message_hash = h, ti_serial_number = serial, ti_gen_time_der = gen_time,
            ti_nonce = tst_nonce T fs None, ti_policy_oid = Some p\<rparr>)"

lemma parse_message_imprint_iff: "parse_message_imprint T body = Inr (d, h) \<longleftrightarrow> imprint_grammar T body d h"
proof -
  have null: "\<not> (case p of Some q \<Rightarrow> \<not> is_null q | None \<Rightarrow> False) \<longleftrightarrow> p \<in> {None, Some (Any 0x05 [])}" for p
    by (cases p) (auto simp: is_null_def)
  show ?thesis
    unfolding parse_message_imprint_def imprint_grammar_def oid_to_digest_algorithm_def
    by (simp only: and_then_Inr_iff split_paired_Ex prod.case if_err_Inr_iff ok_or_Inr_iff parse_tst_field_Inr null
        sum.inject prod.inject) auto
qed

lemma parse_field_enc:
  "tst_enc T t v \<Longrightarrow> parse_tst_field T (encode_tlv t v @ rest) t ctx = Inr (v, rest)"
  "tst_enc T t v \<Longrightarrow> parse_tst_field T (encode_tlv t v) t ctx = Inr (v, [])"
  using parse_tst_field_Inr [of T "encode_tlv t v @ rest" t ctx v rest] parse_tst_field_Inr [of T "encode_tlv t v" t ctx v "[]"]
  by simp_all

lemma tst_grammarI:
  assumes "tst_enc T 0x30 body" "der = encode_tlv 0x30 body @ p0" "p0 = []"
    "tst_enc T 0x02 version" "body = encode_tlv 0x02 version @ p1" "dec_u64 T version = Some k" "k = 1"
    "tst_enc T 0x06 policy" "p1 = encode_tlv 0x06 policy @ p2" "dec_oid T policy = Some p"
    "tst_enc T 0x30 imprint" "p2 = encode_tlv 0x30 imprint @ p3" "imprint_grammar T imprint d h"
    "tst_enc T 0x02 serial" "p3 = encode_tlv 0x02 serial @ p4" "dec_int_ok T serial"
    "tst_enc T 0x18 gen_time" "p4 = encode_tlv 0x18 gen_time @ p5" "optional_loop T 0 None p5 = Inr n"
    "\<lparr>ti_hash_algorithm = d, ti_message_hash = h, ti_serial_number = serial, ti_gen_time_der = gen_time,
       ti_nonce = n, ti_policy_oid = Some p\<rparr> = info"
  shows "tst_grammar T der info"
proof -
  from assms(19) obtain fs where fs: "p5 = enc_fields fs" "tst_options T 0 fs" "n = tst_nonce T fs None"
    unfolding optional_loop_iff by blast
  have der: "der = encode_tlv 0x30 body" using assms(2,3) by simp
  have body: "body = encode_tlv 0x02 version @ encode_tlv 0x06 policy @ encode_tlv 0x30 imprint @ encode_tlv 0x02 serial
      @ encode_tlv 0x18 gen_time @ enc_fields fs"
    by (simp only: assms(5,9,12,15,18) fs(1))
  show ?thesis
    unfolding tst_grammar_def
    by (rule exI [of _ body], rule exI [of _ version], rule exI [of _ policy], rule exI [of _ imprint],
        rule exI [of _ serial], rule exI [of _ gen_time], rule exI [of _ fs], rule exI [of _ p], rule exI [of _ d],
        rule exI [of _ h])
      (intro conjI der body assms(1,4,8,10,11,13,14,16,17) assms(6) [unfolded assms(7)] fs(2)
        assms(20) [symmetric, unfolded fs(3)])
qed

lemma parse_tst_info_iff: "parse_tst_info_body T der = Inr info \<longleftrightarrow> tst_grammar T der info"
proof
  assume "parse_tst_info_body T der = Inr info"
  then show "tst_grammar T der info"
    unfolding parse_tst_info_body_def
    by (simp only: and_then_Inr_iff split_paired_Ex prod.case if_err_Inr_iff ok_or_Inr_iff parse_tst_field_Inr
        parse_message_imprint_iff sum.inject not_not) (elim exE conjE, rule tst_grammarI; assumption)
next
  assume "tst_grammar T der info"
  then obtain body version policy imprint serial gen_time fs p d h where
    "der = encode_tlv 0x30 body" "tst_enc T 0x30 body"
    "body = encode_tlv 0x02 version @ encode_tlv 0x06 policy @ encode_tlv 0x30 imprint @ encode_tlv 0x02 serial
       @ encode_tlv 0x18 gen_time @ enc_fields fs"
    "tst_enc T 0x02 version" "dec_u64 T version = Some 1" "tst_enc T 0x06 policy" "dec_oid T policy = Some p"
    "tst_enc T 0x30 imprint" "parse_message_imprint T imprint = Inr (d, h)"
    "tst_enc T 0x02 serial" "dec_int_ok T serial" "tst_enc T 0x18 gen_time"
    "optional_loop T 0 None (enc_fields fs) = Inr (tst_nonce T fs None)"
    "info = \<lparr>ti_hash_algorithm = d, ti_message_hash = h, ti_serial_number = serial, ti_gen_time_der = gen_time,
       ti_nonce = tst_nonce T fs None, ti_policy_oid = Some p\<rparr>"
    unfolding tst_grammar_def parse_message_imprint_iff optional_loop_iff by blast
  then show "parse_tst_info_body T der = Inr info" by (simp add: parse_tst_info_body_def parse_field_enc)
qed

subsection \<open>Responses\<close>

definition text_ok :: "tlib \<Rightarrow> bytes \<Rightarrow> bool" where
  "text_ok T t \<longleftrightarrow> tst_enc T 0x0C t \<and> from_utf8_ok t"

lemma status_texts_step:
  "elems \<noteq> [] \<Longrightarrow> status_texts T elems s = Inr r \<longleftrightarrow>
     (\<exists>t rest. elems = encode_tlv 0x0C t @ rest \<and> text_ok T t
        \<and> status_texts T rest (case s of None \<Rightarrow> Some t | Some x \<Rightarrow> Some x) = Inr r)"
proof -
  assume ne: "elems \<noteq> []"
  show ?thesis (is "_ \<longleftrightarrow> ?rhs")
  proof
    assume "status_texts T elems s = Inr r"
    with ne obtain t rest where "parse_tst_field T elems 0x0C ''statusString'' = Inr (t, rest)" "from_utf8_ok t"
        "status_texts T rest (case s of None \<Rightarrow> Some t | Some x \<Rightarrow> Some x) = Inr r"
      by (subst (asm) status_texts.simps) (auto split: sum.splits prod.splits if_splits)
    then show ?rhs unfolding parse_tst_field_Inr text_ok_def by blast
  next
    assume ?rhs
    then obtain t rest where "elems = encode_tlv 0x0C t @ rest" "text_ok T t"
        "status_texts T rest (case s of None \<Rightarrow> Some t | Some x \<Rightarrow> Some x) = Inr r" by blast
    with ne show "status_texts T elems s = Inr r"
      by (subst status_texts.simps) (simp add: text_ok_def parse_field_enc encode_tlv_hd)
  qed
qed

lemma status_texts_iff:
  "status_texts T elems s = Inr r \<longleftrightarrow>
     (\<exists>ts. elems = enc_fields (map (Pair 0x0C) ts) \<and> (\<forall>t\<in>set ts. text_ok T t)
        \<and> r = (case s of Some x \<Rightarrow> Some x | None \<Rightarrow> (case ts of [] \<Rightarrow> None | t # _ \<Rightarrow> Some t)))"
proof (induction "length elems" arbitrary: elems s rule: less_induct)
  case less
  show ?case
  proof (cases "elems = []")
    case True
    then show ?thesis
      by (subst status_texts.simps) (auto simp: enc_fields_Nil eq_commute [of "[]"] split: option.splits)
  next
    case False
    have IH: "elems = encode_tlv 0x0C t @ rest \<Longrightarrow> status_texts T rest q = Inr r \<longleftrightarrow>
        (\<exists>ts. rest = enc_fields (map (Pair 0x0C) ts) \<and> (\<forall>t\<in>set ts. text_ok T t)
          \<and> r = (case q of Some x \<Rightarrow> Some x | None \<Rightarrow> (case ts of [] \<Rightarrow> None | t # _ \<Rightarrow> Some t)))" for t rest q
      by (rule less) (simp add: encode_tlv_hd)
    show ?thesis
    proof
      assume "status_texts T elems s = Inr r"
      then obtain t rest where t: "elems = encode_tlv 0x0C t @ rest" "text_ok T t"
          "status_texts T rest (case s of None \<Rightarrow> Some t | Some x \<Rightarrow> Some x) = Inr r"
        unfolding status_texts_step [OF False] by blast
      with IH obtain ts where "rest = enc_fields (map (Pair 0x0C) ts)" "\<forall>t\<in>set ts. text_ok T t"
          "r = (case s of None \<Rightarrow> Some t | Some x \<Rightarrow> Some x)" by (auto split: option.splits)
      with t show "\<exists>ts. elems = enc_fields (map (Pair 0x0C) ts) \<and> (\<forall>t\<in>set ts. text_ok T t)
          \<and> r = (case s of Some x \<Rightarrow> Some x | None \<Rightarrow> (case ts of [] \<Rightarrow> None | t # _ \<Rightarrow> Some t))"
        by (intro exI [of _ "t # ts"]) (simp split: option.splits)
    next
      assume "\<exists>ts. elems = enc_fields (map (Pair 0x0C) ts) \<and> (\<forall>t\<in>set ts. text_ok T t)
          \<and> r = (case s of Some x \<Rightarrow> Some x | None \<Rightarrow> (case ts of [] \<Rightarrow> None | t # _ \<Rightarrow> Some t))"
      then obtain ts where ts: "elems = enc_fields (map (Pair 0x0C) ts)" "\<forall>t\<in>set ts. text_ok T t"
          "r = (case s of Some x \<Rightarrow> Some x | None \<Rightarrow> (case ts of [] \<Rightarrow> None | t # _ \<Rightarrow> Some t))" by blast
      with False obtain t us where u: "ts = t # us" by (cases ts) auto
      with ts have e: "elems = encode_tlv 0x0C t @ enc_fields (map (Pair 0x0C) us)" by simp
      have "status_texts T (enc_fields (map (Pair 0x0C) us)) (case s of None \<Rightarrow> Some t | Some x \<Rightarrow> Some x) = Inr r"
        unfolding IH [OF e] by (rule exI [of _ us]) (use ts u in \<open>simp split: option.splits\<close>)
      with e ts(2) u show "status_texts T elems s = Inr r" unfolding status_texts_step [OF False] by auto
    qed
  qed
qed

definition failure_ok :: "tlib \<Rightarrow> bytes \<Rightarrow> bool" where
  "failure_ok T body \<longleftrightarrow>
     (\<exists>unused raw. dec_bits T body = Some (unused, raw) \<and> (raw = [] \<or> last raw AND (push_bit unused 1 - 1) = 0))"

lemma read_failure_info_iff: "read_failure_info T body = Inr () \<longleftrightarrow> failure_ok T body"
  by (auto simp: read_failure_info_def failure_ok_def and_then_Inr_iff ok_or_Inr_iff split: if_splits)

lemma status_fields_after_failure:
  "status_fields T pos s (Some b) = Inr r \<longleftrightarrow> pos = [] \<and> r = (s, Some b)"
  by (subst status_fields.simps) (auto split: sum.splits)

text \<open>The failure bits, and what may follow the texts.\<close>

lemma status_fields_failure:
  "status_fields T (encode_tlv 0x03 b @ rest) s None = Inr r \<longleftrightarrow>
     tst_enc T 0x03 b \<and> failure_ok T b \<and> rest = [] \<and> r = (s, Some b)" if "tst_enc T 0x03 b"
  using that by (subst status_fields.simps)
    (auto simp: parse_field_enc encode_tlv_hd status_fields_after_failure read_failure_info_iff [symmetric] split: sum.splits)

lemma status_fields_hd:
  assumes "status_fields T pos s f = Inr r" "pos \<noteq> []"
  shows "\<exists>b rest. pos = encode_tlv (hd pos) b @ rest \<and> tst_enc T (hd pos) b \<and> hd pos \<in> {0x30, 0x03}"
  using assms by (subst (asm) status_fields.simps)
    (auto simp: parse_tst_field_Inr split: sum.splits prod.splits if_splits)

lemma status_fields_after_texts:
  "status_fields T pos (Some t) None = Inr r \<longleftrightarrow>
     pos = [] \<and> r = (Some t, None)
     \<or> (\<exists>b. pos = encode_tlv 0x03 b \<and> tst_enc T 0x03 b \<and> failure_ok T b \<and> r = (Some t, Some b))"
proof (cases "pos = []")
  case True
  then show ?thesis by (auto simp: status_fields.simps encode_tlv_hd(1) [symmetric] dest: sym)
next
  case False
  have hd3: "hd pos = 0x03" if r: "status_fields T pos (Some t) None = Inr r"
  proof (rule ccontr)
    assume "hd pos \<noteq> 0x03"
    with status_fields_hd [OF r False] have "hd pos = 0x30" by auto
    with False have "status_fields T pos (Some t) None \<noteq> Inr r"
      by (subst status_fields.simps) (auto split: sum.splits)
    with r show False by simp
  qed
  show ?thesis
  proof
    assume r: "status_fields T pos (Some t) None = Inr r"
    with hd3 status_fields_hd [OF r False] obtain b rest where b: "pos = encode_tlv 0x03 b @ rest" "tst_enc T 0x03 b" by auto
    with r status_fields_failure [OF b(2), of rest "Some t" r] False
    show "pos = [] \<and> r = (Some t, None)
        \<or> (\<exists>b. pos = encode_tlv 0x03 b \<and> tst_enc T 0x03 b \<and> failure_ok T b \<and> r = (Some t, Some b))" by simp
  next
    assume "pos = [] \<and> r = (Some t, None)
        \<or> (\<exists>b. pos = encode_tlv 0x03 b \<and> tst_enc T 0x03 b \<and> failure_ok T b \<and> r = (Some t, Some b))"
    with False obtain b where b: "pos = encode_tlv 0x03 b" "tst_enc T 0x03 b" "failure_ok T b" "r = (Some t, Some b)" by blast
    with status_fields_failure [OF b(2), of "[]" "Some t" r] show "status_fields T pos (Some t) None = Inr r" by simp
  qed
qed

text \<open>PKIStatusInfo after the status: texts, then failure bits, each optional.\<close>

definition status_grammar :: "tlib \<Rightarrow> bytes \<Rightarrow> rstr list \<Rightarrow> bytes option \<Rightarrow> bool" where
  "status_grammar T pos ts failure \<longleftrightarrow>
     pos = (if ts = [] then [] else encode_tlv 0x30 (enc_fields (map (Pair 0x0C) ts)))
         @ (case failure of None \<Rightarrow> [] | Some b \<Rightarrow> encode_tlv 0x03 b)
     \<and> (ts \<noteq> [] \<longrightarrow> tst_enc T 0x30 (enc_fields (map (Pair 0x0C) ts))) \<and> (\<forall>t\<in>set ts. text_ok T t)
     \<and> (\<forall>b. failure = Some b \<longrightarrow> tst_enc T 0x03 b \<and> failure_ok T b)"

lemma status_fields_iff:
  "status_fields T pos None None = Inr (s, f) \<longleftrightarrow>
     (\<exists>ts. status_grammar T pos ts f \<and> s = (case ts of [] \<Rightarrow> None | t # _ \<Rightarrow> Some t))"
proof (cases "pos = []")
  case True
  have "status_fields T pos None None = Inr (s, f) \<longleftrightarrow> s = None \<and> f = None"
    using True by (subst status_fields.simps) auto
  also have "\<dots> \<longleftrightarrow> (\<exists>ts. status_grammar T pos ts f \<and> s = (case ts of [] \<Rightarrow> None | t # _ \<Rightarrow> Some t))"
    using True by (auto simp: status_grammar_def encode_tlv_hd split: option.splits if_splits)
  finally show ?thesis .
next
  case False
  show ?thesis
  proof
    assume r: "status_fields T pos None None = Inr (s, f)"
    then obtain b rest where b: "pos = encode_tlv (hd pos) b @ rest" "tst_enc T (hd pos) b" "hd pos \<in> {0x30, 0x03}"
      using status_fields_hd False by blast
    show "\<exists>ts. status_grammar T pos ts f \<and> s = (case ts of [] \<Rightarrow> None | t # _ \<Rightarrow> Some t)"
    proof (cases "hd pos = 0x03")
      case True
      with b r have "rest = [] \<and> failure_ok T b \<and> s = None \<and> f = Some b"
        using status_fields_failure [of T b rest None "(s, f)"] by auto
      with b True show ?thesis by (intro exI [of _ "[]"]) (simp add: status_grammar_def)
    next
      case False
      with b have b: "pos = encode_tlv 0x30 b @ rest" "tst_enc T 0x30 b" by auto
      with r obtain q where "b \<noteq> []" and q: "status_texts T b None = Inr q" "status_fields T rest q None = Inr (s, f)"
        by (subst (asm) status_fields.simps) (auto simp: parse_field_enc encode_tlv_hd split: sum.splits if_splits)
      from q(1) [unfolded status_texts_iff] obtain ts where t: "b = enc_fields (map (Pair 0x0C) ts)"
          "\<forall>t\<in>set ts. text_ok T t" "q = (case ts of [] \<Rightarrow> None | t # _ \<Rightarrow> Some t)" by auto
      from this(1) \<open>b \<noteq> []\<close> have "ts \<noteq> []" by auto
      with t have ts: "b = enc_fields (map (Pair 0x0C) ts)" "\<forall>t\<in>set ts. text_ok T t" "ts \<noteq> []" "q = Some (hd ts)"
        by (auto simp: neq_Nil_conv)
      from q(2) [unfolded ts(4) status_fields_after_texts] ts b show ?thesis
        by (intro exI [of _ ts]) (auto simp: status_grammar_def split: list.splits)
    qed
  next
    assume "\<exists>ts. status_grammar T pos ts f \<and> s = (case ts of [] \<Rightarrow> None | t # _ \<Rightarrow> Some t)"
    then obtain ts where g: "status_grammar T pos ts f" "s = (case ts of [] \<Rightarrow> None | t # _ \<Rightarrow> Some t)" by blast
    show "status_fields T pos None None = Inr (s, f)"
    proof (cases ts)
      case Nil
      with False g obtain b where "f = Some b" "pos = encode_tlv 0x03 b" "tst_enc T 0x03 b" "failure_ok T b"
        by (auto simp: status_grammar_def split: option.splits)
      with Nil g(2) status_fields_failure [of T b "[]" None "(s, f)"] show ?thesis by simp
    next
      case (Cons t us)
      define b where "b = enc_fields (map (Pair 0x0C) ts)"
      define rest where "rest = (case f of None \<Rightarrow> [] | Some c \<Rightarrow> encode_tlv 0x03 c)"
      have b: "pos = encode_tlv 0x30 b @ rest" "tst_enc T 0x30 b" "b \<noteq> []"
        using g Cons by (auto simp: status_grammar_def b_def rest_def encode_tlv_hd)
      have "status_texts T b None = Inr (Some t)"
        unfolding status_texts_iff b_def using g Cons by (intro exI [of _ ts]) (auto simp: status_grammar_def)
      moreover have "status_fields T rest (Some t) None = Inr (s, f)"
        unfolding status_fields_after_texts rest_def using g Cons by (cases f) (auto simp: status_grammar_def)
      ultimately show ?thesis
        using b by (subst status_fields.simps) (simp add: parse_field_enc encode_tlv_hd)
    qed
  qed
qed

text \<open>The whole response: the status information and the token, which is kept as it is encoded.\<close>

definition response_grammar :: "tlib \<Rightarrow> bytes \<Rightarrow> time_stamp_resp \<Rightarrow> bool" where
  "response_grammar T der r \<longleftrightarrow>
     (\<exists>info status v pos ts failure token.
        der = encode_tlv 0x30 (encode_tlv 0x30 info @ (case token of None \<Rightarrow> [] | Some t \<Rightarrow> encode_tlv 0x30 t))
        \<and> tst_enc T 0x30 (encode_tlv 0x30 info @ (case token of None \<Rightarrow> [] | Some t \<Rightarrow> encode_tlv 0x30 t))
        \<and> tst_enc T 0x30 info \<and> info = encode_tlv 0x02 status @ pos \<and> tst_enc T 0x02 status \<and> dec_u64 T status = Some v
        \<and> status_grammar T pos ts failure \<and> (\<forall>t. token = Some t \<longrightarrow> tst_enc T 0x30 t)
        \<and> r = \<lparr>tr_status = pki_from_u64 v, tr_status_string = (case ts of [] \<Rightarrow> None | t # _ \<Rightarrow> Some t),
            tr_failure_info = failure, tr_token_der = map_option (encode_tlv 0x30) token\<rparr>)"

lemma token_part_iff:
  "(if rest \<noteq> [] then
      and_then (parse_tst_field T rest 0x30 c) (\<lambda>(_, after).
        if after \<noteq> [] then Inl e else Inr (Some rest))
    else Inr None) = Inr q \<longleftrightarrow>
   (\<exists>token. rest = (case token of None \<Rightarrow> [] | Some t \<Rightarrow> encode_tlv 0x30 t)
      \<and> (\<forall>t. token = Some t \<longrightarrow> tst_enc T 0x30 t) \<and> q = map_option (encode_tlv 0x30) token)"
proof (cases "rest = []")
  case True
  then show ?thesis by (auto simp: encode_tlv_hd split: option.splits)
next
  case False
  then have some: "(\<exists>token. rest = (case token of None \<Rightarrow> [] | Some t \<Rightarrow> encode_tlv 0x30 t)
      \<and> (\<forall>t. token = Some t \<longrightarrow> tst_enc T 0x30 t) \<and> q = map_option (encode_tlv 0x30) token) \<longleftrightarrow>
      (\<exists>t. rest = encode_tlv 0x30 t \<and> tst_enc T 0x30 t \<and> q = Some rest)"
    by (auto split: option.splits)
  have "(if rest \<noteq> [] then
      and_then (parse_tst_field T rest 0x30 c) (\<lambda>(_, after).
        if after \<noteq> [] then Inl e else Inr (Some rest))
    else Inr None) = Inr q \<longleftrightarrow> (\<exists>t. parse_tst_field T rest 0x30 c = Inr (t, []) \<and> q = Some rest)"
    using False by (cases "parse_tst_field T rest 0x30 c") (auto split: if_splits)
  then show ?thesis unfolding some parse_tst_field_Inr append_Nil2 by blast
qed

lemma response_grammarI:
  assumes "tst_enc T 0x30 response" "der = encode_tlv 0x30 response @ p0" "p0 = []" "tst_enc T 0x30 info"
    "response = encode_tlv 0x30 info @ p1" "tst_enc T 0x02 status" "info = encode_tlv 0x02 status @ p2"
    "dec_u64 T status = Some v" "status_grammar T p2 ts failure" "s = (case ts of [] \<Rightarrow> None | t # _ \<Rightarrow> Some t)"
    "\<lparr>tr_status = pki_from_u64 v, tr_status_string = s, tr_failure_info = failure, tr_token_der = q\<rparr> = r"
    "p1 = (case token of None \<Rightarrow> [] | Some t \<Rightarrow> encode_tlv 0x30 t)" "\<forall>t. token = Some t \<longrightarrow> tst_enc T 0x30 t"
    "q = map_option (encode_tlv 0x30) token"
  shows "response_grammar T der r"
proof -
  have der: "der = encode_tlv 0x30 (encode_tlv 0x30 info @ (case token of None \<Rightarrow> [] | Some t \<Rightarrow> encode_tlv 0x30 t))"
    using assms(2,3,5,12) by simp
  show ?thesis
    unfolding response_grammar_def
    by (rule exI [of _ info], rule exI [of _ status], rule exI [of _ v], rule exI [of _ p2], rule exI [of _ ts],
        rule exI [of _ failure], rule exI [of _ token])
      (intro conjI der assms(4,6-9,13) assms(1) [unfolded assms(5,12)] assms(11) [symmetric, unfolded assms(10,14)])
qed

lemma parse_timestamp_response_iff: "parse_timestamp_response T der = Inr r \<longleftrightarrow> response_grammar T der r"
proof
  assume "parse_timestamp_response T der = Inr r"
  then show "response_grammar T der r"
    unfolding parse_timestamp_response_def
    by (simp only: and_then_Inr_iff split_paired_Ex prod.case if_err_Inr_iff ok_or_Inr_iff parse_tst_field_Inr
        token_part_iff status_fields_iff sum.inject not_not) (elim exE conjE, rule response_grammarI; assumption)
next
  assume "response_grammar T der r"
  then obtain info status v pos ts failure token where
    der: "der = encode_tlv 0x30 (encode_tlv 0x30 info @ (case token of None \<Rightarrow> [] | Some t \<Rightarrow> encode_tlv 0x30 t))"
    and enc: "tst_enc T 0x30 (encode_tlv 0x30 info @ (case token of None \<Rightarrow> [] | Some t \<Rightarrow> encode_tlv 0x30 t))"
      "tst_enc T 0x30 info" "tst_enc T 0x02 status"
    and info: "info = encode_tlv 0x02 status @ pos" "dec_u64 T status = Some v"
    and st: "status_grammar T pos ts failure" and tok: "\<forall>t. token = Some t \<longrightarrow> tst_enc T 0x30 t"
    and r: "r = \<lparr>tr_status = pki_from_u64 v, tr_status_string = (case ts of [] \<Rightarrow> None | t # _ \<Rightarrow> Some t),
            tr_failure_info = failure, tr_token_der = map_option (encode_tlv 0x30) token\<rparr>"
    unfolding response_grammar_def by blast
  have "status_fields T pos None None = Inr (case ts of [] \<Rightarrow> None | t # _ \<Rightarrow> Some t, failure)"
    using st unfolding status_fields_iff by blast
  then show "parse_timestamp_response T der = Inr r"
    using enc info tok by (cases token) (simp_all add: parse_timestamp_response_def der r parse_field_enc encode_tlv_hd)
qed

subsection \<open>The time\<close>

definition gen_time_format :: "bytes \<Rightarrow> bytes \<Rightarrow> bool \<Rightarrow> bool" where
  "gen_time_format bs s frac \<longleftrightarrow> length s = 14 \<and>
     (if frac then \<exists>ds. bs = s @ [0x2E] @ ds @ [0x5A] \<and> ds \<noteq> [] \<and> list_all is_ascii_digit ds \<and> last ds \<noteq> 0x30
      else bs = s @ [0x5A])"

lemma fraction_iff:
  "17 \<le> length bs \<and> bs ! 14 = 0x2E \<and> last bs = 0x5A \<and> list_all is_ascii_digit (take (length bs - 1 - 15) (drop 15 bs))
     \<and> bs ! (length bs - 2) \<noteq> 0x30 \<longleftrightarrow> gen_time_format bs (take 14 bs) True"
proof
  assume h: "17 \<le> length bs \<and> bs ! 14 = 0x2E \<and> last bs = 0x5A \<and> list_all is_ascii_digit (take (length bs - 1 - 15) (drop 15 bs))
     \<and> bs ! (length bs - 2) \<noteq> 0x30"
  let ?ds = "take (length bs - 1 - 15) (drop 15 bs)"
  have "drop 14 bs = 0x2E # drop 15 bs" using h by (simp add: Cons_nth_drop_Suc [symmetric])
  moreover have "drop 15 bs = ?ds @ [0x5A]"
  proof -
    have ne: "drop 15 bs \<noteq> []" using h by simp
    then have "drop 15 bs = butlast (drop 15 bs) @ [last bs]" using h by (metis append_butlast_last_id last_drop drop_eq_Nil not_le)
    moreover have "butlast (drop 15 bs) = ?ds" by (simp add: butlast_conv_take)
    ultimately show ?thesis using h by simp
  qed
  moreover have "last ?ds = bs ! (length bs - 2)"
  proof -
    have "length ?ds = length bs - 16" "?ds \<noteq> []" using h by auto
    then have "last ?ds = ?ds ! (length bs - 17)" by (simp add: last_conv_nth)
    also have "\<dots> = bs ! (15 + (length bs - 17))"
    proof -
      have "length bs - 17 < length bs - 1 - 15" "15 \<le> length bs" using h by linarith+
      then show ?thesis by (simp only: nth_take nth_drop)
    qed
    also have "15 + (length bs - 17) = length bs - 2" using h by simp
    finally show ?thesis .
  qed
  ultimately show "gen_time_format bs (take 14 bs) True"
    using h unfolding gen_time_format_def by (auto intro!: exI [of _ ?ds]) (metis append_take_drop_id)
next
  assume "gen_time_format bs (take 14 bs) True"
  then obtain ds where d: "length (take 14 bs) = 14" "bs = take 14 bs @ [0x2E] @ ds @ [0x5A]" "ds \<noteq> []"
      "list_all is_ascii_digit ds" "last ds \<noteq> 0x30"
    unfolding gen_time_format_def by auto
  define s where "s = take 14 bs"
  have s: "length s = 14" "bs = s @ 0x2E # ds @ [0x5A]" using d by (simp_all add: s_def)
  then have "length bs = length ds + 16" "1 \<le> length ds" using d(3) by (auto simp: Suc_le_eq)
  moreover have "bs ! (length bs - 2) = last ds"
    using s calculation d(3) by (simp add: nth_append nth_Cons' last_conv_nth)
  ultimately show "17 \<le> length bs \<and> bs ! 14 = 0x2E \<and> last bs = 0x5A \<and> list_all is_ascii_digit (take (length bs - 1 - 15) (drop 15 bs))
     \<and> bs ! (length bs - 2) \<noteq> 0x30"
    using s d(4,5) by (simp add: nth_append)
qed

text \<open>The format fixes the seconds and the presence of a fraction.\<close>

lemma gen_time_format_iff:
  "gen_time_format bs s frac \<longleftrightarrow> s = take 14 bs \<and>
     (if frac then 17 \<le> length bs \<and> bs ! 14 = 0x2E \<and> last bs = 0x5A
          \<and> list_all is_ascii_digit (take (length bs - 1 - 15) (drop 15 bs)) \<and> bs ! (length bs - 2) \<noteq> 0x30
      else length bs = 15 \<and> bs ! 14 = 0x5A)"
proof (cases frac)
  case True
  have "s = take 14 bs" if "gen_time_format bs s True" using that by (auto simp: gen_time_format_def)
  with True fraction_iff [of bs] show ?thesis by auto
next
  case False
  have "bs = take 14 bs @ [0x5A]" if "length bs = 15" "bs ! 14 = 0x5A"
    using that take_Suc_conv_app_nth [of 14 bs] by simp
  with False show ?thesis by (auto simp: gen_time_format_def nth_append)
qed

lemma gen_time_parts_iff:
  "gen_time_parts T info = Inr (t, frac) \<longleftrightarrow>
     (\<exists>s. gen_time_format (ti_gen_time_der info) s frac \<and> gtime_from_der T (encode_tlv 0x18 (s @ [0x5A])) = Some t)"
proof -
  define bs where "bs = ti_gen_time_der info"
  have ne: "bs ! 14 \<noteq> 0x2E" if "bs ! 14 = 0x5A" using that by simp
  have "gen_time_parts T info = Inr (t, frac) \<longleftrightarrow>
      gen_time_format bs (take 14 bs) frac \<and> gtime_from_der T (encode_tlv 0x18 (take 14 bs @ [0x5A])) = Some t"
    unfolding gen_time_format_iff gen_time_parts_def Let_def bs_def [symmetric]
    by (cases frac) (use ne in \<open>auto simp: result_simps split: if_splits\<close>)
  then show ?thesis unfolding bs_def by (auto simp: gen_time_format_iff)
qed

text \<open>The time a TSTInfo states: whole seconds, and whether there is a fraction.\<close>

definition gen_time_is :: "tlib \<Rightarrow> tst_info \<Rightarrow> datetime \<Rightarrow> bool \<Rightarrow> bool" where
  "gen_time_is T info t frac \<longleftrightarrow>
     (\<exists>s. gen_time_format (ti_gen_time_der info) s frac \<and> gtime_from_der T (encode_tlv 0x18 (s @ [0x5A])) = Some t)"

lemma gen_time_is_iff: "gen_time_is T info t frac \<longleftrightarrow> gen_time_parts T info = Inr (t, frac)"
  by (simp add: gen_time_is_def gen_time_parts_iff)

end
