(* ===== verification/Token_Facts.thy ===== *)
theory Token_Facts
  imports Tsa_Client Path_Validation Tst_Facts
begin

section \<open>What a timestamp token is worth\<close>

text \<open>
  Specifications and their lemmas: the signature hash agrees with the digest of the attributes; what a
  signing-certificate attribute says, the profile of a TSA, the naming of the signer and the time within its
  validity, and from these the authentic token; the walk that orders the certificates of a token.
\<close>

subsection \<open>The hash of the CMS signature\<close>

lemma pss_strict_hash:
  assumes "verify_rsa_pss_signature_strict K m sig spki params = Inr a"
  shows "\<exists>n. backend_accepts K (RsaPssWithSalt (to_hash_algorithm a) n (SoftwareKey KRsa spki)) m sig"
proof -
  from assms obtain h n where "(case a of
             Sha256 \<Rightarrow> Inr HSha256
           | Sha384 \<Rightarrow> Inr HSha384
           | Sha512 \<Rightarrow> Inr HSha512
           | other \<Rightarrow> Inl (UnsupportedAlgorithm (UnsPssDigest other))) = Inr h"
      "verify_with_backend K m sig spki KRsa (SRsaPss h) (Some n) = Inr ()"
    unfolding verify_rsa_pss_signature_strict_def Let_def and_then_Inr_iff if_err_Inr_iff by auto
  then show ?thesis by (cases a) (auto simp: verify_with_backend_iff)
qed

lemma combined_oid_eqs:
  "combined_oid_digest SHA_256_WITH_RSA_ENCRYPTION = Some Sha256" "combined_oid_digest ECDSA_WITH_SHA_256 = Some Sha256"
  "combined_oid_digest SHA_384_WITH_RSA_ENCRYPTION = Some Sha384" "combined_oid_digest ECDSA_WITH_SHA_384 = Some Sha384"
  "combined_oid_digest SHA_512_WITH_RSA_ENCRYPTION = Some Sha512" "combined_oid_digest ECDSA_WITH_SHA_512 = Some Sha512"
  "combined_oid_digest OID_ED25519 = None" "combined_oid_digest OID_DSA_WITH_SHA256 = None"
  "combined_oid_digest OID_RSASSA_PSS = None" "combined_oid_digest OID_RSA_ENCRYPTION = None"
  "combined_oid_digest OID_EC_PUBLIC_KEY = None"
  by (simp_all add: combined_oid_digest_def verify_oids OID_RSA_ENCRYPTION_def)

lemma resolve_cms_oid_range:
  "resolve_cms_oid oid d = Inr r \<Longrightarrow> combined_oid_digest r = Some d \<or> r = oid \<and> combined_oid_digest r = None"
  by (cases d; cases "combined_oid_digest oid") (auto simp: resolve_cms_oid_def combined_oid_eqs split: if_splits)

lemma combined_oid_table:
  "(r, h) \<in> set rsa_table \<Longrightarrow> \<not> is_weak_signature_oid r \<Longrightarrow> \<exists>d. combined_oid_digest r = Some d \<and> h = to_hash_algorithm d"
  "(r, eh) \<in> set ecdsa_table \<Longrightarrow> \<not> is_weak_signature_oid r \<Longrightarrow> ecdsa_pair c eh = Some (c, h) \<Longrightarrow>
     \<exists>d. combined_oid_digest r = Some d \<and> h = to_hash_algorithm d"
proof -
  show "\<exists>d. combined_oid_digest r = Some d \<and> h = to_hash_algorithm d"
    if "(r, h) \<in> set rsa_table" "\<not> is_weak_signature_oid r"
  proof -
    from that have "(r, h) \<in> {(SHA_256_WITH_RSA_ENCRYPTION, HSha256), (SHA_384_WITH_RSA_ENCRYPTION, HSha384),
        (SHA_512_WITH_RSA_ENCRYPTION, HSha512)}"
      by (auto simp: rsa_table_def is_weak_signature_oid_def)
    then show ?thesis by (elim insertE) (simp_all add: combined_oid_eqs)
  qed
  show "\<exists>d. combined_oid_digest r = Some d \<and> h = to_hash_algorithm d"
    if "(r, eh) \<in> set ecdsa_table" "\<not> is_weak_signature_oid r" and p: "ecdsa_pair c eh = Some (c, h)"
  proof -
    from that have "(r, eh) \<in> {(ECDSA_WITH_SHA_256, EcSha256), (ECDSA_WITH_SHA_384, EcSha384), (ECDSA_WITH_SHA_512, EcSha512)}"
      by (auto simp: ecdsa_table_def is_weak_signature_oid_def)
    then show ?thesis using p by (elim insertE) (cases c; simp add: combined_oid_eqs)+
  qed
qed

lemma denotes_hash:
  assumes "denotes K spki alg v" "\<not> is_weak_signature_oid (alg_oid alg)" "alg_oid alg \<noteq> OID_RSASSA_PSS"
  shows "(\<exists>d. combined_oid_digest (alg_oid alg) = Some d \<and> verifier_hash v = Some (to_hash_algorithm d))
    \<or> alg_oid alg = OID_ED25519 \<and> verifier_hash v = None
    \<or> alg_oid alg = OID_DSA_WITH_SHA256 \<and> verifier_hash v = Some HSha256"
  using assms
proof cases
  case (denotes_rsa h)
  with combined_oid_table(1) assms(2) show ?thesis by fastforce
next
  case (denotes_ecdsa eh key_alg params curve_oid c h)
  with combined_oid_table(2) assms(2) show ?thesis by fastforce
qed (use assms in \<open>auto simp: is_weak_signature_oid_def\<close>)

lemma verify_cms_signature_hash:
  assumes "verify_cms_signature K m sig spki alg d = Inr ()"
  shows "\<exists>v. backend_accepts K v m sig \<and> (\<exists>a. verifier_key v = SoftwareKey a spki)
    \<and> (verifier_hash v = Some (to_hash_algorithm d) \<or> alg_oid alg = OID_ED25519 \<and> verifier_hash v = None
       \<or> alg_oid alg = OID_DSA_WITH_SHA256 \<and> verifier_hash v = Some HSha256)"
proof (cases "alg_oid alg = OID_RSASSA_PSS")
  case True
  with assms pss_strict_hash show ?thesis
    by (fastforce simp: verify_cms_signature_def verify_pss_signature_def result_simps)
next
  case False
  with assms obtain r where r: "resolve_cms_oid (alg_oid alg) d = Inr r" "verify_signature_by_oid K m sig spki r = Inr ()"
    by (auto simp: verify_cms_signature_def result_simps)
  note range = resolve_cms_oid_range [OF r(1)]
  with False have ne: "r \<noteq> OID_RSASSA_PSS" by (auto simp: combined_oid_eqs)
  let ?alg = "\<lparr>alg_oid = r, alg_parameters = None\<rparr>"
  from r(2) ne dispatch_iff [of ?alg K m sig spki policy_default]
  obtain v where v: "denotes K spki ?alg v" "backend_accepts K v m sig" "\<not> is_weak_signature_oid r"
    by (auto simp: verify_signature_by_oid_def policy_default_def policy_strict_def)
  have key: "\<exists>a. verifier_key v = SoftwareKey a spki" using v(1) by cases auto
  from denotes_hash [OF v(1)] v(3) ne range key v(2) combined_oid_eqs(7,8)
  show ?thesis by auto
qed

subsection \<open>Authentic tokens\<close>

text \<open>The one value of the one attribute with the identifier.\<close>

definition the_attribute :: "cms_attribute list \<Rightarrow> oid \<Rightarrow> any \<Rightarrow> bool" where
  "the_attribute attrs oid v \<longleftrightarrow> (\<exists>a. filter (\<lambda>attr. ca_oid attr = oid) attrs = [a] \<and> ca_values a = [v])"

lemma case_single_Inr:
  "(case xs of [] \<Rightarrow> Inl a | x # ys \<Rightarrow> (case ys of [] \<Rightarrow> f x | y # zs \<Rightarrow> Inl (b x y zs))) = Inr r \<longleftrightarrow>
     (\<exists>x. xs = [x] \<and> f x = Inr r)"
  by (auto split: list.splits)

lemma find_attribute_Some: "find_attribute attrs oid = Inr (Some v) \<longleftrightarrow> the_attribute attrs oid v"
  by (auto simp: find_attribute_def the_attribute_def split: list.splits)

text \<open>A certificate is the one a binding identifies.\<close>

definition binds :: "lib \<Rightarrow> tlib \<Rightarrow> ess_binding \<Rightarrow> certificate \<Rightarrow> bool" where
  "binds L T b cert \<longleftrightarrow>
     (\<exists>der. cert_to_der L cert = Some der \<and> hash_bytes T (eb_digest b) der = Some (eb_hash b))
     \<and> (\<forall>iss serial. eb_issuer_serial b = Some (iss, serial) \<longrightarrow> issuer cert = iss \<and> serial_number cert = serial)"

lemma ess_matches_True: "ess_matches L T b cert = Inr True \<longleftrightarrow> binds L T b cert"
  by (auto simp: ess_matches_def binds_def result_simps split: option.splits)

text \<open>What a signing-certificate attribute says: one certificate ID, in version 2 with an optional
  algorithm, the hash of the length of its algorithm, and an optional issuer and serial number.\<close>

definition ess_algorithm :: "tlib \<Rightarrow> bool \<Rightarrow> bytes \<Rightarrow> hash_algorithm \<Rightarrow> bool" where
  "ess_algorithm T v2 alg h \<longleftrightarrow>
     (if alg = [] then h = (if v2 then HSha256 else HSha1)
      else v2 \<and> (\<exists>body a. alg = encode_tlv 0x30 body \<and> tst_enc T 0x30 body \<and> dec_algid T body = Some a
        \<and> alg_parameters a \<in> {None, Some (Any 0x05 [])}
        \<and> (if alg_oid a = [1, 3, 14, 3, 2, 26] then h = HSha1
           else \<exists>d. digest_from_oid (alg_oid a) = Some d \<and> h = to_hash_algorithm d)))"

definition ess_issuer :: "tlib \<Rightarrow> bytes \<Rightarrow> (name \<times> bytes) option \<Rightarrow> bool" where
  "ess_issuer T rest b \<longleftrightarrow>
     (if rest = [] then b = None
      else \<exists>names serial_der iss serial. rest = encode_tlv 0x30 (encode_tlv 0x30 names @ encode_tlv 0x02 serial_der)
        \<and> tst_enc T 0x30 (encode_tlv 0x30 names @ encode_tlv 0x02 serial_der) \<and> tst_enc T 0x30 names
        \<and> tst_enc T 0x02 serial_der
        \<and> dec_general_names T names = Some [DirectoryName iss] \<and> dec_serial T serial_der = Some serial
        \<and> b = Some (iss, serial))"

definition ess_says :: "crypto \<Rightarrow> tlib \<Rightarrow> any \<Rightarrow> bool \<Rightarrow> ess_binding \<Rightarrow> bool" where
  "ess_says K T value v2 b \<longleftrightarrow>
     (\<exists>cid alg rest. any_to_der K value = Some (encode_tlv 0x30 (encode_tlv 0x30 (encode_tlv 0x30 cid)))
        \<and> cid = alg @ encode_tlv 0x04 (eb_hash b) @ rest \<and> tst_enc T 0x04 (eb_hash b)
        \<and> ess_algorithm T v2 alg (eb_digest b) \<and> ess_hash_length (eb_digest b) = Some (length (eb_hash b))
        \<and> ess_issuer T rest (eb_issuer_serial b))"

lemma ess_hash_algorithm_Inr:
  assumes "ess_hash_algorithm T v2 pos = Inr (h, rest)"
  shows "\<exists>alg. pos = alg @ rest \<and> ess_algorithm T v2 alg h"
proof (cases "v2 \<and> pos \<noteq> [] \<and> hd pos = 0x30")
  case True
  with assms obtain body a where b: "pos = encode_tlv 0x30 body @ rest" "tst_enc T 0x30 body" "dec_algid T body = Some a"
      "alg_parameters a \<in> {None, Some (Any 0x05 [])}"
      "if alg_oid a = [1, 3, 14, 3, 2, 26] then h = HSha1 else \<exists>d. digest_from_oid (alg_oid a) = Some d \<and> h = to_hash_algorithm d"
    unfolding ess_hash_algorithm_def oid_to_digest_algorithm_def
    by (auto simp: and_then_Inr_iff ok_or_Inr_iff parse_tst_field_Inr is_null_def split: if_splits option.splits)
  from True have "v2" by simp
  then have "ess_algorithm T v2 (encode_tlv 0x30 body) h"
    unfolding ess_algorithm_def if_not_P [OF encode_tlv_hd(1)]
    by (intro conjI exI [of _ body] exI [of _ a] refl b(2-5))
  with b(1) show ?thesis by blast
next
  case False
  with assms have "rest = pos" "ess_algorithm T v2 [] h" by (auto simp: ess_hash_algorithm_def ess_algorithm_def)
  then show ?thesis by auto
qed

lemma ess_issuer_serial_Inr: "ess_issuer_serial T rest = Inr b \<Longrightarrow> ess_issuer T rest b"
  unfolding ess_issuer_serial_def ess_issuer_def
  by (auto simp: and_then_Inr_iff ok_or_Inr_iff parse_tst_field_Inr split: if_splits list.splits general_name.splits)

lemma parse_ess_binding_says:
  assumes "parse_ess_binding K T value v2 = Inr b"
  shows "ess_says K T value v2 b"
proof -
  from assms obtain cid h pos hash rest iss where
    "any_to_der K value = Some (encode_tlv 0x30 (encode_tlv 0x30 (encode_tlv 0x30 cid)))"
    and alg: "ess_hash_algorithm T v2 cid = Inr (h, pos)" and "pos = encode_tlv 0x04 hash @ rest" "tst_enc T 0x04 hash"
      "ess_hash_length h = Some (length hash)" and iss: "ess_issuer_serial T rest = Inr iss"
    and "b = \<lparr>eb_digest = h, eb_hash = hash, eb_issuer_serial = iss\<rparr>"
    unfolding parse_ess_binding_def and_then_Inr_iff if_err_Inr_iff ok_or_Inr_iff case_prod_beta
    by (auto simp: parse_tst_field_Inr)
  with ess_hash_algorithm_Inr [OF alg] ess_issuer_serial_Inr [OF iss] show ?thesis
    unfolding ess_says_def by auto
qed

text \<open>Each signing-certificate attribute there is says a binding that identifies the certificate, and
  there is one.\<close>

definition bound_by_attributes :: "lib \<Rightarrow> crypto \<Rightarrow> tlib \<Rightarrow> cms_attribute list \<Rightarrow> certificate \<Rightarrow> bool" where
  "bound_by_attributes L K T attrs cert \<longleftrightarrow>
     (\<forall>v. the_attribute attrs ID_SIGNING_CERTIFICATE v \<longrightarrow> (\<exists>b. ess_says K T v False b \<and> binds L T b cert))
     \<and> (\<forall>v. the_attribute attrs ID_SIGNING_CERTIFICATE_V2 v \<longrightarrow> (\<exists>b. ess_says K T v True b \<and> binds L T b cert))
     \<and> (\<exists>v. the_attribute attrs ID_SIGNING_CERTIFICATE v \<or> the_attribute attrs ID_SIGNING_CERTIFICATE_V2 v)"

lemma optional_binding_says:
  assumes "optional_binding K T attrs oid v2 = Inr bs"
  shows "(\<forall>v. the_attribute attrs oid v \<longrightarrow> (\<exists>b\<in>set bs. ess_says K T v v2 b))
    \<and> (bs \<noteq> [] \<longrightarrow> (\<exists>v. the_attribute attrs oid v))"
proof -
  from assms obtain found where f: "find_attribute attrs oid = Inr found"
      "(case found of Some v \<Rightarrow> and_then (parse_ess_binding K T v v2) (\<lambda>b. Inr [b]) | None \<Rightarrow> Inr []) = Inr bs"
    unfolding optional_binding_def and_then_Inr_iff by auto
  show ?thesis
  proof (cases found)
    case None
    with f show ?thesis by (simp add: find_attribute_Some [symmetric])
  next
    case (Some w)
    with f obtain b where "parse_ess_binding K T w v2 = Inr b" "bs = [b]" by (auto simp: and_then_Inr_iff)
    with f(1) Some parse_ess_binding_says show ?thesis by (simp add: find_attribute_Some [symmetric])
  qed
qed

lemma bound_by_attributes:
  assumes "signing_certificate_bindings K T attrs = Inr bs" "\<forall>b\<in>set bs. binds L T b cert"
  shows "bound_by_attributes L K T attrs cert"
proof -
  from assms(1) obtain bs1 bs2 where b: "optional_binding K T attrs ID_SIGNING_CERTIFICATE False = Inr bs1"
      "optional_binding K T attrs ID_SIGNING_CERTIFICATE_V2 True = Inr bs2" "bs = bs1 @ bs2" "bs \<noteq> []"
    unfolding signing_certificate_bindings_def and_then_Inr_iff if_err_Inr_iff by auto
  with optional_binding_says [OF b(1)] optional_binding_says [OF b(2)] assms(2) show ?thesis
    unfolding bound_by_attributes_def by (intro conjI) (fastforce, fastforce, auto)
qed

lemma all_bindings_match_True: "all_bindings_match L T cert bs = Inr True \<longleftrightarrow> (\<forall>b\<in>set bs. binds L T b cert)"
proof (induction bs)
  case (Cons b bs)
  then show ?case by (auto simp: and_then_Inr_iff ess_matches_True [symmetric] split: if_splits)
qed simp

lemma find_signer_Some:
  "find_signer L T sid bs certs = Inr (Some cert) \<Longrightarrow>
     cert \<in> set certs \<and> signer_identifier_matches sid cert \<and> (\<forall>b\<in>set bs. binds L T b cert)"
  by (induction certs) (auto simp: and_then_Inr_iff all_bindings_match_True [symmetric] split: if_splits)

text \<open>The TSA profile of RFC 3161: one critical extended key usage, for timestamping alone; not a CA; a
  key usage that permits signing.\<close>

definition may_sign_timestamps :: "lib \<Rightarrow> certificate \<Rightarrow> bool" where
  "may_sign_timestamps L cert \<longleftrightarrow>
     (let usages = filter (\<lambda>e. extn_id e = KEY_USAGE_OID) (case extensions cert of None \<Rightarrow> [] | Some es \<Rightarrow> es) in
      usages = [] \<or> (\<exists>e unused raw. usages = [e] \<and> bit_string_from_der L (extn_value e) = Some (unused, raw)
        \<and> raw \<noteq> [] \<and> last raw AND (push_bit unused 1 - 1) = 0 \<and> (named_bit raw 0 \<or> named_bit raw 1)))"

definition tsa_profile :: "lib \<Rightarrow> tlib \<Rightarrow> certificate \<Rightarrow> bool" where
  "tsa_profile L T cert \<longleftrightarrow>
     (\<exists>exts e. extensions cert = Some exts \<and> filter (\<lambda>e. extn_id e = EKU_OID) exts = [e] \<and> critical e
        \<and> eku_oids_from_der T (extn_value e) = Some [ID_KP_TIME_STAMPING]
        \<and> (filter (\<lambda>e. extn_id e = BASIC_CONSTRAINTS_OID) exts = []
           \<or> (\<exists>bc n. filter (\<lambda>e. extn_id e = BASIC_CONSTRAINTS_OID) exts = [bc]
                \<and> parse_basic_constraints (extn_value bc) = Inr (False, n))))
     \<and> may_sign_timestamps L cert"

lemma may_sign_timestamps_iff: "may_sign_timestamps L cert \<longleftrightarrow> require_timestamp_signing_key_usage L cert = Inr ()"
  unfolding may_sign_timestamps_def require_timestamp_signing_key_usage_def Let_def
  by (auto simp: result_simps signing_bits split: list.splits)

lemma tsa_profile_iff:
  "tsa_profile L T cert \<longleftrightarrow> require_timestamping_eku T cert = Inr () \<and> require_not_ca cert = Inr ()
     \<and> require_timestamp_signing_key_usage L cert = Inr ()"
  by (cases "extensions cert")
    (auto simp: tsa_profile_def may_sign_timestamps_iff require_timestamping_eku_def require_not_ca_def result_simps
      split: list.splits)

text \<open>The hash of the signature, tied to the digest of the attributes.\<close>

definition attributes_signed :: "lib \<Rightarrow> crypto \<Rightarrow> tlib \<Rightarrow> signer_info \<Rightarrow> cms_attribute list \<Rightarrow> certificate \<Rightarrow> digest_algorithm \<Rightarrow> bool" where
  "attributes_signed L K T si attrs signer d \<longleftrightarrow>
     (\<exists>m spki v a. attributes_to_der T attrs = Some m \<and> spki_to_der L (subject_public_key_info signer) = Some spki
        \<and> backend_accepts K v m (si_signature si) \<and> verifier_key v = SoftwareKey a spki
        \<and> (verifier_hash v = Some (to_hash_algorithm d)
           \<or> alg_oid (si_signature_algorithm si) = OID_ED25519 \<and> verifier_hash v = None
           \<or> alg_oid (si_signature_algorithm si) = OID_DSA_WITH_SHA256 \<and> verifier_hash v = Some HSha256))"

lemma check_signature_sound:
  assumes "check_signature L K T si attrs signer d = Inr ()"
  shows "attributes_signed L K T si attrs signer d"
proof -
  from assms obtain m spki where "attributes_to_der T attrs = Some m" "spki_to_der L (subject_public_key_info signer) = Some spki"
    and v: "verify_cms_signature K m (si_signature si) spki (si_signature_algorithm si) d = Inr ()"
    unfolding check_signature_def and_then_Inr_iff ok_or_Inr_iff map_err_Inr_iff by blast
  with verify_cms_signature_hash [OF v] show ?thesis
    unfolding attributes_signed_def by (elim exE conjE) (intro exI conjI; assumption)
qed

definition gen_time_valid :: "tlib \<Rightarrow> certificate \<Rightarrow> tst_info \<Rightarrow> bool" where
  "gen_time_valid T signer info \<longleftrightarrow>
     (\<exists>time frac. gen_time_is T info time frac \<and> not_before signer \<le> time
        \<and> (if frac then time < not_after signer else time \<le> not_after signer))"

lemma gen_time_valid_iff: "check_gen_time_within_validity T signer info = Inr () \<longleftrightarrow> gen_time_valid T signer info"
proof (cases "gen_time_parts T info")
  case (Inr p)
  then show ?thesis
    by (cases p; cases "snd p") (auto simp: check_gen_time_within_validity_def gen_time_valid_def gen_time_is_iff)
qed (simp add: check_gen_time_within_validity_def gen_time_valid_def gen_time_is_iff)

text \<open>The tsa field, when there is one, names the signer: its subject or one of its alternative names.\<close>

definition names_signer :: "tlib \<Rightarrow> certificate \<Rightarrow> bytes \<Rightarrow> bool" where
  "names_signer T signer value \<longleftrightarrow>
     (\<exists>name. general_name_from_der T value = Some name
        \<and> (name = DirectoryName (subject signer)
           \<or> (\<exists>exts san names n. extensions signer = Some exts \<and> filter (\<lambda>e. extn_id e = SAN_OID) exts = [san]
                \<and> san_names_from_der T (extn_value san) = Some names \<and> n \<in> set names \<and> san_name_matches name n)))"

definition tsa_named :: "tlib \<Rightarrow> bytes \<Rightarrow> certificate \<Rightarrow> bool" where
  "tsa_named T tst signer \<longleftrightarrow>
     (\<forall>gs w. tst = encode_tlv 0x30 (enc_fields gs) \<and> tst_enc T 0x30 (enc_fields gs)
        \<and> (\<forall>(t, v)\<in>set gs. tst_enc T t v) \<and> map_of gs 0xA0 = Some w \<longrightarrow> names_signer T signer w)"

lemma tsa_name_matches_Inr: "tsa_name_matches T signer value = Inr () \<Longrightarrow> names_signer T signer value"
  unfolding tsa_name_matches_def names_signer_def
  by (auto simp: and_then_Inr_iff ok_or_Inr_iff list_ex_iff split: if_splits list.splits option.splits)

text \<open>The identity check on a sequence of fields is the check of its first tsa field.\<close>

lemma tsa_identity_loop_fields:
  "(\<forall>(t, v)\<in>set gs. tst_enc T t v) \<Longrightarrow> tsa_identity_loop T signer (enc_fields gs) =
     (case map_of gs 0xA0 of None \<Rightarrow> Inr () | Some v \<Rightarrow> tsa_name_matches T signer v)"
proof (induction gs)
  case (Cons g gs)
  obtain t v where g: "g = (t, v)" by (cases g)
  with Cons.prems have "parse_tst_field T (enc_fields (g # gs)) t ''TSTInfo identity'' = Inr (v, enc_fields gs)"
    by (simp add: parse_field_enc)
  with Cons g show ?case
    by (subst tsa_identity_loop.simps) (simp add: encode_tlv_hd)
qed (simp add: tsa_identity_loop.simps)

lemma check_tsa_identity_fields:
  "\<forall>(t, v)\<in>set gs. tst_enc T t v \<Longrightarrow> tst_enc T 0x30 (enc_fields gs) \<Longrightarrow>
     check_tsa_identity T (encode_tlv 0x30 (enc_fields gs)) signer =
       (case map_of gs 0xA0 of None \<Rightarrow> Inr () | Some v \<Rightarrow> tsa_name_matches T signer v)"
  by (simp add: check_tsa_identity_def parse_field_enc tsa_identity_loop_fields)

lemma check_tsa_identity_named:
  assumes "check_tsa_identity T tst signer = Inr ()"
  shows "tsa_named T tst signer"
  unfolding tsa_named_def
proof (intro allI impI)
  fix gs w
  assume a: "tst = encode_tlv 0x30 (enc_fields gs) \<and> tst_enc T 0x30 (enc_fields gs)
      \<and> (\<forall>(t, v)\<in>set gs. tst_enc T t v) \<and> map_of gs 0xA0 = Some w"
  with check_tsa_identity_fields [of gs T signer] assms have "tsa_name_matches T signer w = Inr ()" by simp
  then show "names_signer T signer w" by (rule tsa_name_matches_Inr)
qed

text \<open>A token that is authentic: what its SignedData holds, who signed it and what was signed.\<close>

definition authentic_token ::
  "lib \<Rightarrow> crypto \<Rightarrow> tlib \<Rightarrow> bytes \<Rightarrow> certificate list \<Rightarrow> certificate \<Rightarrow> certificate list \<Rightarrow> tst_info \<Rightarrow> bool" where
  "authentic_token L K T token extra signer embedded info \<longleftrightarrow>
     (\<exists>content sd econtent si attrs d digest_value ct.
        content_info_from_der T token = Some (ID_SIGNED_DATA, content) \<and> signed_data_from_any T content = Some sd
        \<and> sd_econtent_type sd = ID_CT_TST_INFO \<and> sd_econtent sd = Some econtent
        \<and> sd_signer_infos sd = [si] \<and> si_signed_attrs si = Some attrs
        \<and> embedded = collect_certificates sd extra \<and> signer \<in> set embedded
        \<and> signer_identifier_matches (si_sid si) signer
        \<and> bound_by_attributes L K T attrs signer
        \<and> digest_from_oid (alg_oid (si_digest_alg si)) = Some d
        \<and> the_attribute attrs ID_CONTENT_TYPE_ATTR ct \<and> any_as_oid K ct = Some ID_CT_TST_INFO
        \<and> the_attribute attrs ID_MESSAGE_DIGEST_ATTR digest_value
        \<and> any_as_octets T digest_value = hash_bytes T (to_hash_algorithm d) (any_body econtent)
        \<and> any_as_octets T digest_value \<noteq> None
        \<and> attributes_signed L K T si attrs signer d
        \<and> tsa_profile L T signer
        \<and> tst_grammar T (any_body econtent) info
        \<and> tsa_named T (any_body econtent) signer
        \<and> gen_time_valid T signer info)"

lemma open_signed_data_Inr:
  "open_signed_data T token = Inr (sd, tst, si, attrs) \<longleftrightarrow>
     (\<exists>content econtent. content_info_from_der T token = Some (ID_SIGNED_DATA, content)
        \<and> signed_data_from_any T content = Some sd \<and> sd_econtent_type sd = ID_CT_TST_INFO
        \<and> sd_econtent sd = Some econtent \<and> tst = any_body econtent
        \<and> sd_signer_infos sd = [si] \<and> si_signed_attrs si = Some attrs)"
  unfolding open_signed_data_def and_then_Inr_iff ok_or_Inr_iff case_prod_beta if_err_Inr_iff case_single_Inr by auto

lemma select_signer_Inr:
  assumes "select_signer L K T si attrs embedded = Inr signer"
  shows "signer \<in> set embedded \<and> signer_identifier_matches (si_sid si) signer
    \<and> bound_by_attributes L K T attrs signer"
proof -
  from assms obtain bs where bs: "signing_certificate_bindings K T attrs = Inr bs"
      "find_signer L T (si_sid si) bs embedded = Inr (Some signer)"
    unfolding select_signer_def and_then_Inr_iff if_err_Inr_iff ok_or_Inr_iff by auto
  with find_signer_Some [OF bs(2)] bound_by_attributes show ?thesis by simp
qed

lemma verify_token_cms_sound:
  assumes "verify_token_cms L K T token extra = Inr (v, info)"
  shows "authentic_token L K T token extra (vt_signer v) (vt_embedded v) info"
proof -
  from assms obtain sd tst si attrs signer d where
    o: "open_signed_data T token = Inr (sd, tst, si, attrs)"
    and sel: "select_signer L K T si attrs (collect_certificates sd extra) = Inr signer"
    and d: "digest_from_oid (alg_oid (si_digest_alg si)) = Some d"
    and ct: "check_content_type K attrs = Inr ()" and md: "check_message_digest T attrs d tst = Inr ()"
    and sg: "check_signature L K T si attrs signer d = Inr ()"
    and prof: "require_timestamping_eku T signer = Inr ()" "require_not_ca signer = Inr ()"
      "require_timestamp_signing_key_usage L signer = Inr ()"
    and info: "parse_tst_info_body T tst = Inr info" "check_tsa_identity T tst signer = Inr ()"
      "check_gen_time_within_validity T signer info = Inr ()"
    and v: "v = \<lparr>vt_signer = signer, vt_embedded = collect_certificates sd extra\<rparr>"
    unfolding verify_token_cms_def Let_def and_then_Inr_iff ok_or_Inr_iff map_err_Inr_iff case_prod_beta by auto
  from o obtain content econtent where "content_info_from_der T token = Some (ID_SIGNED_DATA, content)"
      "signed_data_from_any T content = Some sd" "sd_econtent_type sd = ID_CT_TST_INFO"
      "sd_econtent sd = Some econtent" "tst = any_body econtent"
      "sd_signer_infos sd = [si]" "si_signed_attrs si = Some attrs"
    unfolding open_signed_data_Inr by blast
  moreover from ct obtain c where "the_attribute attrs ID_CONTENT_TYPE_ATTR c" "any_as_oid K c = Some ID_CT_TST_INFO"
    unfolding check_content_type_def and_then_Inr_iff ok_or_Inr_iff if_err_Inr_iff find_attribute_Some by (metis find_attribute_Some)
  moreover from md obtain a where "the_attribute attrs ID_MESSAGE_DIGEST_ATTR a"
      "any_as_octets T a = hash_bytes T (to_hash_algorithm d) tst" "any_as_octets T a \<noteq> None"
    unfolding check_message_digest_def and_then_Inr_iff ok_or_Inr_iff if_err_Inr_iff by (metis find_attribute_Some option.distinct(1))
  moreover note select_signer_Inr [OF sel]
  moreover note check_signature_sound [OF sg]
  moreover from prof have "tsa_profile L T signer" by (simp add: tsa_profile_iff)
  moreover from info(1,2) have "tst_grammar T tst info" "tsa_named T tst signer"
    by (simp_all add: parse_tst_info_iff check_tsa_identity_named)
  moreover from info(3) have "gen_time_valid T signer info" by (simp add: gen_time_valid_iff)
  ultimately show ?thesis using d unfolding authentic_token_def v
    by (intro exI [of _ content] exI [of _ sd] exI [of _ econtent] exI [of _ si] exI [of _ attrs]
        exI [of _ d] exI [of _ a] exI [of _ c]) simp
qed

subsection \<open>The ordered chain\<close>

lemma choose_issuer_Some:
  assumes "choose_issuer L K policy current cs = Some c"
  shows "c \<in> set cs \<and> ((\<exists>x\<in>set cs. is_ok (verify_certificate_signature_with_policy L K current x policy))
    \<longrightarrow> is_ok (verify_certificate_signature_with_policy L K current c policy))"
proof (cases "find (\<lambda>c. is_ok (verify_certificate_signature_with_policy L K current c policy)) cs")
  case None
  with assms have "c \<in> set cs" by (auto simp: choose_issuer_def split: list.splits)
  with None show ?thesis by (auto simp: find_None_iff)
next
  case (Some x)
  with assms have "x = c" by (simp add: choose_issuer_def)
  with Some show ?thesis by (auto simp: find_Some_iff)
qed

definition chain_ok :: "lib \<Rightarrow> crypto \<Rightarrow> signature_policy \<Rightarrow> certificate list \<Rightarrow> certificate list \<Rightarrow> bool" where
  "chain_ok L K policy embedded chain \<longleftrightarrow>
     (\<forall>i. Suc i < length chain \<longrightarrow> chain ! Suc i \<in> set embedded \<and> subject (chain ! Suc i) = issuer (chain ! i)
        \<and> (\<forall>j\<le>i. \<not> same_tbs (chain ! j) (chain ! Suc i))
        \<and> ((\<exists>x\<in>set embedded. subject x = issuer (chain ! i) \<and> (\<forall>j\<le>i. \<not> same_tbs (chain ! j) x)
              \<and> is_ok (verify_certificate_signature_with_policy L K (chain ! i) x policy))
           \<longrightarrow> is_ok (verify_certificate_signature_with_policy L K (chain ! i) (chain ! Suc i) policy)))"

lemma chain_ok_snoc:
  assumes "chain_ok L K policy embedded chain" "chain \<noteq> []"
    and c: "choose_issuer L K policy (last chain) (chain_candidates chain embedded) = Some c"
  shows "chain_ok L K policy embedded (chain @ [c])"
proof -
  define n where "n = length chain - 1"
  have n: "length chain = Suc n" "last chain = chain ! n" using assms(2) by (auto simp: n_def last_conv_nth)
  have all: "list_ex (\<lambda>e. same_tbs e x) chain \<longleftrightarrow> (\<exists>j\<le>n. same_tbs (chain ! j) x)" for x
    unfolding list_ex_iff using n(1) by (metis in_set_conv_nth less_Suc_eq_le)
  note cs = choose_issuer_Some [OF c, unfolded chain_candidates_def set_filter mem_Collect_eq all n(2)]
  show ?thesis unfolding chain_ok_def
  proof (intro allI impI)
    fix i assume i: "Suc i < length (chain @ [c])"
    show "(chain @ [c]) ! Suc i \<in> set embedded \<and> subject ((chain @ [c]) ! Suc i) = issuer ((chain @ [c]) ! i)
        \<and> (\<forall>j\<le>i. \<not> same_tbs ((chain @ [c]) ! j) ((chain @ [c]) ! Suc i))
        \<and> ((\<exists>x\<in>set embedded. subject x = issuer ((chain @ [c]) ! i) \<and> (\<forall>j\<le>i. \<not> same_tbs ((chain @ [c]) ! j) x)
              \<and> is_ok (verify_certificate_signature_with_policy L K ((chain @ [c]) ! i) x policy))
           \<longrightarrow> is_ok (verify_certificate_signature_with_policy L K ((chain @ [c]) ! i) ((chain @ [c]) ! Suc i) policy))"
    proof (cases "i = n")
      case True
      have "(chain @ [c]) ! j = chain ! j" if "j \<le> n" for j using that n(1) by (simp add: nth_append)
      moreover have "(chain @ [c]) ! Suc n = c" using n(1) by (simp add: nth_append)
      ultimately show ?thesis using cs True by (simp cong: conj_cong) blast
    next
      case False
      with i n(1) have "Suc i < length chain" by simp
      moreover from this have "(chain @ [c]) ! j = chain ! j" if "j \<le> Suc i" for j using that by (simp add: nth_append)
      ultimately show ?thesis using assms(1) unfolding chain_ok_def by simp
    qed
  qed
qed

lemma order_loop_ok:
  "chain_ok L K policy embedded chain \<Longrightarrow> chain \<noteq> [] \<Longrightarrow>
     let r = order_loop L K policy embedded n chain in
     chain_ok L K policy embedded r \<and> hd r = hd chain \<and> r \<noteq> [] \<and> length r \<le> length chain + n"
proof (induction n arbitrary: chain)
  case (Suc n)
  show ?case
  proof (cases "issuer (last chain) = subject (last chain)
      \<or> choose_issuer L K policy (last chain) (chain_candidates chain embedded) = None")
    case True
    with Suc.prems show ?thesis by (auto simp: Let_def)
  next
    case False
    then obtain c where c: "choose_issuer L K policy (last chain) (chain_candidates chain embedded) = Some c" by auto
    from Suc.IH [OF chain_ok_snoc [OF Suc.prems c]] False c Suc.prems(2) show ?thesis by (simp add: Let_def)
  qed
qed (simp add: Let_def)

lemma order_chain_ok:
  "chain_ok L K policy embedded (order_chain L K signer embedded policy)"
  "order_chain L K signer embedded policy \<noteq> []" "hd (order_chain L K signer embedded policy) = signer"
  "length (order_chain L K signer embedded policy) \<le> 17"
  using order_loop_ok [of L K policy embedded "[signer]" 16] by (simp_all add: order_chain_def chain_ok_def Let_def)

end
