(* ===== verification/Timestamping.thy ===== *)
theory Timestamping
  imports Token_Facts Tst_Facts Crl_Client
begin

section \<open>Timestamping: what a verified token and a pool answer are worth\<close>

text \<open>
  The properties of the timestamp component as a whole. A token that verifies is authentic, answers the
  request and, with a trust store, has a signer whose chain ends in it; the hash of its signature is the
  one of its digest attribute; the certificates are put in order by a walk that ends by itself; the client
  returns only tokens for the nonce and the hash it has just sent, and the pool the first of them.
\<close>

subsection \<open>Agreement with the request\<close>

lemma check_tst_info_matches_iff:
  "check_tst_info_matches info h n d = Inr () \<longleftrightarrow>
     ti_message_hash info = h \<and> ti_hash_algorithm info = d \<and> (n = None \<or> ti_nonce info = n)"
  by (auto simp: check_tst_info_matches_def split: option.splits)

lemma check_tst_policy_iff: "check_tst_policy actual expected = Inr () \<longleftrightarrow> expected = None \<or> actual = expected"
  by (auto simp: check_tst_policy_def split: option.splits)

text \<open>The time at which the chain of a token is checked.\<close>

definition token_time :: "tlib \<Rightarrow> tst_info \<Rightarrow> datetime option \<Rightarrow> datetime \<Rightarrow> bool \<Rightarrow> bool" where
  "token_time T info validation_time t frac \<longleftrightarrow>
     (case validation_time of Some t' \<Rightarrow> t = t' \<and> \<not> frac | None \<Rightarrow> gen_time_is T info t frac)"

definition timestamp_trusted ::
  "bool \<Rightarrow> lib \<Rightarrow> crypto \<Rightarrow> tlib \<Rightarrow> trust_store \<Rightarrow> datetime option \<Rightarrow> certificate \<Rightarrow> certificate list \<Rightarrow> tst_info \<Rightarrow> bool" where
  "timestamp_trusted ltv L K T s validation_time signer embedded info \<longleftrightarrow>
     (\<exists>t frac anchor. token_time T info validation_time t frac
        \<and> trusted_path ltv L K s (order_chain L K signer embedded (ts_signature_policy s)) (Some t)
            (if ltv then Some TimestampSigner else None) frac anchor)"

lemma token_chain_trusted:
  assumes "and_then (case validation_time of Some t \<Rightarrow> Inr t | None \<Rightarrow> gen_time_datetime T info) (\<lambda>effective_time.
           and_then (case validation_time of
               Some _ \<Rightarrow> Inr False
             | None \<Rightarrow> and_then (gen_time_parts T info) (\<lambda>p. Inr (snd p))) (\<lambda>positive_fraction.
           and_then (map_err (\<lambda>e. VerificationFailed (MsgTrust ''TSA certificate chain validation failed'' e))
             (verify_timestamp_chain ltv L K s (order_chain L K signer embedded (ts_signature_policy s))
               effective_time positive_fraction)) (\<lambda>_. Inr ()))) = Inr ()"
  shows "timestamp_trusted ltv L K T s validation_time signer embedded info"
proof -
  from assms obtain t frac anchor where "token_time T info validation_time t frac"
    and "verify_timestamp_chain ltv L K s (order_chain L K signer embedded (ts_signature_policy s)) t frac = Inr anchor"
    unfolding and_then_Inr_iff map_err_Inr_iff token_time_def gen_time_datetime_def gen_time_is_iff
    by (cases validation_time) (auto simp: and_then_Inr_iff)
  then show ?thesis
    unfolding timestamp_trusted_def verify_timestamp_chain_def using verify_chain_inner_trusted by blast
qed

text \<open>C3: A token that verifies is authentic: one signer, named and hash-bound by the signed attributes,
  with the TSA profile and valid at genTime, has signed the digest of exactly this TSTInfo. It answers the
  request: same hash, same algorithm and, when a nonce was sent, the same nonce. With a trust store the
  ordered chain of the signer leads to one of its anchors, at the given time or else at genTime.\<close>

theorem verify_timestamp_token_sound:
  assumes "verify_timestamp_token ltv L K T token h d nonce store validation_time extra = Inr info"
  shows "\<exists>signer embedded. authentic_token L K T token extra signer embedded info
    \<and> ti_message_hash info = h \<and> ti_hash_algorithm info = d \<and> (nonce = None \<or> ti_nonce info = nonce)
    \<and> (case store of None \<Rightarrow> True
       | Some s \<Rightarrow> timestamp_trusted ltv L K T s validation_time signer embedded info)"
proof -
  from assms obtain v where v: "verify_token_cms L K T token extra = Inr (v, info)"
    and m: "check_tst_info_matches info h nonce d = Inr ()"
    and s: "store = Some s \<Longrightarrow> timestamp_trusted ltv L K T s validation_time (vt_signer v) (vt_embedded v) info" for s
    unfolding verify_timestamp_token_def and_then_Inr_iff case_prod_beta
    by (cases store) (auto dest: token_chain_trusted)
  show ?thesis
    by (rule exI [of _ "vt_signer v"], rule exI [of _ "vt_embedded v"])
      (use verify_token_cms_sound [OF v] m s in \<open>auto simp: check_tst_info_matches_iff split: option.splits\<close>)
qed

subsection \<open>Parsing\<close>

text \<open>C12: The TSTInfo parser accepts exactly its grammar: version 1, a policy, a message
  imprint of the length of its algorithm, a serial number, a time and optional fields, each at most once
  and in the order of the standard, with nothing after them; and it returns those fields.\<close>

theorem tst_info_grammar: "parse_tst_info_body T der = Inr info \<longleftrightarrow> tst_grammar T der info"
  by (rule parse_tst_info_iff)

text \<open>C31: The response parser accepts exactly its grammar: one sequence of a status information and
  an optional token; a status, then optional texts, each valid UTF-8 and at least one of them, then optional
  failure bits with zero padding, each at most once and nothing else. It returns the first text, and the
  token as it is encoded.\<close>

theorem timestamp_response_grammar: "parse_timestamp_response T der = Inr r \<longleftrightarrow> response_grammar T der r"
  by (rule parse_timestamp_response_iff)

subsection \<open>The walk that orders the chain\<close>

text \<open>The certificates a chain may still take.\<close>

definition fresh_certs :: "certificate list \<Rightarrow> certificate list \<Rightarrow> certificate list" where
  "fresh_certs embedded chain = filter (\<lambda>c. \<not> list_ex (\<lambda>e. same_tbs e c) chain) embedded"

lemma same_tbs_refl [simp]: "same_tbs c c"
  by (simp add: same_tbs_def)

lemma fresh_certs_snoc:
  assumes "choose_issuer L K policy (last chain) (chain_candidates chain embedded) = Some c"
  shows "length (fresh_certs embedded (chain @ [c])) < length (fresh_certs embedded chain)"
proof -
  from choose_issuer_Some [OF assms] have c: "c \<in> set (fresh_certs embedded chain)"
    by (auto simp: chain_candidates_def fresh_certs_def)
  have "fresh_certs embedded (chain @ [c]) = filter (\<lambda>x. \<not> same_tbs c x) (fresh_certs embedded chain)"
    by (auto simp: fresh_certs_def intro: filter_cong)
  with c show ?thesis by (metis length_filter_less same_tbs_refl)
qed

lemma order_loop_stable:
  "length (fresh_certs embedded chain) \<le> n \<Longrightarrow> length (fresh_certs embedded chain) \<le> m \<Longrightarrow>
     order_loop L K policy embedded n chain = order_loop L K policy embedded m chain"
proof (induction n arbitrary: m chain)
  case 0
  then have "chain_candidates chain embedded = []"
    by (auto simp: fresh_certs_def chain_candidates_def filter_empty_conv)
  then show ?case by (cases m) (simp_all add: choose_issuer_def Let_def)
next
  case (Suc n)
  show ?case
  proof (cases "issuer (last chain) = subject (last chain)
      \<or> choose_issuer L K policy (last chain) (chain_candidates chain embedded) = None")
    case True
    then show ?thesis by (cases m) (auto simp: Let_def)
  next
    case False
    then obtain c where c: "choose_issuer L K policy (last chain) (chain_candidates chain embedded) = Some c" by auto
    note less = fresh_certs_snoc [OF c]
    with Suc.prems(2) obtain k where k: "m = Suc k" by (cases m) auto
    with less Suc.prems have "order_loop L K policy embedded n (chain @ [c]) = order_loop L K policy embedded k (chain @ [c])"
      by (intro Suc.IH) simp_all
    with False c k show ?thesis by (simp add: Let_def)
  qed
qed

text \<open>C24: The walk starts at the signer and has at most seventeen certificates; each step goes
  to an embedded certificate with the issuer's name that is not on the chain yet, and to one that verifies
  the signature whenever there is one.\<close>

theorem order_chain_spec:
  "chain_ok L K policy embedded (order_chain L K signer embedded policy)
   \<and> hd (order_chain L K signer embedded policy) = signer
   \<and> 1 \<le> length (order_chain L K signer embedded policy) \<and> length (order_chain L K signer embedded policy) \<le> 17"
  by (simp add: order_chain_ok Suc_le_eq)

lemma order_loop_extends: "\<exists>ys. order_loop L K policy embedded j chain = chain @ ys"
proof (induction j arbitrary: chain)
  case (Suc j)
  show ?case
  proof (cases "choose_issuer L K policy (last chain) (chain_candidates chain embedded)")
    case (Some c)
    from Suc [of "chain @ [c]"] Some show ?thesis by (auto simp: Let_def)
  qed (simp add: Let_def)
qed simp

text \<open>A limit on the rounds keeps the first certificates of the longer walk.\<close>

lemma order_loop_take:
  "order_loop L K policy embedded k chain = take (length chain + k) (order_loop L K policy embedded (k + j) chain)"
proof (induction k arbitrary: chain)
  case 0
  from order_loop_extends [of L K policy embedded j chain] show ?case by auto
next
  case (Suc k)
  show ?case
  proof (cases "choose_issuer L K policy (last chain) (chain_candidates chain embedded)")
    case (Some c)
    with Suc [of "chain @ [c]"] show ?thesis by (simp add: Let_def)
  qed (simp add: Let_def)
qed

text \<open>C25: The walk ends by itself, also on cycles of cross-certificates: after as many rounds as there
  are embedded certificates no further round adds to it. The chain the code uses is the first seventeen
  certificates of that walk; with at most sixteen embedded certificates it is the whole walk.\<close>

theorem order_chain_terminates:
  assumes "length embedded \<le> n"
  shows "(\<forall>m \<ge> length embedded. order_loop L K policy embedded m [signer] = order_loop L K policy embedded n [signer])
    \<and> order_chain L K signer embedded policy = take 17 (order_loop L K policy embedded n [signer])
    \<and> (length embedded \<le> 16 \<longrightarrow> order_chain L K signer embedded policy = order_loop L K policy embedded n [signer])"
proof -
  have fresh: "length (fresh_certs embedded [signer]) \<le> length embedded" by (simp add: fresh_certs_def)
  have stable: "order_loop L K policy embedded m [signer] = order_loop L K policy embedded n [signer]"
    if "length embedded \<le> m" for m
    using fresh that assms by (intro order_loop_stable) simp_all
  moreover have "order_chain L K signer embedded policy = take 17 (order_loop L K policy embedded n [signer])"
    using stable [of "16 + n"] assms order_loop_take [of L K policy embedded 16 "[signer]" n]
    by (simp add: order_chain_def)
  moreover have "order_chain L K signer embedded policy = order_loop L K policy embedded n [signer]"
    if "length embedded \<le> 16"
    using stable [OF that] by (simp only: order_chain_def)
  ultimately show ?thesis by blast
qed

theorem order_chain_terminates_witness:
  "order_loop toy_lib toy_crypto policy_strict [toy_root, toy_leaf] 1000 [toy_leaf] = [toy_leaf, toy_root]"
proof -
  have "order_chain toy_lib toy_crypto toy_leaf [toy_root, toy_leaf] policy_strict = [toy_leaf, toy_root]"
    by (simp add: order_chain_def numeral_eq_Suc Let_def chain_candidates_def choose_issuer_def toy_root_def toy_leaf_def
        ed_signature_ok same_tbs_def) (simp add: ed_cert_def toy_cert_def toy_name_def)
  moreover have "length [toy_root, toy_leaf] \<le> 1000" "length [toy_root, toy_leaf] \<le> 16" by simp_all
  ultimately show ?thesis
    using order_chain_terminates [of "[toy_root, toy_leaf]" 1000 toy_lib toy_crypto policy_strict toy_leaf] by metis
qed

subsection \<open>The hash of the signature\<close>

text \<open>C16: When a CMS signature of a token is accepted, the backend has accepted it under the
  signer's key, with the hash of the digest attribute. The exceptions are Ed25519, which has no separate
  hash, and the DSA identifier, whose hash is fixed.\<close>

theorem cms_signature_hash_agrees:
  assumes "verify_cms_signature K m sig spki alg d = Inr ()"
  shows "\<exists>v a. backend_accepts K v m sig \<and> verifier_key v = SoftwareKey a spki
    \<and> (verifier_hash v = Some (to_hash_algorithm d) \<or> alg_oid alg = OID_ED25519 \<and> verifier_hash v = None
       \<or> alg_oid alg = OID_DSA_WITH_SHA256 \<and> verifier_hash v = Some HSha256)"
  using verify_cms_signature_hash [OF assms] by blast

lemma cms_dsa_accepted:
  "verify_cms_signature toy_crypto [1] [] [2] \<lparr>alg_oid = OID_DSA_WITH_SHA256, alg_parameters = None\<rparr> d = Inr ()"
  by (simp add: verify_cms_signature_def resolve_cms_oid_def combined_oid_eqs verify_signature_by_oid_def
      verify_signature_by_oid_with_policy_def is_weak_signature_oid_def verify_with_backend_def toy_crypto_def
      verify_oids OID_RSA_ENCRYPTION_def combined_oid_digest_def verify_dsa_def)

text \<open>The code states that a combined identifier whose hash disagrees with the digest
  algorithm is rejected; dsa-with-SHA256 is not among the identifiers it compares, and a signature under
  it is accepted whatever the digest algorithm.\<close>

theorem cms_dsa_hash_unchecked:
  "verify_cms_signature toy_crypto [1] [] [2] \<lparr>alg_oid = OID_DSA_WITH_SHA256, alg_parameters = None\<rparr> Sha512 = Inr ()"
  by (rule cms_dsa_accepted)

theorem cms_signature_hash_agrees_witness:
  "\<exists>v a. backend_accepts toy_crypto v [1] [] \<and> verifier_key v = SoftwareKey a [2] \<and> verifier_hash v = Some HSha256"
  using cms_signature_hash_agrees [OF cms_dsa_accepted [of Sha256]] by (auto simp: verify_oids)

subsection \<open>The client\<close>

lemma read_tsa_chunks_Inr:
  "length b \<le> n \<Longrightarrow> read_tsa_chunks n b cs = Inr r \<longleftrightarrow>
     None \<notin> set cs \<and> r = b @ concat (map the cs) \<and> length r \<le> n"
proof (induction cs arbitrary: b)
  case (Cons c cs)
  then show ?case by (cases c) (auto simp: not_less)
qed auto

lemma tsa_read_response_body_Inr:
  "tsa_read_response_body client r = Inr body \<Longrightarrow>
     None \<notin> set (http_chunks r) \<and> body = concat (map the (http_chunks r)) \<and> length body \<le> tc_max_body_size client"
  by (auto simp: tsa_read_response_body_def read_tsa_chunks_Inr split: if_splits)

text \<open>What the client has on return: a granted response for the nonce it sent.\<close>

definition answers_request ::
  "lib \<Rightarrow> crypto \<Rightarrow> tlib \<Rightarrow> tsa_client \<Rightarrow> bytes \<Rightarrow> u64 \<Rightarrow> bytes \<Rightarrow> bytes \<Rightarrow> bool" where
  "answers_request L K T client h nonce body token \<longleftrightarrow>
     (\<exists>resp signer embedded info. response_grammar T body resp
        \<and> is_success (tr_status resp) \<and> tr_token_der resp = Some token
        \<and> authentic_token L K T token (tc_verification_certs client) signer embedded info
        \<and> ti_message_hash info = h \<and> ti_hash_algorithm info = tc_digest_algorithm client
        \<and> ti_nonce info = Some nonce
        \<and> (tc_policy_oid client = None \<or> ti_policy_oid info = tc_policy_oid client))"

lemma validate_response_sound:
  assumes "validate_timestamp_response_for_policy L K T resp h nonce d extra policy = Inr token"
  shows "is_success (tr_status resp) \<and> tr_token_der resp = Some token
    \<and> (\<exists>signer embedded info. authentic_token L K T token extra signer embedded info
         \<and> ti_message_hash info = h \<and> ti_hash_algorithm info = d \<and> (nonce = None \<or> ti_nonce info = nonce)
         \<and> (policy = None \<or> ti_policy_oid info = policy))"
proof -
  from assms obtain v info where r: "is_success (tr_status resp)" "tr_token_der resp = Some token"
    and v: "verify_token_cms L K T token extra = Inr (v, info)"
    and m: "check_tst_info_matches info h nonce d = Inr ()" "check_tst_policy (ti_policy_oid info) policy = Inr ()"
    unfolding validate_timestamp_response_for_policy_def if_err_Inr_iff and_then_Inr_iff ok_or_Inr_iff case_prod_beta by auto
  with verify_token_cms_sound [OF v] show ?thesis
    unfolding check_tst_info_matches_iff check_tst_policy_iff by blast
qed

lemma receive_token_sound:
  assumes "receive_token L K T client h nonce response = Inr token"
  shows "\<exists>r body. response = Some r \<and> http_success r \<and> None \<notin> set (http_chunks r) \<and> body = concat (map the (http_chunks r))
    \<and> length body \<le> tc_max_body_size client \<and> answers_request L K T client h nonce body token"
proof -
  from assms obtain r body resp where r: "response = Some r" "http_success r" "tsa_read_response_body client r = Inr body"
      "parse_timestamp_response T body = Inr resp"
    and v: "validate_timestamp_response_for_policy L K T resp h (Some nonce) (tc_digest_algorithm client)
      (tc_verification_certs client) (tc_policy_oid client) = Inr token"
    unfolding receive_token_def and_then_Inr_iff ok_or_Inr_iff if_err_Inr_iff by auto
  from validate_response_sound [OF v] r(4) have "answers_request L K T client h nonce body token"
    unfolding answers_request_def parse_timestamp_response_iff by blast
  with tsa_read_response_body_Inr [OF r(3)] r(1,2) show ?thesis by auto
qed

text \<open>What the guard and the request generator have done before a token is received.\<close>

lemma tsa_timestamp_Inr:
  assumes "tsa_timestamp L K T E client h = (Inr token, sent)"
  shows "\<exists>nonce req r. validate_fetch_url (te_resolver E) (tc_url client) = Inr ()
    \<and> \<not> te_guard_timeout E \<and> token_generate_nonce (te_random E) = Inr nonce
    \<and> build_timestamp_request T (tc_digest_algorithm client) h (tc_policy_oid client) (Some nonce) (tc_cert_req client) = Inr req
    \<and> sent = [(tc_url client, req)] \<and> te_post E (tc_url client) req = Some r \<and> http_success r
    \<and> length (concat (map the (http_chunks r))) \<le> tc_max_body_size client
    \<and> answers_request L K T client h nonce (concat (map the (http_chunks r))) token"
proof -
  from assms obtain nonce req where "validate_fetch_url (te_resolver E) (tc_url client) = Inr ()"
      "\<not> te_guard_timeout E" "token_generate_nonce (te_random E) = Inr nonce"
      "build_timestamp_request T (tc_digest_algorithm client) h (tc_policy_oid client) (Some nonce) (tc_cert_req client) = Inr req"
      "sent = [(tc_url client, req)]" and r: "receive_token L K T client h nonce (te_post E (tc_url client) req) = Inr token"
    by (auto simp: tsa_timestamp_def split: if_splits sum.splits)
  with receive_token_sound [OF r] show ?thesis by blast
qed

lemma tsa_timestamp_sent:
  "q \<in> set (snd (tsa_timestamp L K T E client h)) \<Longrightarrow>
     fst q = tc_url client \<and> validate_fetch_url (te_resolver E) (tc_url client) = Inr ()"
  by (auto simp: tsa_timestamp_def split: if_splits sum.splits)

interpretation tsa_requests: guarded_client tc_http_client
  "\<lambda>client (L, K, T, E, h). map fst (snd (tsa_timestamp L K T E client h))" "\<lambda>(L, K, T, E, h). {te_resolver E}"
proof
  fix u client and x :: "lib \<times> crypto \<times> tlib \<times> tsa_env \<times> bytes"
  assume "u \<in> set (case x of (L, K, T, E, h) \<Rightarrow> map fst (snd (tsa_timestamp L K T E client h)))"
  then show "\<exists>R\<in>case x of (L, K, T, E, h) \<Rightarrow> {te_resolver E}. validate_fetch_url R u = Inr ()"
    by (cases x) (auto dest!: tsa_timestamp_sent)
qed

text \<open>C9: A token the client returns comes from the one request it sent, to its own URL and
  after the URL passed the guard; the request carries the hash, the policy and the fresh nonce; the answer
  is the whole body of a successful response within the size limit, it is granted, and its token is
  authentic and for that hash, algorithm, nonce and policy.\<close>

theorem tsa_timestamp_sound:
  assumes "tsa_timestamp L K T E client h = (Inr token, sent)"
  shows "\<exists>nonce req r. validate_fetch_url (te_resolver E) (tc_url client) = Inr ()
    \<and> \<not> te_guard_timeout E \<and> token_generate_nonce (te_random E) = Inr nonce
    \<and> build_timestamp_request T (tc_digest_algorithm client) h (tc_policy_oid client) (Some nonce) (tc_cert_req client) = Inr req
    \<and> sent = [(tc_url client, req)] \<and> te_post E (tc_url client) req = Some r \<and> http_success r
    \<and> length (concat (map the (http_chunks r))) \<le> tc_max_body_size client
    \<and> answers_request L K T client h nonce (concat (map the (http_chunks r))) token"
  by (rule tsa_timestamp_Inr [OF assms])

subsection \<open>The pool\<close>

text \<open>The attempts on all clients, each in its own state of the environment, and the answer they
  determine: the first success, else the error of the last one, with the requests sent so far.\<close>

definition attempts ::
  "lib \<Rightarrow> crypto \<Rightarrow> tlib \<Rightarrow> (nat \<Rightarrow> tsa_env) \<Rightarrow> nat \<Rightarrow> tsa_client list \<Rightarrow> bytes
    \<Rightarrow> ((tsp_error, bytes) result \<times> (rstr \<times> bytes) list) list" where
  "attempts L K T Es k clients h = map (\<lambda>(i, c). tsa_timestamp L K T (Es i) c h) (enumerate k clients)"

definition first_success :: "('e, 'a) result \<Rightarrow> (('e, 'a) result \<times> 'b list) list \<Rightarrow> ('e, 'a) result \<times> 'b list" where
  "first_success none rs =
     (case dropWhile (\<lambda>r. \<not> is_ok (fst r)) rs of
        r # _ \<Rightarrow> (fst r, concat (map snd (takeWhile (\<lambda>r. \<not> is_ok (fst r)) rs)) @ snd r)
      | [] \<Rightarrow> (last (none # map fst rs), concat (map snd rs)))"

lemma first_success_Inr: "first_success none ((Inr x, sent) # rs) = (Inr x, sent)"
  by (simp add: first_success_def)

lemma first_success_Inl:
  "first_success none ((Inl e, sent) # rs) = map_prod id (append sent) (first_success (Inl e) rs)"
  unfolding first_success_def
  by (cases "dropWhile (\<lambda>r. \<not> is_ok (fst r)) rs")
    (simp_all only: dropWhile.simps takeWhile.simps fst_conv snd_conv is_ok.simps not_False_eq_True if_True list.case
      map_prod_simp id_apply list.map concat.simps last_ConsR list.distinct append.simps append_assoc)

text \<open>The pool relies on its clients: what one returns is good, and what it sends is permitted.\<close>

locale token_source =
  fixes ask :: "'i \<Rightarrow> 'c \<Rightarrow> ('e, 'a) result \<times> 'b list"
    and good :: "'c \<Rightarrow> 'a \<Rightarrow> bool"
    and permitted :: "'i \<Rightarrow> 'c \<Rightarrow> 'b \<Rightarrow> bool"
  assumes ask_good: "ask i c = (Inr x, sent) \<Longrightarrow> good c x"
    and ask_permitted: "q \<in> set (snd (ask i c)) \<Longrightarrow> permitted i c q"
begin

lemma fallback_good:
  "first_success (Inl e) (map (\<lambda>(i, c). ask i c) ics) = (Inr x, sent) \<Longrightarrow> \<exists>c\<in>snd ` set ics. good c x"
proof (induction ics arbitrary: e sent)
  case (Cons ic ics)
  obtain i c r s where ic: "ic = (i, c)" "ask i c = (r, s)" by (metis surj_pair)
  show ?case
  proof (cases r)
    case (Inr y)
    with Cons.prems ic ask_good show ?thesis by (auto simp: first_success_Inr)
  next
    case (Inl e')
    with Cons.prems ic have "first_success (Inl e') (map (\<lambda>(i, c). ask i c) ics) = (Inr x, drop (length s) sent)"
      by (cases "first_success (Inl e') (map (\<lambda>(i, c). ask i c) ics)") (auto simp: first_success_Inl)
    with Cons.IH show ?thesis by auto
  qed
qed (simp add: first_success_def)

lemma fallback_permitted:
  "q \<in> set (snd (first_success none (map (\<lambda>(i, c). ask i c) ics))) \<Longrightarrow> \<exists>(i, c)\<in>set ics. permitted i c q"
proof (induction ics arbitrary: none)
  case (Cons ic ics)
  obtain i c r s where ic: "ic = (i, c)" "ask i c = (r, s)" by (metis surj_pair)
  with ask_permitted have s: "q' \<in> set s \<Longrightarrow> permitted i c q'" for q' by (metis snd_conv)
  show ?case
  proof (cases r)
    case (Inr y)
    with Cons.prems ic s show ?thesis by (auto simp: first_success_Inr)
  next
    case (Inl e')
    with Cons.prems ic have "q \<in> set s \<or> q \<in> set (snd (first_success (Inl e') (map (\<lambda>(i, c). ask i c) ics)))"
      by (auto simp: first_success_Inl)
    with Cons.IH [of "Inl e'"] s ic show ?thesis by auto
  qed
qed (simp add: first_success_def)

end

interpretation tsa: token_source "\<lambda>E c. tsa_timestamp L K T E c h"
  "\<lambda>c token. \<exists>nonce body. answers_request L K T c h nonce body token"
  "\<lambda>E c q. fst q = tc_url c \<and> validate_fetch_url (te_resolver E) (tc_url c) = Inr ()" for L K T h
  by unfold_locales (use tsa_timestamp_Inr tsa_timestamp_sent in blast)+

lemma pool_loop_first_success:
  "pool_loop L K T Es k h e clients =
     first_success (Inl (case e of Some e \<Rightarrow> e | None \<Rightarrow> HttpError (Msg ''no TSA clients configured'')))
       (attempts L K T Es k clients h)"
proof (induction clients arbitrary: k e)
  case Nil
  then show ?case by (simp add: attempts_def first_success_def)
next
  case (Cons c cs)
  obtain r sent where t: "tsa_timestamp L K T (Es k) c h = (r, sent)" by fastforce
  with Cons show ?case by (cases r) (simp_all add: attempts_def first_success_Inr first_success_Inl)
qed

text \<open>C30: The pool answers with the token of the first client that succeeds, and no client
  after it is asked; when all fail the error is that of the last one, and a pool without clients has an
  error of its own.\<close>

theorem pool_timestamp_spec:
  "pool_timestamp L K T Es clients h =
     first_success (Inl (HttpError (Msg ''no TSA clients configured''))) (attempts L K T Es 0 clients h)"
  by (simp add: pool_timestamp_def pool_loop_first_success)

lemma attempts_eq:
  "attempts L K T Es k clients h = map (\<lambda>(E, c). tsa_timestamp L K T E c h) (map (\<lambda>(i, c). (Es i, c)) (enumerate k clients))"
  by (simp add: attempts_def case_prod_beta comp_def)

text \<open>A token the pool returns answers the request of one of its clients, with that
  client's nonce and policy, and every request sent on the way went to the URL of a client of the pool
  after that URL had passed the guard.\<close>

theorem pool_token_sound:
  assumes "pool_timestamp L K T Es clients h = (Inr token, sent)"
  shows "(\<exists>c nonce body. c \<in> set clients \<and> answers_request L K T c h nonce body token)
    \<and> list_all (\<lambda>(url, req). \<exists>c i. c \<in> set clients \<and> url = tc_url c
        \<and> validate_fetch_url (te_resolver (Es i)) url = Inr ()) sent"
proof -
  let ?ics = "map (\<lambda>(i, c). (Es i, c)) (enumerate 0 clients)"
  let ?none = "HttpError (Msg ''no TSA clients configured'')"
  have eq: "first_success (Inl ?none) (map (\<lambda>(E, c). tsa_timestamp L K T E c h) ?ics) = (Inr token, sent)"
    using assms by (simp only: pool_timestamp_def pool_loop_first_success attempts_eq option.case)
  have mem: "c \<in> set clients \<and> (\<exists>i. E = Es i)" if "(E, c) \<in> set ?ics" for E c
    using that by (auto simp: enumerate_eq_zip dest: set_zip_rightD)
  from tsa.fallback_good [OF eq] mem have "\<exists>c nonce body. c \<in> set clients \<and> answers_request L K T c h nonce body token"
    by fastforce
  moreover have "\<exists>c i. c \<in> set clients \<and> fst q = tc_url c \<and> validate_fetch_url (te_resolver (Es i)) (fst q) = Inr ()"
    if "q \<in> set sent" for q
    using tsa.fallback_permitted [of q "Inl ?none" L K T h ?ics] that mem unfolding eq by fastforce
  ultimately show ?thesis by (simp add: list_all_iff case_prod_beta)
qed

subsection \<open>Requests\<close>

lemma encode_sequence_raw_eq: "encode_sequence_raw body = encode_tlv 0x30 body"
  by (simp add: encode_sequence_raw_def encode_tlv_def)

lemma integer_body_one: "encode_integer_u64 1 = encode_tlv 0x02 [1]"
proof -
  have "to_be_bytes 1 = [0, 0, 0, 0, 0, 0, 0, 1]" by (simp add: to_be_bytes_def upt_rec)
  then show ?thesis by (simp add: encode_integer_u64_def significant_bytes_def)
qed

text \<open>C29: A request carries its hash in the form the TSTInfo parser reads: the request is one
  sequence of version 1, the imprint, the policy, the nonce and the certificate flag, and the imprint in it
  is read back as the algorithm and the hash that were asked for. The hypotheses say that the encoders of
  the \<open>der\<close> crate write what its decoders read.\<close>

theorem request_imprint_roundtrip:
  assumes "algid_to_der T (digest_algorithm_identifier d) = Some (encode_tlv 0x30 a)" "length a < 1000"
    and "dec_algid T a = Some (digest_algorithm_identifier d)"
    and "octets_to_der T h = Some (encode_tlv 0x04 h)" "length h = output_size d"
    and "any_ref_ok T (encode_tlv 0x30 a)" "any_ref_ok T (encode_tlv 0x04 h)"
    and "policy_der = (case policy of None \<Rightarrow> Some [] | Some p \<Rightarrow> policy_to_der T p)" "policy_der \<noteq> None"
  shows "\<exists>imprint. build_timestamp_request T d h policy nonce cert_req
       = Inr (encode_tlv 0x30 (encode_tlv 0x02 [1] @ encode_tlv 0x30 imprint @ the policy_der
           @ (case nonce of Some n \<Rightarrow> encode_integer_u64 n | None \<Rightarrow> [])
           @ (if cert_req then encode_tlv 0x01 [0xFF] else [])))
     \<and> parse_message_imprint T imprint = Inr (d, h)"
proof -
  have "length h \<le> 64" using assms(5) by (cases d) simp_all
  then have fits: "tst_enc T 0x30 a" "tst_enc T 0x04 h" using assms(2,6,7) by (simp_all add: tst_enc_def tlv_fits_def)
  then have "parse_message_imprint T (encode_tlv 0x30 a @ encode_tlv 0x04 h) = Inr (d, h)"
    using assms(3,5) unfolding parse_message_imprint_iff imprint_grammar_def
    by (intro exI [of _ a] exI [of _ "digest_algorithm_identifier d"])
      (simp add: digest_algorithm_identifier_def digest_from_oid_iff)
  moreover have "build_timestamp_request T d h policy nonce cert_req
       = Inr (encode_tlv 0x30 (encode_tlv 0x02 [1] @ encode_tlv 0x30 (encode_tlv 0x30 a @ encode_tlv 0x04 h) @ the policy_der
           @ (case nonce of Some n \<Rightarrow> encode_integer_u64 n | None \<Rightarrow> [])
           @ (if cert_req then encode_tlv 0x01 [0xFF] else [])))"
    using assms(1,4,8,9)
    by (cases policy; cases nonce) (auto simp: build_timestamp_request_def encode_sequence_from_parts_def
        encode_sequence_raw_eq integer_body_one encode_boolean_def)
  ultimately show ?thesis by blast
qed

subsection \<open>Bindings\<close>

lemma ess_hash_length_table:
  "ess_hash_length h = Some n \<longleftrightarrow>
     (h, n) \<in> {(HSha1, 20), (HSha256, 32), (HSha384, 48), (HSha512, 64), (HSha3_256, 32), (HSha3_384, 48), (HSha3_512, 64)}"
  by (cases h) auto

lemma optional_binding_from:
  assumes "optional_binding K T attrs oid v2 = Inr bs" "b \<in> set bs"
  shows "bs = [b] \<and> (\<exists>v. the_attribute attrs oid v \<and> ess_says K T v v2 b)"
proof -
  from assms obtain v where "find_attribute attrs oid = Inr (Some v)" "parse_ess_binding K T v v2 = Inr b" "bs = [b]"
    by (auto simp: optional_binding_def and_then_Inr_iff split: option.splits)
  with parse_ess_binding_says show ?thesis by (auto simp: find_attribute_Some)
qed

text \<open>C35: The certificate bindings read from signed attributes are well formed: there are one
  or two of them; the hash of each has exactly the length of its algorithm, 20 octets for SHA-1 and 32, 48
  or 64 for the SHA-2 and SHA-3 functions of that size; and each is what the one value of one of the two
  signing-certificate attributes says, in its version.\<close>

theorem ess_bindings_typed:
  assumes "signing_certificate_bindings K T attrs = Inr bs"
  shows "bs \<noteq> [] \<and> length bs \<le> 2 \<and> list_all (\<lambda>b.
      (eb_digest b, length (eb_hash b)) \<in> {(HSha1, 20), (HSha256, 32), (HSha384, 48), (HSha512, 64),
         (HSha3_256, 32), (HSha3_384, 48), (HSha3_512, 64)}
      \<and> (\<exists>v2 v. the_attribute attrs (if v2 then ID_SIGNING_CERTIFICATE_V2 else ID_SIGNING_CERTIFICATE) v
           \<and> ess_says K T v v2 b)) bs"
proof -
  from assms obtain bs1 bs2 where bs: "optional_binding K T attrs ID_SIGNING_CERTIFICATE False = Inr bs1"
      "optional_binding K T attrs ID_SIGNING_CERTIFICATE_V2 True = Inr bs2" "bs = bs1 @ bs2" "bs \<noteq> []"
    unfolding signing_certificate_bindings_def and_then_Inr_iff if_err_Inr_iff by auto
  note from1 = optional_binding_from [OF bs(1)] and from2 = optional_binding_from [OF bs(2)]
  have "length bs1 \<le> 1" "length bs2 \<le> 1" using from1 [of "hd bs1"] from2 [of "hd bs2"] by (cases bs1; cases bs2; simp)+
  moreover have "\<exists>v2 v. the_attribute attrs (if v2 then ID_SIGNING_CERTIFICATE_V2 else ID_SIGNING_CERTIFICATE) v
      \<and> ess_says K T v v2 b" if "b \<in> set bs" for b
  proof (cases "b \<in> set bs1")
    case True
    with from1 show ?thesis by (intro exI [of _ False]) simp
  next
    case False
    with that bs(3) from2 show ?thesis by (intro exI [of _ True]) simp
  qed
  ultimately show ?thesis
    using bs(3,4) unfolding list_all_iff by (auto simp: ess_says_def ess_hash_length_table)
qed

subsection \<open>The unauthenticated reader\<close>

lemma parse_tlv_high_tag:
  assumes "\<not> tlv_fits t v" "length v < 2 ^ 32"
  shows "\<exists>e. parse_tlv_with_rest (encode_tlv t v) = Inl e"
  using assms by (simp add: tlv_fits_def parse_tlv_with_rest_def encode_tlv_def)

text \<open>What \<open>extract_tst_info\<close> makes of the content it finds behind the headers of a ContentInfo and a
  SignedData: an OCTET STRING is parsed as a TSTInfo, anything else is an error.\<close>

lemma extract_tst_info_layout:
  assumes "token = encode_tlv 0x30 (encode_tlv 0x06 ct @ encode_tlv 0xA0 (encode_tlv 0x30 sd))"
    and "sd = encode_tlv 0x02 v @ encode_tlv 0x31 da @ encode_tlv 0x30 (encode_tlv 0x06 ect @ encode_tlv 0xA0 (encode_tlv tag tst)) @ rest"
    and "length token < 2 ^ 32"
  shows "if tag = 0x04 then extract_tst_info T token = parse_tst_info_body T tst
    else \<exists>err. extract_tst_info T token = Inl err"
proof -
  have len: "length b \<le> length (encode_tlv t b)" for t b by (simp add: encode_tlv_def)
  have fits: "tlv_fits t b" if "t \<in> {0x02, 0x04, 0x06, 0x30, 0x31, 0xA0}" "length b \<le> length token" for t b
    using that assms(3) by (auto simp: tlv_fits_def)
  let ?eci = "encode_tlv 0x06 ect @ encode_tlv 0xA0 (encode_tlv tag tst)"
  have "length sd \<le> length token"
    unfolding assms(1) using len [of sd "0x30"] len [of "encode_tlv 0x30 sd" "0xA0"] len [of "encode_tlv 0x06 ct @ encode_tlv 0xA0 (encode_tlv 0x30 sd)" "0x30"] by simp
  moreover from this have "length ?eci \<le> length token" "length v \<le> length token" "length da \<le> length token"
    unfolding assms(2) using len [of v 2] len [of da "0x31"] len [of ?eci "0x30"] by simp_all
  moreover from this have "length ect \<le> length token" "length (encode_tlv tag tst) \<le> length token" "length tst \<le> length token"
    using len [of ect 6] len [of "encode_tlv tag tst" "0xA0"] len [of tst tag] by simp_all
  moreover have "length ct \<le> length token" "length (encode_tlv 0x30 sd) \<le> length token"
      "length (encode_tlv 0x06 ct @ encode_tlv 0xA0 (encode_tlv 0x30 sd)) \<le> length token"
    unfolding assms(1)
    using len [of ct 6] len [of "encode_tlv 0x30 sd" "0xA0"] len [of "encode_tlv 0x06 ct @ encode_tlv 0xA0 (encode_tlv 0x30 sd)" "0x30"] by simp_all
  ultimately have f: "tlv_fits 0x30 (encode_tlv 0x06 ct @ encode_tlv 0xA0 (encode_tlv 0x30 sd))" "tlv_fits 0x06 ct"
      "tlv_fits 0xA0 (encode_tlv 0x30 sd)" "tlv_fits 0x30 sd" "tlv_fits 0x02 v" "tlv_fits 0x31 da" "tlv_fits 0x30 ?eci"
      "tlv_fits 0x06 ect" "tlv_fits 0xA0 (encode_tlv tag tst)"
      and octets: "tag = 0x04 \<Longrightarrow> tlv_fits tag tst" and short: "length tst < 2 ^ 32"
    using assms(3) by (simp_all add: fits)
  show ?thesis
  proof (cases "tlv_fits tag tst")
    case True
    have "extract_tst_info T token
        = (if tag \<noteq> 0x04 then Inl (InvalidResponse (MsgByte ''expected OCTET STRING for eContent'' tag))
           else parse_tst_info_body T tst)"
      unfolding extract_tst_info_def assms(1)
      by (simp add: parse_tlv_encode parse_encode_tlv parse_encode_tlv_exact f(1-4) split del: if_split)
        (simp add: assms(2) parse_encode_tlv parse_encode_tlv_exact f(5-) True split del: if_split)
    then show ?thesis by simp
  next
    case False
    then obtain e where "parse_tlv_with_rest (encode_tlv tag tst) = Inl e"
      using parse_tlv_high_tag short by blast
    moreover have "tag \<noteq> 0x04" using False octets by blast
    ultimately show ?thesis
      unfolding extract_tst_info_def assms(1)
      by (simp add: parse_tlv_encode parse_encode_tlv parse_encode_tlv_exact f(1-4) split del: if_split)
        (simp add: assms(2) parse_encode_tlv parse_encode_tlv_exact f(5-))
  qed
qed

text \<open>C39: For a token that verifies, the unauthenticated reader returns the same TSTInfo as the
  verification when the encapsulated content is an OCTET STRING, as the standard asks, and refuses the token
  when it is anything else, which the verification lets through. The assumptions are that the decoders of
  the \<open>cms\<close> crate read DER, as they document, and that the token is below \<open>2 ^ 32\<close> octets.\<close>

theorem extract_agrees_with_verify:
  assumes verified: "verify_timestamp_token ltv L K T token hash alg nonce store vt extra = Inr info"
    and content_info: "\<And>oid c. content_info_from_der T token = Some (oid, c) \<Longrightarrow>
      \<exists>ct. token = encode_tlv 0x30 (encode_tlv 0x06 ct @ encode_tlv 0xA0 (encode_tlv (any_tag c) (any_body c)))"
    and signed_data: "\<And>c sd e. signed_data_from_any T c = Some sd \<Longrightarrow> sd_econtent sd = Some e \<Longrightarrow>
      any_tag c = 0x30 \<and> (\<exists>v da ect rest. any_body c = encode_tlv 0x02 v @ encode_tlv 0x31 da @
        encode_tlv 0x30 (encode_tlv 0x06 ect @ encode_tlv 0xA0 (encode_tlv (any_tag e) (any_body e))) @ rest)"
    and small: "length token < 2 ^ 32"
  shows "\<exists>content sd e. content_info_from_der T token = Some (ID_SIGNED_DATA, content)
    \<and> signed_data_from_any T content = Some sd \<and> sd_econtent sd = Some e
    \<and> (if any_tag e = 0x04 then extract_tst_info T token = Inr info
       else \<exists>err. extract_tst_info T token = Inl err)"
proof -
  from verified obtain v where "verify_token_cms L K T token extra = Inr (v, info)"
    by (auto simp: verify_timestamp_token_def and_then_Inr_iff)
  from verify_token_cms_sound [OF this] obtain content sd e where
      cms: "content_info_from_der T token = Some (ID_SIGNED_DATA, content)" "signed_data_from_any T content = Some sd"
        "sd_econtent sd = Some e"
      and tst: "parse_tst_info_body T (any_body e) = Inr info"
    unfolding authentic_token_def parse_tst_info_iff by blast
  from content_info [OF cms(1)] obtain ct where
    "token = encode_tlv 0x30 (encode_tlv 0x06 ct @ encode_tlv 0xA0 (encode_tlv (any_tag content) (any_body content)))" by blast
  moreover from signed_data [OF cms(2,3)] obtain v da ect rest where
    "any_tag content = 0x30" "any_body content = encode_tlv 0x02 v @ encode_tlv 0x31 da @
        encode_tlv 0x30 (encode_tlv 0x06 ect @ encode_tlv 0xA0 (encode_tlv (any_tag e) (any_body e))) @ rest" by auto
  ultimately have "if any_tag e = 0x04 then extract_tst_info T token = parse_tst_info_body T (any_body e)
      else \<exists>err. extract_tst_info T token = Inl err"
    using small by (intro extract_tst_info_layout) auto
  with cms tst show ?thesis by (intro exI conjI) auto
qed

subsection \<open>A concrete token\<close>

text \<open>A TSTInfo for nonce 5 and the hash of 32 sevens, in a token of a signer with Ed25519, and decoders
  that read it.\<close>

definition toy_hash :: bytes where "toy_hash = replicate 32 7"

definition toy_tst_fields :: "(u8 \<times> bytes) list" where
  "toy_tst_fields = [(0x02, [1]), (0x06, [1, 2]), (0x30, encode_tlv 0x30 [] @ encode_tlv 0x04 toy_hash), (0x02, [9]),
     (0x18, replicate 14 0x30 @ [0x5A]), (0x02, [5])]"

definition toy_tst :: bytes where "toy_tst = encode_tlv 0x30 (enc_fields toy_tst_fields)"

definition toy_info :: tst_info where
  "toy_info = \<lparr>ti_hash_algorithm = Sha256, ti_message_hash = toy_hash, ti_serial_number = [9],
     ti_gen_time_der = replicate 14 0x30 @ [0x5A], ti_nonce = Some 5, ti_policy_oid = Some [1, 2]\<rparr>"

definition toy_eku :: extension where
  "toy_eku = \<lparr>extn_id = EKU_OID, critical = True,
     extn_value = encode_tlv 0x30 (encode_tlv 0x06 [1, 3, 6, 1, 5, 5, 7, 3, 8])\<rparr>"

definition toy_tsa :: certificate where "toy_tsa = ed_cert 3 1 (Some [toy_eku])"

definition toy_attrs :: "cms_attribute list" where
  "toy_attrs = [\<lparr>ca_oid = ID_CONTENT_TYPE_ATTR, ca_values = [Any 0x06 []]\<rparr>,
     \<lparr>ca_oid = ID_MESSAGE_DIGEST_ATTR, ca_values = [Any 0x04 toy_hash]\<rparr>,
     \<lparr>ca_oid = ID_SIGNING_CERTIFICATE_V2,
      ca_values = [Any 0x30 (encode_tlv 0x30 (encode_tlv 0x30 (encode_tlv 0x30 (encode_tlv 0x04 toy_hash))))]\<rparr>]"

definition toy_si :: signer_info where
  "toy_si = \<lparr>si_sid = IssuerAndSerialNumber (toy_name 1) [3],
     si_digest_alg = \<lparr>alg_oid = digest_oid Sha256, alg_parameters = None\<rparr>, si_signed_attrs = Some toy_attrs,
     si_signature_algorithm = ed_alg, si_signature = [], si_unsigned_attrs = None\<rparr>"

definition toy_signed_data :: signed_data where
  "toy_signed_data = \<lparr>sd_econtent_type = ID_CT_TST_INFO, sd_econtent = Some (Any 0x04 toy_tst),
     sd_certificates = Some [CertificateChoice toy_tsa], sd_signer_infos = [toy_si]\<rparr>"

definition toy_sd_body :: bytes where
  "toy_sd_body = encode_tlv 0x02 [3] @ encode_tlv 0x31 []
     @ encode_tlv 0x30 (encode_tlv 0x06 [1] @ encode_tlv 0xA0 (encode_tlv 0x04 toy_tst)) @ []"

definition toy_token :: bytes where
  "toy_token = encode_tlv 0x30 (encode_tlv 0x06 [2] @ encode_tlv 0xA0 (encode_tlv 0x30 toy_sd_body))"

definition toy_tlib :: tlib where
  "toy_tlib = \<lparr>any_ref_ok = (\<lambda>_. True), any_int_ok = (\<lambda>_. True), dec_u64 = (\<lambda>b. Some (be_loop 0 b)),
     dec_u16 = (\<lambda>_. Some 1), dec_uint_ok = (\<lambda>_. True), dec_int_ok = (\<lambda>_. True), dec_bool_ok = (\<lambda>_. True),
     dec_oid = (\<lambda>b. Some (map unat b)), dec_algid = (\<lambda>_. Some \<lparr>alg_oid = digest_oid Sha256, alg_parameters = None\<rparr>),
     dec_bits = (\<lambda>_. None), dec_extension = (\<lambda>_. None), dec_general_names = (\<lambda>_. None), dec_serial = Some,
     general_name_from_der = (\<lambda>_. None), san_names_from_der = (\<lambda>_. None),
     eku_oids_from_der = (\<lambda>_. Some [ID_KP_TIME_STAMPING]), gtime_from_der = (\<lambda>_. Some 50),
     algid_to_der = (\<lambda>_. Some (encode_tlv 0x30 [])), octets_to_der = (\<lambda>b. Some (encode_tlv 0x04 b)),
     policy_to_der = (\<lambda>b. Some (encode_tlv 0x06 (map of_nat b))),
     content_info_from_der = (\<lambda>b. if b = toy_token then Some (ID_SIGNED_DATA, Any 0x30 toy_sd_body) else None),
     signed_data_from_any = (\<lambda>a. if a = Any 0x30 toy_sd_body then Some toy_signed_data else None), attributes_to_der = (\<lambda>_. Some [1]),
     any_as_octets = (\<lambda>a. Some (any_body a)), hash_bytes = (\<lambda>_ _. Some toy_hash)\<rparr>"

definition toy_tsa_crypto :: crypto where
  "toy_tsa_crypto = toy_crypto\<lparr>any_as_oid := (\<lambda>_. Some ID_CT_TST_INFO)\<rparr>"

lemma toy_tlib_simps [simp]:
  "dec_u64 toy_tlib b = Some (be_loop 0 b)" "dec_int_ok toy_tlib b" "dec_oid toy_tlib b = Some (map unat b)"
  "dec_algid toy_tlib b = Some \<lparr>alg_oid = digest_oid Sha256, alg_parameters = None\<rparr>"
  "eku_oids_from_der toy_tlib b = Some [ID_KP_TIME_STAMPING]" "gtime_from_der toy_tlib b = Some 50"
  "algid_to_der toy_tlib a = Some (encode_tlv 0x30 [])" "policy_to_der toy_tlib p = Some (encode_tlv 0x06 (map of_nat p))"
  "octets_to_der toy_tlib b = Some (encode_tlv 0x04 b)"
  "content_info_from_der toy_tlib b = (if b = toy_token then Some (ID_SIGNED_DATA, Any 0x30 toy_sd_body) else None)"
  "signed_data_from_any toy_tlib v = (if v = Any 0x30 toy_sd_body then Some toy_signed_data else None)" "attributes_to_der toy_tlib as = Some [1]"
  "any_as_octets toy_tlib v = Some (any_body v)" "hash_bytes toy_tlib h b = Some toy_hash"
  by (simp_all add: toy_tlib_def)

lemma toy_enc [simp]: "tst_enc toy_tlib t v \<longleftrightarrow> tlv_fits t v"
  by (simp add: tst_enc_def toy_tlib_def)

lemma toy_any_ref: "any_ref_ok toy_tlib b"
  by (simp add: toy_tlib_def)

lemma toy_hash_length: "length toy_hash = 32"
  by (simp add: toy_hash_def)

lemma toy_fits:
  "length v < 1000 \<Longrightarrow> t \<in> {0x02, 0x04, 0x06, 0x18, 0x30} \<Longrightarrow> tlv_fits t v"
  by (auto simp: tlv_fits_def)

lemma encode_tlv_short: "length v < 128 \<Longrightarrow> encode_tlv t v = t # of_nat (length v) # v"
  by (simp add: encode_tlv_def encode_der_length_def as_u8_def)

lemma toy_token_length: "length toy_token < 100" "length toy_tst < 100"
  by (simp_all add: toy_token_def toy_sd_body_def toy_tst_def toy_tst_fields_def toy_hash_def encode_tlv_short)

lemma toy_tst_info: "parse_tst_info_body toy_tlib toy_tst = Inr toy_info"
proof -
  have imprint: "imprint_grammar toy_tlib (encode_tlv 0x30 [] @ encode_tlv 0x04 toy_hash) Sha256 toy_hash"
    unfolding imprint_grammar_def
    by (rule exI [of _ "[]"], rule exI [of _ "\<lparr>alg_oid = digest_oid Sha256, alg_parameters = None\<rparr>"])
      (simp add: toy_fits toy_hash_def digest_from_oid_iff)
  have opts: "tst_options toy_tlib 0 [(0x02, [5])]"
    by (simp add: tst_options_def tst_rank_def optional_rank_def tst_field_ok_def toy_fits)
  have "tst_grammar toy_tlib toy_tst toy_info"
    unfolding tst_grammar_def
    by (rule exI [of _ "enc_fields toy_tst_fields"], rule exI [of _ "[1]"], rule exI [of _ "[1, 2]"],
        rule exI [of _ "encode_tlv 0x30 [] @ encode_tlv 0x04 toy_hash"], rule exI [of _ "[9]"],
        rule exI [of _ "replicate 14 0x30 @ [0x5A]"], rule exI [of _ "[(0x02, [5])]"], rule exI [of _ "[1, 2]"],
        rule exI [of _ Sha256], rule exI [of _ toy_hash])
      (use imprint opts in \<open>simp add: toy_tst_def toy_tst_fields_def toy_fits toy_info_def tst_nonce_def\<close>,
       simp add: encode_tlv_short toy_hash_def toy_fits)
  then show ?thesis by (simp only: parse_tst_info_iff)
qed

lemma toy_identity: "check_tsa_identity toy_tlib toy_tst cert = Inr ()"
proof -
  have "\<forall>(t, v)\<in>set toy_tst_fields. tst_enc toy_tlib t v" "tst_enc toy_tlib 0x30 (enc_fields toy_tst_fields)"
    by (simp_all add: toy_tst_fields_def toy_fits encode_tlv_short toy_hash_def)
  moreover have "map_of toy_tst_fields 0xA0 = None" by (simp add: toy_tst_fields_def)
  ultimately show ?thesis by (simp add: toy_tst_def check_tsa_identity_fields)
qed

lemma toy_bindings:
  "signing_certificate_bindings toy_tsa_crypto toy_tlib toy_attrs
     = Inr [\<lparr>eb_digest = HSha256, eb_hash = toy_hash, eb_issuer_serial = None\<rparr>]"
proof -
  have len: "length toy_hash = 32" by (simp add: toy_hash_def)
  have fits: "tlv_fits 0x04 toy_hash" "tlv_fits 0x30 (encode_tlv 0x04 toy_hash)"
    "tlv_fits 0x30 (encode_tlv 0x30 (encode_tlv 0x04 toy_hash))"
    "tlv_fits 0x30 (encode_tlv 0x30 (encode_tlv 0x30 (encode_tlv 0x04 toy_hash)))"
    by (simp_all add: toy_fits encode_tlv_short len)
  have hd: "encode_tlv 0x04 toy_hash \<noteq> []" "hd (encode_tlv 0x04 toy_hash) = 0x04"
    using encode_tlv_hd(2) [of 4 toy_hash "[]"] by (simp_all add: encode_tlv_hd)
  have "any_to_der toy_tsa_crypto v = Some (any_body v)" for v by (simp add: toy_tsa_crypto_def toy_crypto_def)
  then have "parse_ess_binding toy_tsa_crypto toy_tlib
        (Any 0x30 (encode_tlv 0x30 (encode_tlv 0x30 (encode_tlv 0x30 (encode_tlv 0x04 toy_hash))))) True
      = Inr \<lparr>eb_digest = HSha256, eb_hash = toy_hash, eb_issuer_serial = None\<rparr>"
    by (simp add: parse_ess_binding_def parse_field_enc fits ess_hash_algorithm_def ess_issuer_serial_def hd len)
  then show ?thesis
    by (simp add: signing_certificate_bindings_def optional_binding_def find_attribute_def toy_attrs_def
        ID_CONTENT_TYPE_ATTR_def ID_MESSAGE_DIGEST_ATTR_def ID_SIGNING_CERTIFICATE_def ID_SIGNING_CERTIFICATE_V2_def)
qed

lemma toy_signature: "verify_certificate_signature_with_policy toy_lib toy_tsa_crypto (ed_cert u i e) c policy = Inr ()"
  by (simp add: verify_certificate_signature_with_policy_def toy_lib_def toy_cert_def ed_cert_def toy_tsa_crypto_def
      verify_signature_by_algid_with_policy_def verify_signature_by_oid_with_policy_def is_weak_signature_oid_def
      verify_with_backend_def toy_crypto_def ed_alg_def verify_oids)

lemma toy_select: "select_signer toy_lib toy_tsa_crypto toy_tlib toy_si toy_attrs [toy_tsa] = Inr toy_tsa"
proof -
  have "ess_matches toy_lib toy_tlib \<lparr>eb_digest = HSha256, eb_hash = toy_hash, eb_issuer_serial = None\<rparr> toy_tsa = Inr True"
    by (simp add: ess_matches_True binds_def toy_lib_def)
  moreover have "signer_identifier_matches (si_sid toy_si) toy_tsa" by (simp add: toy_si_def toy_tsa_def)
  ultimately show ?thesis by (simp add: select_signer_def toy_bindings) (simp add: toy_si_def)
qed

lemma toy_profile:
  "require_timestamping_eku toy_tlib toy_tsa = Inr ()" "require_not_ca toy_tsa = Inr ()"
  "require_timestamp_signing_key_usage toy_lib toy_tsa = Inr ()"
  by (simp_all add: require_timestamping_eku_def require_not_ca_def require_timestamp_signing_key_usage_def toy_tsa_def
      toy_eku_def EKU_OID_def BASIC_CONSTRAINTS_OID_def KEY_USAGE_OID_def)

lemma toy_attrs_checked:
  "check_content_type toy_tsa_crypto toy_attrs = Inr ()" "check_message_digest toy_tlib toy_attrs Sha256 toy_tst = Inr ()"
  "check_signature toy_lib toy_tsa_crypto toy_tlib toy_si toy_attrs toy_tsa Sha256 = Inr ()"
proof -
  note attr_oids = ID_CONTENT_TYPE_ATTR_def ID_MESSAGE_DIGEST_ATTR_def ID_SIGNING_CERTIFICATE_V2_def
  show "check_content_type toy_tsa_crypto toy_attrs = Inr ()"
    by (simp add: check_content_type_def find_attribute_def toy_attrs_def attr_oids toy_tsa_crypto_def)
  show "check_message_digest toy_tlib toy_attrs Sha256 toy_tst = Inr ()"
    by (simp add: check_message_digest_def find_attribute_def toy_attrs_def attr_oids)
  show "check_signature toy_lib toy_tsa_crypto toy_tlib toy_si toy_attrs toy_tsa Sha256 = Inr ()"
    by (simp add: check_signature_def toy_si_def toy_lib_def verify_cms_signature_def resolve_cms_oid_def ed_alg_def
        combined_oid_digest_def verify_signature_by_oid_def verify_signature_by_oid_with_policy_def is_weak_signature_oid_def
        verify_with_backend_def toy_tsa_crypto_def toy_crypto_def verify_oids OID_RSA_ENCRYPTION_def)
qed

lemma toy_gen_time: "gen_time_parts toy_tlib toy_info = Inr (50, False)"
  by (simp add: gen_time_parts_def toy_info_def Let_def nth_append)

lemma toy_token_cms:
  "verify_token_cms toy_lib toy_tsa_crypto toy_tlib toy_token [] = Inr (\<lparr>vt_signer = toy_tsa, vt_embedded = [toy_tsa]\<rparr>, toy_info)"
proof -
  have "open_signed_data toy_tlib toy_token = Inr (toy_signed_data, toy_tst, toy_si, toy_attrs)"
    by (simp add: open_signed_data_Inr) (simp add: toy_signed_data_def toy_si_def)
  moreover have "collect_certificates toy_signed_data [] = [toy_tsa]"
    by (simp add: collect_certificates_def toy_signed_data_def)
  moreover have "digest_from_oid (alg_oid (si_digest_alg toy_si)) = Some Sha256"
    by (simp add: digest_from_oid_iff toy_si_def)
  moreover have "check_gen_time_within_validity toy_tlib toy_tsa toy_info = Inr ()"
    by (simp add: check_gen_time_within_validity_def toy_gen_time) (simp add: toy_tsa_def)
  ultimately show ?thesis
    by (simp add: verify_token_cms_def toy_select toy_attrs_checked toy_profile toy_tst_info toy_identity)
qed

lemma toy_tsa_chain:
  "verify_timestamp_chain True toy_lib toy_tsa_crypto toy_store [toy_tsa] 50 False = Inr toy_root"
proof -
  have nc: "enforce_name_constraints_path toy_lib [toy_tsa, toy_root] = Inr ()"
    by (simp add: enforce_name_constraints_path_def toy_root_def ca_ext_def add_from_cert_def path_eval
        nc_is_empty_def nc_default_def)
  have cand: "verify_candidate True toy_lib toy_tsa_crypto policy_strict [toy_tsa] (Some 50) False toy_root = Inr toy_root"
    using nc by (simp add: verify_candidate_def toy_tsa_def toy_signature)
      (simp add: toy_root_def ca_ext_def path_eval toy_bc EKU_OID_def toy_eku_def)
  have "oid_from_bytes toy_lib b = Some (map unat b)" for b by (simp add: toy_lib_def)
  then have eku: "check_extended_key_usage toy_lib toy_tsa = Inr [TIMESTAMPING_EKU_OID]"
    by (simp add: check_extended_key_usage_def find_extension_value_def toy_tsa_def toy_eku_def encode_tlv_short tlv_eval
        eku_loop.simps TIMESTAMPING_EKU_OID_def)
  have "check_basic_constraints toy_tsa = Inr (False, None)" "find_ext toy_tsa EKU_OID = Some toy_eku" "critical toy_eku"
    by (simp_all add: check_basic_constraints_def find_extension_value_def find_ext_def toy_tsa_def toy_eku_def
        EKU_OID_def BASIC_CONSTRAINTS_OID_def)
  with eku toy_profile(3) have "validate_timestamp_signer toy_lib toy_tsa = Inr ()"
    by (simp add: validate_timestamp_signer_def)
  moreover have "extensions toy_tsa = Some [toy_eku]" by (simp add: toy_tsa_def)
  ultimately have role: "validate_extensions_for_role toy_lib toy_tsa TimestampSigner = Inr ()"
    by (simp add: validate_extensions_for_role_def)
  have "find_anchor True toy_lib toy_tsa_crypto toy_store [toy_tsa] (Some 50) False = Inr toy_root"
    using cand by (simp add: find_anchor_def toy_tsa_def toy_store_def store_new_def find_all_issuers_def
        toy_root_def policy_default_def)
  moreover have "extn_id toy_eku = [2, 5, 29, 37]" by (simp add: toy_eku_def EKU_OID_def)
  ultimately show ?thesis using role
    by (simp add: verify_timestamp_chain_def verify_chain_inner_def) (simp add: toy_tsa_def path_eval)
qed

lemma toy_token_verifies:
  "verify_timestamp_token True toy_lib toy_tsa_crypto toy_tlib toy_token toy_hash Sha256 (Some 5) (Some toy_store) None [] = Inr toy_info"
proof -
  have "order_chain toy_lib toy_tsa_crypto toy_tsa [toy_tsa] (ts_signature_policy toy_store) = [toy_tsa]"
    by (simp add: order_chain_def numeral_eq_Suc Let_def chain_candidates_def choose_issuer_def)
  then show ?thesis
    by (simp add: verify_timestamp_token_def toy_token_cms gen_time_datetime_def toy_gen_time toy_tsa_chain
        check_tst_info_matches_iff) (simp add: toy_info_def check_tst_info_matches_def)
qed

theorem verify_timestamp_token_sound_witness:
  "\<exists>signer embedded. authentic_token toy_lib toy_tsa_crypto toy_tlib toy_token [] signer embedded toy_info
     \<and> timestamp_trusted True toy_lib toy_tsa_crypto toy_tlib toy_store None signer embedded toy_info"
  using verify_timestamp_token_sound [OF toy_token_verifies] by auto

theorem extract_agrees_with_verify_witness: "extract_tst_info toy_tlib toy_token = Inr toy_info"
proof -
  have ci: "\<exists>ct. toy_token = encode_tlv 0x30 (encode_tlv 0x06 ct @ encode_tlv 0xA0 (encode_tlv (any_tag c) (any_body c)))"
    if "content_info_from_der toy_tlib toy_token = Some (oid, c)" for oid c
    using that by (intro exI [of _ "[2]"]) (auto simp: toy_token_def)
  have sd: "any_tag c = 0x30 \<and> (\<exists>v da ect rest. any_body c = encode_tlv 0x02 v @ encode_tlv 0x31 da @
      encode_tlv 0x30 (encode_tlv 0x06 ect @ encode_tlv 0xA0 (encode_tlv (any_tag e) (any_body e))) @ rest)"
    if "signed_data_from_any toy_tlib c = Some sd" "sd_econtent sd = Some e" for c sd e
  proof -
    from that have "c = Any 0x30 toy_sd_body" "e = Any 0x04 toy_tst"
      by (auto simp: toy_signed_data_def split: if_splits)
    then show ?thesis
      by (intro conjI exI [of _ "[3]"] exI [of _ "[]"] exI [of _ "[1]"]) (simp_all only: any.sel toy_sd_body_def)
  qed
  have "length toy_token < 2 ^ 32" using toy_token_length by simp
  from extract_agrees_with_verify [OF toy_token_verifies ci sd this]
  show ?thesis by (auto simp: toy_signed_data_def)
qed

definition toy_tsa_client :: tsa_client where
  "toy_tsa_client = \<lparr>tc_url = toy_url, tc_http_client = toy_http_client,
     tc_digest_algorithm = Sha256, tc_policy_oid = Some [1, 2], tc_timeout = 30,
     tc_max_body_size = TSA_MAX_BODY_SIZE, tc_cert_req = True, tc_verification_certs = []\<rparr>"

definition toy_response :: bytes where
  "toy_response = encode_tlv 0x30 (encode_tlv 0x30 (encode_tlv 0x02 [0]) @ toy_token)"

definition toy_tsa_env :: tsa_env where
  "toy_tsa_env = \<lparr>te_resolver = toy_resolver, te_guard_timeout = False, te_random = Some [5, 0, 0, 0, 0, 0, 0, 0],
     te_post = (\<lambda>_ _. Some \<lparr>http_success = True, http_content_length = None, http_chunks = [Some toy_response]\<rparr>)\<rparr>"

lemma toy_response_parses:
  "parse_timestamp_response toy_tlib toy_response = Inr \<lparr>tr_status = Granted, tr_status_string = None,
     tr_failure_info = None, tr_token_der = Some toy_token\<rparr>"
proof -
  have "tlv_fits 0x30 (encode_tlv 0x30 (encode_tlv 0x02 [0]) @ toy_token)" "tlv_fits 0x30 (encode_tlv 0x02 [0])"
    "tlv_fits 0x02 [0]" "tlv_fits 0x30 (encode_tlv 0x06 [2] @ encode_tlv 0xA0 (encode_tlv 0x30 toy_sd_body))"
    by (simp_all add: toy_fits encode_tlv_short toy_token_def toy_sd_body_def toy_tst_def toy_tst_fields_def toy_hash_def)
  then show ?thesis
    by (simp add: parse_timestamp_response_def toy_response_def parse_field_enc encode_tlv_hd status_fields.simps
        pki_from_u64_def) (simp add: toy_token_def parse_field_enc)
qed

lemma toy_tsa_answer:
  "\<exists>req. tsa_timestamp toy_lib toy_tsa_crypto toy_tlib toy_tsa_env toy_tsa_client toy_hash
     = (Inr toy_token, [(toy_url, req)])"
proof -
  have "length toy_response \<le> TSA_MAX_BODY_SIZE" 
    using toy_token_length by (simp add: toy_response_def encode_tlv_short TSA_MAX_BODY_SIZE_def)
  moreover have "be_loop 0 [0, 0, 0, 0, 0, 0, 0, 5] = (5 :: u64)" by simp
  moreover have "check_tst_info_matches toy_info toy_hash (Some 5) Sha256 = Inr ()" "ti_policy_oid toy_info = Some [1, 2]"
    by (simp_all add: check_tst_info_matches_iff toy_info_def)
  ultimately show ?thesis using toy_guard
    by (simp add: tsa_timestamp_def toy_tsa_env_def toy_tsa_client_def token_generate_nonce_def build_timestamp_request_def
        receive_token_def tsa_read_response_body_def toy_response_parses validate_timestamp_response_for_policy_def is_success_def
        toy_token_cms check_tst_policy_def)
qed

theorem tsa_timestamp_sound_witness:
  "\<exists>body. answers_request toy_lib toy_tsa_crypto toy_tlib toy_tsa_client toy_hash 5 body toy_token"
proof -
  obtain req where r: "tsa_timestamp toy_lib toy_tsa_crypto toy_tlib toy_tsa_env toy_tsa_client toy_hash
      = (Inr toy_token, [(toy_url, req)])" using toy_tsa_answer by blast
  have "token_generate_nonce (te_random toy_tsa_env) = Inr 5" by (simp add: toy_tsa_env_def token_generate_nonce_def)
  with tsa_timestamp_sound [OF r] show ?thesis by auto
qed

theorem ess_bindings_typed_witness:
  "length toy_hash = 32
   \<and> (\<exists>v2 v. the_attribute toy_attrs (if v2 then ID_SIGNING_CERTIFICATE_V2 else ID_SIGNING_CERTIFICATE) v
        \<and> ess_says toy_tsa_crypto toy_tlib v v2 \<lparr>eb_digest = HSha256, eb_hash = toy_hash, eb_issuer_serial = None\<rparr>)"
  using ess_bindings_typed [OF toy_bindings] by simp

theorem request_imprint_roundtrip_witness:
  "\<exists>req imprint. build_timestamp_request toy_tlib Sha256 toy_hash None (Some 5) True = Inr req
     \<and> parse_message_imprint toy_tlib imprint = Inr (Sha256, toy_hash)"
  using request_imprint_roundtrip [of toy_tlib Sha256 "[]" toy_hash "Some []" None "Some 5" True]
  by (simp add: digest_algorithm_identifier_def toy_any_ref toy_hash_length) blast

theorem pool_token_sound_witness:
  "\<exists>nonce body. answers_request toy_lib toy_tsa_crypto toy_tlib toy_tsa_client toy_hash nonce body toy_token"
proof -
  obtain req where "tsa_timestamp toy_lib toy_tsa_crypto toy_tlib toy_tsa_env toy_tsa_client toy_hash
      = (Inr toy_token, [(toy_url, req)])" using toy_tsa_answer by blast
  then have "pool_timestamp toy_lib toy_tsa_crypto toy_tlib (\<lambda>_. toy_tsa_env) [toy_tsa_client] toy_hash
      = (Inr toy_token, [(toy_url, req)])"
    by (simp add: pool_timestamp_def)
  from pool_token_sound [OF this] show ?thesis by auto
qed

end
