(* ===== verification/Spec2Isabelle.thy ===== *)
theory Spec2Isabelle
  imports Chain_Build Anchor_Loading Net_Facts Revocation_Facts Ltv_Error Timestamping
begin

text \<open>
  \<^bold>\<open>ritsp-ltv: trust, long-term validation and timestamping\<close>

  The crate (Rust, under \<open>src/src/\<close>) validates X.509 certification paths against a trust store, determines
  the revocation status of certificates by CRL and OCSP, discovers missing issuers, and requests and
  verifies RFC 3161 timestamps. This development models its non-test code and proves what the results of
  the public operations mean.

  \<^bold>\<open>Parts and how they interact.\<close> Every parser is built on the TLV reader of \<open>der_utils.rs\<close>. Certificates are
  values decoded by the \<open>x509-cert\<close> crate; \<open>ltv/x509_ext.rs\<close> reads their extensions and checks the profile of
  a role, \<open>ltv/name_constraints.rs\<close> accumulates and checks name constraints, \<open>crypto/verify.rs\<close> dispatches
  signatures to a backend under a policy. \<open>trust/store.rs\<close> composes these into path validation;
  \<open>trust/chain_build.rs\<close> orders a pool of certificates into a path for it. \<open>ltv/crl.rs\<close> and \<open>ltv/ocsp.rs\<close>
  each parse, authenticate and interpret one kind of revocation evidence and fetch it through the guard of
  \<open>net.rs\<close>; \<open>ltv/revocation.rs\<close> runs both under deadlines, checks delegated OCSP responders by calling itself
  with one level less of recursion, and merges the answers (\<open>ltv/status.rs\<close>). \<open>ltv/chain.rs\<close> fetches issuers
  online. \<open>tsp/token.rs\<close> builds requests, parses responses and verifies tokens, with path validation for the
  signer; \<open>tsp/client.rs\<close> does the exchange and falls back over a pool of authorities.

  \<^bold>\<open>Theories.\<close> A definition has the name of the function it models, with a prefix where a name occurs twice;
  the body of a long function is split at its comments, and each piece is a definition of its own.
  \<^item> \<open>Prelude\<close>: results as sums, \<open>and_then\<close> for the question mark operator, \<open>try_for\<close> for loops that stop at
    the first error, reachability and inductive invariants (locale \<open>inductive_invariant\<close>), rules shared by
    the other theories. \<open>Rust_Std\<close>: UTF-8 validity, ASCII case, integer parsing of the standard library.
  \<^item> \<open>Der_Utils\<close> (\<open>der_utils.rs\<close>): lengths, TLVs, integers, basicConstraints, child loops, times. Locales
    \<open>tlv_codec\<close> and \<open>tlv_loop\<close> state the laws of the codec and of loops over it. The reader accepts exactly the
    canonical encodings; integers and lengths round-trip.
  \<^item> \<open>X509_Cert\<close>: the decoded certificate and the encoders of the crates as a record of functions (\<open>lib\<close>).
    \<open>X509_Ext\<close> (\<open>ltv/x509_ext.rs\<close>): key usage, extended key usage, roles; a role is accepted exactly when its
    profile holds.
  \<^item> \<open>Name_Constraints\<close>, \<open>Name_Constraint_Facts\<close> (\<open>ltv/name_constraints.rs\<close>): parsing, accumulation, the four
    matchers. Locale \<open>accumulating_policy\<close>. Accepted names avoid every excluded subtree and lie in a
    permitted one of every issuer.
  \<^item> \<open>Algorithm\<close>, \<open>Trust_Error\<close>, \<open>Verify\<close> (\<open>crypto/algorithm.rs\<close>, \<open>error.rs\<close>, \<open>crypto/verify.rs\<close>): the backend is a
    record of functions (\<open>crypto\<close>, and \<open>digest_backend\<close> for digests at once and in parts). \<open>Ltv_Error\<close>: the error
    types of the components of \<open>ltv/\<close> as parts of \<open>LtvError\<close>. The dispatch refines the relation \<open>denotes\<close> between identifiers and
    verifiers; the strict policy admits strong digests only.
  \<^item> \<open>Trust_Store\<close>, \<open>Path_Validation\<close> (\<open>trust/store.rs\<close>): the abstract \<open>valid_path\<close> and the refinement.
    \<open>Anchor_Loading\<close>: PEM bundles and directories over a given file system. \<open>Chain_Build\<close>
    (\<open>trust/chain_build.rs\<close>, \<open>trust/store_set.rs\<close>; locale \<open>slots\<close>).
  \<^item> \<open>Status\<close> (\<open>ltv/status.rs\<close>; locale \<open>ranked_merge\<close>, a semigroup).
  \<^item> \<open>Net\<close>, \<open>Net_Facts\<close>, \<open>Http_Client\<close> (\<open>net.rs\<close>): address classifier, address literals, URL guard; the classifier is
    given as a set of blocks, and the guard by the texts a host may be, defined without the parser. Construction of the hardened client, its redirect policy and connection resolver; a request is
    the sequence of its connections, which stay outside the blocks at every redirect. Locale \<open>guarded_client\<close> is the contract
    of the clients for CRLs, OCSP, issuers and timestamps.
  \<^item> \<open>Crl\<close>, \<open>Crl_Facts\<close>, \<open>Crl_Client\<close> (\<open>ltv/crl.rs\<close>): the grammar of CRLs, when one decides a status, the cache
    as a transition system with its invariant, the fetch.
  \<^item> \<open>Ocsp\<close>, \<open>Ocsp_Check\<close>, \<open>Ocsp_Facts\<close> (\<open>ltv/ocsp.rs\<close>): requests, responses, who may sign them, nonce and
    freshness, matching of entries.
  \<^item> \<open>Revocation\<close>, \<open>Revocation_Facts\<close> (\<open>ltv/revocation.rs\<close>): the two checks as timed futures (locale
    \<open>bounded_source\<close>), the biased select loop under the deadline, delegated responders, merge and policy: what
    a status rests on, when it is reached, which status it is.
  \<^item> \<open>Online_Chain\<close> (\<open>ltv/chain.rs\<close>): discovery through caIssuers URLs.
  \<^item> \<open>Token\<close>, \<open>Token_Verify\<close> (\<open>tsp/token.rs\<close>), \<open>Tsa_Client\<close> (\<open>tsp/client.rs\<close>), with the grammars of responses and TSTInfo in
    \<open>Tst_Facts\<close>, authenticity of tokens in \<open>Token_Facts\<close>, and the properties of verification, client and pool
    (locale \<open>token_source\<close>) in \<open>Timestamping\<close>.
  \<^item> This theory: the agreement of chain building and path validation, and where the requests of all clients go.

  \<^bold>\<open>Correspondence.\<close> A struct is a record, an enum a datatype, an error a value on the left of a sum, with the
  fixed part of its message and the values it is formatted with. Bytes are 8-bit words, strings the bytes of
  their UTF-8 form. Instants are whole seconds. A function that is compiled differently with a feature has
  a flag (\<open>ltv\<close>, \<open>legacy_algorithms\<close>). Code of other crates is a parameter: decoders and encoders, the
  cryptographic backend, the calendar, the resolver and the HTTP exchange, the random source, the clock. A
  theorem that needs something of them says so in its hypotheses. An HTTP client is the configuration its
  builder is given, and \<open>exchange\<close> says which connections that configuration allows. The network is a function of the request
  and of the number of the attempt, so that a repeated request may have another answer.

  \<^bold>\<open>Loops and bounds.\<close> Loops over bytes are functions that terminate because each step consumes input; none
  uses fuel. Loops with a limit in the source have the same limit: ten certificates in online discovery,
  sixteen rounds when a token's certificates are ordered, sixty-four cache entries, the recursion budget for
  delegated responders. The walk of the ordering loop is shown to end by itself within as many rounds
  as there are embedded certificates; its limit cuts it to seventeen certificates, and does not matter for up to sixteen
  embedded ones.

  \<^bold>\<open>Assumptions of the model.\<close> The hash map of the CRL cache is a list of entries in the order of iteration,
  and eviction takes the first minimal one. Locks are not poisoned. A future is its value and the time it takes,
  and it is polled when it is ready. A revocation check sees the cache as it was at its start; changes made
  by other tasks between its steps are not modelled.

  \<^bold>\<open>Not modelled.\<close> Logging, Debug output, rendering of error values as strings, the digest and signature
  functions themselves (the backend), TLS and the transport under a connection (the HTTP library), the thread pool
  under the blocking variants, and the crate root, which has declarations only. The rest of the source is tests.
\<close>

section \<open>Properties across components\<close>

text \<open>A result that is not the error of a broken chain, and how it is composed.\<close>

definition unbroken :: "(trust_error, 'a) result \<Rightarrow> bool" where
  "unbroken r \<longleftrightarrow> (\<forall>n x y. r \<noteq> Inl (ChainBroken n x y))"

named_theorems unbroken_rules \<open>composition of results that are not broken chains\<close>

lemma unbroken_basic [unbroken_rules]:
  "unbroken (Inr x)"
  "(\<And>n x y. e \<noteq> ChainBroken n x y) \<Longrightarrow> unbroken (Inl e)"
  "unbroken r \<Longrightarrow> (\<And>x. unbroken (f x)) \<Longrightarrow> unbroken (and_then r f)"
  "(\<And>d n x y. g d \<noteq> ChainBroken n x y) \<Longrightarrow> unbroken (map_err g q)"
  "(\<And>n x y. e \<noteq> ChainBroken n x y) \<Longrightarrow> unbroken (ok_or e q')"
  "(\<And>x. x \<in> set xs \<Longrightarrow> unbroken (h x)) \<Longrightarrow> unbroken (try_for h xs)"
  "(b \<Longrightarrow> unbroken r) \<Longrightarrow> (\<not> b \<Longrightarrow> unbroken r') \<Longrightarrow> unbroken (if b then r else r')"
  "(m = None \<Longrightarrow> unbroken r) \<Longrightarrow> (\<And>z. m = Some z \<Longrightarrow> unbroken (k z)) \<Longrightarrow>
    unbroken (case m of None \<Rightarrow> r | Some z \<Rightarrow> k z)"
  "(\<And>a b. unbroken (w a b)) \<Longrightarrow> unbroken (case p of (a, b) \<Rightarrow> w a b)"
  by (auto simp: unbroken_def and_then_Inl_iff map_err_Inl_iff ok_or_Inl_iff dest: try_for_Inl_D
      split: option.splits prod.splits) metis+

lemma backend_unbroken [unbroken_rules]: "unbroken (verify_with_backend K tbs sig spki ka sa salt)"
proof -
  have "map_backend_error r \<noteq> ChainBroken n x y" for r n x y by (cases r) simp_all
  then show ?thesis unfolding verify_with_backend_def Let_def by (intro unbroken_rules) simp_all
qed

lemma ecdsa_unbroken [unbroken_rules]: "unbroken (verify_ecdsa_bound K tbs sig spki h)"
  unfolding verify_ecdsa_bound_def ec_named_curve_def by (intro unbroken_rules) simp_all

lemma pss_any_unbroken [unbroken_rules]: "unbroken (verify_pss_any K tbs sig spki hs)"
  by (induction hs) (auto simp: unbroken_def split: sum.splits)

lemma legacy_unbroken [unbroken_rules]:
  "unbroken (verify_legacy_md5_rsa K tbs sig spki)" "unbroken (verify_dsa K tbs sig spki hash)"
  unfolding verify_legacy_md5_rsa_def verify_dsa_def by (intro unbroken_rules; simp)+

lemma oid_unbroken [unbroken_rules]: "unbroken (verify_signature_by_oid_with_policy K tbs sig spki oid p)"
  unfolding verify_signature_by_oid_with_policy_def by (intro unbroken_rules) simp_all

lemma pss_unbroken [unbroken_rules]: "unbroken (verify_rsa_pss_signature_strict K tbs sig spki p)"
proof -
  have "unbroken (case a of Sha256 \<Rightarrow> Inr HSha256 | Sha384 \<Rightarrow> Inr HSha384 | Sha512 \<Rightarrow> Inr HSha512
      | other \<Rightarrow> Inl (UnsupportedAlgorithm (UnsPssDigest other)))" for a
    by (cases a) (simp_all add: unbroken_def)
  then show ?thesis
    unfolding verify_rsa_pss_signature_strict_def Let_def by (intro unbroken_rules) simp_all
qed

lemma signature_unbroken [unbroken_rules]:
  "unbroken (verify_certificate_signature_with_policy L K cert issuer_cert p)"
  unfolding verify_certificate_signature_with_policy_def verify_signature_by_algid_with_policy_def
  by (intro unbroken_rules) simp_all

lemma basic_constraints_unbroken [unbroken_rules]: "unbroken (basic_constraints cert)"
  unfolding basic_constraints_def by (intro unbroken_rules) simp_all

lemma key_cert_sign_unbroken [unbroken_rules]: "unbroken (cert_key_cert_sign cert)"
  unfolding cert_key_cert_sign_def parse_key_cert_sign_bit_def by (intro unbroken_rules) simp_all

lemma intermediate_unbroken [unbroken_rules]: "unbroken (validate_intermediate_ca_extensions cert l)"
  unfolding validate_intermediate_ca_extensions_def
  by (intro unbroken_rules) (auto simp: unbroken_def split: bool.splits)

lemma count_unbroken [unbroken_rules]: "unbroken (count_subordinate_cas l below n)"
proof (induction below arbitrary: n)
  case (Cons cert below)
  then show ?case unfolding count_subordinate_cas.simps by (intro unbroken_rules) simp_all
qed (simp add: unbroken_def)

lemma path_len_unbroken [unbroken_rules]: "unbroken (enforce_path_len cert below l)"
  unfolding enforce_path_len_def by (intro unbroken_rules) simp_all

lemma extensions_unbroken [unbroken_rules]:
  "unbroken (reject_duplicate_extensions cert l)" "unbroken (reject_unknown_critical_extensions ltv cert l)"
  "unbroken (check_validity t frac i cert)"
  unfolding reject_duplicate_extensions_def reject_unknown_critical_extensions_def check_critical_def
    check_validity_def Let_def
  by (intro unbroken_rules; simp)+

lemma nc_unbroken [unbroken_rules]: "unbroken (enforce_name_constraints_path L path)"
proof -
  have "unbroken (nc_path_loop L path tops st)" for tops st
  proof (induction tops arbitrary: st)
    case (Cons top tops)
    then show ?case
      unfolding nc_path_loop.simps Let_def
      by (intro unbroken_rules) (simp_all add: name_constraint_to_trust_error_def)
  qed (simp add: unbroken_def)
  then show ?thesis by (simp add: enforce_name_constraints_path_def)
qed

lemma anchor_unbroken [unbroken_rules]: "unbroken (find_anchor ltv L K s chain t frac)"
proof -
  have cand: "unbroken (verify_candidate ltv L K p chain t frac c)" for p c
    unfolding verify_candidate_def by (intro unbroken_rules)
  have loop: "cs \<noteq> [] \<or> e \<noteq> None \<Longrightarrow> (\<forall>x. e = Some x \<longrightarrow> unbroken (Inl x :: (trust_error, certificate) result)) \<Longrightarrow>
      unbroken (the (try_candidates (verify_candidate ltv L K p chain t frac) cs e))" for p cs e
  proof (induction cs arbitrary: e)
    case (Cons c cs)
    then show ?case using cand [of p c]
      by (cases "verify_candidate ltv L K p chain t frac c") (auto simp: unbroken_def)
  qed auto
  show ?thesis
    unfolding find_anchor_def Let_def by (intro unbroken_rules loop) simp_all
qed

text \<open>C15: The two components agree on what a chain is: a chain built from a pool under the store's
  policy is never rejected by path validation as broken. Whatever rejects it is a certificate's
  profile or validity, a name constraint, or a missing trust anchor.\<close>

theorem built_chain_not_broken:
  assumes "build_chain_from_pool_with_policy L K leaf pool tas max_depth (ts_signature_policy s) = Inr chain"
  shows "verify_chain_inner ltv L K s chain t purpose frac \<noteq> Inl (ChainBroken n x y)"
proof -
  have l: "linked L K (ts_signature_policy s) chain" using build_chain_inv [OF assms] by blast
  have "unbroken (verify_link L K (ts_signature_policy s) chain i)" if "i \<in> set [0..<length chain - 1]" for i
  proof -
    have "issuer (chain ! i) = subject (chain ! (i + 1))" using that l by (simp add: linked_def)
    then show ?thesis unfolding verify_link_def Let_def by (intro unbroken_rules) simp_all
  qed
  then have "unbroken (verify_chain_inner ltv L K s chain t purpose frac)"
    unfolding verify_chain_inner_def by (intro unbroken_rules) simp_all
  then show ?thesis by (simp add: unbroken_def)
qed

theorem built_chain_not_broken_witness:
  "verify_chain_inner True toy_lib toy_crypto toy_store [ed_cert 3 2 None, ed_cert 2 1 None] None None False
     \<noteq> Inl (ChainBroken 0 (toy_name 2) (Some (toy_name 2)))"
proof (rule built_chain_not_broken)
  show "build_chain_from_pool_with_policy toy_lib toy_crypto (ed_cert 3 2 None) [toy_root, ed_cert 2 1 None]
     (trust_anchor_subjects toy_lib toy_store) None (ts_signature_policy toy_store)
     = Inr [ed_cert 3 2 None, ed_cert 2 1 None]"
    using toy_walk by (simp add: toy_store_def store_new_def policy_default_def)
qed

subsection \<open>Outgoing requests\<close>

text \<open>C23: Whatever the crate fetches, a CRL, an OCSP response with or without a nonce, an issuer
  certificate or a timestamp: with the hardened HTTP client, every request goes to a URL that
  passed the guard, connects only to addresses outside the listed blocks, also at every redirect, and follows fewer than
  \<open>MAX_REDIRECTS\<close> redirects.\<close>

theorem online_requests_public:
  assumes http: "hardened_http_client P = Inr http"
  shows "(cc_http_client crl_client = http \<longrightarrow>
      u \<in> set (snd (snd (fetch_crls_for_cert_with_freshness L ch crl_client CEs cert fr cache))) \<longrightarrow>
      (\<exists>j. public_request http (net_resolver (CEs j)) u))
    \<and> (oc_http_client ocsp_client = http \<longrightarrow>
      u \<in> set (snd (fetch_ocsp_response L Q ocsp_client OEs cert ca)
        @ snd (fetch_ocsp_response_with_nonce L Q ocsp_client OEs random cert ca)) \<longrightarrow>
      (\<exists>j. public_request http (net_resolver (OEs j)) u))
    \<and> (cb_http_client builder = http \<longrightarrow> u \<in> set (snd (build_chain L Q pem builder BEs leaf store)) \<longrightarrow>
      (\<exists>i j. public_request http (net_resolver (BEs i j)) u))
    \<and> (tc_http_client tsa_client = http \<longrightarrow> u \<in> fst ` set (snd (tsa_timestamp L K T E tsa_client h)) \<longrightarrow>
      public_request http (te_resolver E) u)"
proof (intro conjI impI)
  assume c: "cc_http_client crl_client = http"
    and "u \<in> set (snd (snd (fetch_crls_for_cert_with_freshness L ch crl_client CEs cert fr cache)))"
  with crl_requests.requests_public [OF http [folded c], of u "(L, ch, CEs, cert, fr, cache)"] c
  show "\<exists>j. public_request http (net_resolver (CEs j)) u" by auto
next
  assume c: "oc_http_client ocsp_client = http" and "u \<in> set (snd (fetch_ocsp_response L Q ocsp_client OEs cert ca)
    @ snd (fetch_ocsp_response_with_nonce L Q ocsp_client OEs random cert ca))"
  with ocsp_requests.requests_public [OF http [folded c], of u "(L, Q, OEs, random, cert, ca)"] c
  show "\<exists>j. public_request http (net_resolver (OEs j)) u" by auto
next
  assume c: "cb_http_client builder = http" and "u \<in> set (snd (build_chain L Q pem builder BEs leaf store))"
  with issuer_requests.requests_public [OF http [folded c], of u "(L, Q, pem, BEs, leaf, store)"] c
  show "\<exists>i j. public_request http (net_resolver (BEs i j)) u" by auto
next
  assume c: "tc_http_client tsa_client = http" and "u \<in> fst ` set (snd (tsa_timestamp L K T E tsa_client h))"
  with tsa_requests.requests_public [OF http [folded c], of u "(L, K, T, E, h)"] c
  show "public_request http (te_resolver E) u" by auto
qed

theorem online_requests_public_witness: "public_request toy_http_client (net_resolver toy_env) toy_url"
proof -
  have "cc_http_client toy_crl_client = toy_http_client" by (simp add: toy_crl_client_def)
  from online_requests_public [OF toy_hardened, THEN conjunct1, rule_format, OF this toy_dp_sent] show ?thesis by simp
qed

end
